(* ===== verification/Prelude.thy ===== *)
theory Prelude
  imports Main "HOL-Library.Word" "HOL-Library.Finite_Map" "HOL-Library.Char_ord"
    "HOL-Library.List_Lexorder"
begin

text \<open>
  Shared ground of the development: the machine types of Go (unsigned words, \<open>[]byte\<close>,
  \<open>string\<close>, \<open>time.Time\<close>, \<open>time.Duration\<close>), the parts of its standard library the source calls
  (\<open>encoding/binary\<close>, \<open>unicode/utf8\<close>, the \<open>fmt\<close> verbs it prints with), and generic lemmas on
  lists, words and finite maps.  A Go map keyed by a 32-bit id is a finite map over
  \<open>u32\<close>; the Go integers that count things are HOL integers or naturals, because none
  of them comes near the 64-bit limit; words are used where the code relies on the width.
\<close>

unbundle bit_operations_syntax

subsection \<open>Types\<close>

type_synonym u8 = "8 word"
type_synonym u32 = "32 word"
type_synonym u64 = "64 word"
type_synonym bytes = "u8 list"

text \<open>
  A Go string is a byte sequence, as is HOL's \<open>string\<close>: a \<open>char\<close> is one byte.  The conversions
  \<open>[]byte(s)\<close> and \<open>string(b)\<close> are the two functions below.
\<close>

definition bytes_of_string :: "string \<Rightarrow> bytes" where
  "bytes_of_string s = map of_char s"

definition string_of_bytes :: "bytes \<Rightarrow> string" where
  "string_of_bytes b = map (\<lambda>w. char_of (unat w)) b"

text \<open>
  An instant is the number of nanoseconds since Go's zero time, so that \<open>0\<close> is the zero
  \<open>time.Time\<close>, which the code reads as "no time"; a duration is a number of nanoseconds.
  \<open>Sub\<close> saturates at the range of a signed 64-bit integer, and a product of durations
  wraps around in it.
\<close>

type_synonym gotime = int
type_synonym duration = int

definition IsZero :: "gotime \<Rightarrow> bool" where [simp]: "IsZero t \<longleftrightarrow> t = 0"
definition Time_Add :: "gotime \<Rightarrow> duration \<Rightarrow> gotime" where [simp]: "Time_Add t d = t + d"
definition Before :: "gotime \<Rightarrow> gotime \<Rightarrow> bool" where [simp]: "Before t u \<longleftrightarrow> t < u"

definition min_i64 :: int where "min_i64 = - 9223372036854775808"
definition max_i64 :: int where "max_i64 = 9223372036854775807"

definition Time_Sub :: "gotime \<Rightarrow> gotime \<Rightarrow> duration" where
  "Time_Sub t u = max min_i64 (min max_i64 (t - u))"

definition wrap_i64 :: "int \<Rightarrow> int" where
  "wrap_i64 x = (x + 9223372036854775808) mod 18446744073709551616 - 9223372036854775808"

definition Millisecond :: duration where [simp]: "Millisecond = 1000000"
definition Second :: duration where [simp]: "Second = 1000000000"

text \<open>\<open>Duration.Milliseconds\<close> divides by a million, truncating towards zero.\<close>

definition Milliseconds :: "duration \<Rightarrow> int" where
  "Milliseconds d = (if d < 0 then - ((- d) div 1000000) else d div 1000000)"

definition max_u32 :: int where [simp]: "max_u32 = 4294967295"

subsection \<open>Collections of facts\<close>

named_theorems codec_simps "what the encoders write and the decoders read back"
named_theorems queue_simps "how the operations of the outbox change its parts"
named_theorems core_frames "the fields an operation of the core leaves alone"
named_theorems inv_intros "operations that keep an invariant"

subsection \<open>Bytes and strings\<close>

lemma unat_of_char_u8 [simp]: "unat (of_char c :: u8) = of_char c"
proof -
  have "(of_char c :: u8) = word_of_nat (of_char c)" by (rule of_nat_of_char [symmetric])
  moreover have "(of_char c :: nat) < 256" by (rule nat_of_char_less_256)
  ultimately show ?thesis by (simp add: unat_of_nat)
qed

lemma of_char_char_of_u8 [simp]: "(of_char (char_of (unat w)) :: u8) = w"
proof -
  have "unat w < 256" using unsigned_less [of w] by simp
  then have "(of_char (char_of (unat w)) :: nat) = unat w" by simp
  then show ?thesis by (simp flip: of_nat_of_char [of "char_of (unat w)"])
qed

lemma string_of_bytes_of_string [simp]: "string_of_bytes (bytes_of_string s) = s"
  by (simp add: string_of_bytes_def bytes_of_string_def comp_def map_idI)

lemma bytes_of_string_of_bytes [simp]: "bytes_of_string (string_of_bytes b) = b"
  by (simp add: string_of_bytes_def bytes_of_string_def comp_def map_idI)

lemma length_bytes_of_string [simp]: "length (bytes_of_string s) = length s"
  by (simp add: bytes_of_string_def)

lemma bytes_of_string_Nil_iff [simp]: "bytes_of_string s = [] \<longleftrightarrow> s = []"
  by (simp add: bytes_of_string_def)

text \<open>A statement about every byte is checked on the 256 of them.\<close>

lemma u8_exhaust:
  assumes "list_all (\<lambda>n. P (word_of_nat n :: u8)) [0..<256]"
  shows "P b"
proof -
  have "unat b \<in> set [0..<256]" using unsigned_less [of b] by simp
  with assms have "P (word_of_nat (unat b))" unfolding list_all_iff by (rule bspec)
  then show ?thesis by simp
qed

subsection \<open>\<open>encoding/binary\<close>, little endian\<close>

definition PutUint32 :: "u32 \<Rightarrow> bytes" where
  "PutUint32 v = [ucast v, ucast (drop_bit 8 v), ucast (drop_bit 16 v), ucast (drop_bit 24 v)]"

text \<open>\<open>Uint32\<close> reads four bytes; every caller has checked that there are four.\<close>

definition Uint32 :: "bytes \<Rightarrow> u32" where
  "Uint32 b = ucast (b ! 0) OR push_bit 8 (ucast (b ! 1)) OR push_bit 16 (ucast (b ! 2))
     OR push_bit 24 (ucast (b ! 3))"

lemma length_PutUint32 [simp]: "length (PutUint32 v) = 4"
  by (simp add: PutUint32_def)

lemma PutUint32_not_Nil [simp]: "PutUint32 v \<noteq> []"
  by (simp add: PutUint32_def)

lemma Uint32_PutUint32 [simp]: "Uint32 (PutUint32 v @ r) = v"
  unfolding Uint32_def PutUint32_def
proof (rule bit_word_eqI)
  fix n assume "n < LENGTH(32)"
  then consider "n < 8" | "8 \<le> n" "n < 16" | "16 \<le> n" "n < 24" | "24 \<le> n" "n < 32" by force
  then show "bit (ucast (([ucast v, ucast (drop_bit 8 v), ucast (drop_bit 16 v),
      ucast (drop_bit 24 v)] @ r) ! 0) OR push_bit 8 (ucast (([ucast v, ucast (drop_bit 8 v),
      ucast (drop_bit 16 v), ucast (drop_bit 24 v)] @ r) ! 1)) OR push_bit 16 (ucast (([ucast v,
      ucast (drop_bit 8 v), ucast (drop_bit 16 v), ucast (drop_bit 24 v)] @ r) ! 2)) OR
      push_bit 24 (ucast (([ucast v, ucast (drop_bit 8 v), ucast (drop_bit 16 v),
      ucast (drop_bit 24 v)] @ r) ! 3)) :: u32) n = bit v n"
    by cases (auto simp: bit_simps)
qed

lemma Uint32_PutUint32_Nil [simp]: "Uint32 (PutUint32 v) = v"
  using Uint32_PutUint32 [of v "[]"] by simp

lemma PutUint32_Uint32_Cons: "PutUint32 (Uint32 (a # b # c # d # r)) = [a, b, c, d]"
  unfolding Uint32_def PutUint32_def
  by (auto intro!: bit_word_eqI simp: bit_simps) (fastforce dest: bit_imp_le_length)+

lemma PutUint32_Uint32: "4 \<le> length b \<Longrightarrow> PutUint32 (Uint32 b) = take 4 b"
proof -
  assume "4 \<le> length b"
  then obtain w x y z r where "b = w # x # y # z # r"
    by (auto simp: numeral_eq_Suc Suc_le_length_iff)
  then show ?thesis by (simp add: PutUint32_Uint32_Cons)
qed

lemma PutUint32_inject [simp]: "PutUint32 v = PutUint32 w \<longleftrightarrow> v = w"
  by (metis Uint32_PutUint32_Nil)

lemma unat_of_length [simp]: "n < 4294967296 \<Longrightarrow> unat (word_of_nat n :: u32) = n"
  by (simp add: unat_of_nat)

subsection \<open>\<open>unicode/utf8\<close>\<close>

text \<open>\<open>utf8.Valid\<close>: the byte ranges of well-formed UTF-8, without overlong forms, surrogates
  or code points beyond 10FFFF.\<close>

definition in_range :: "u8 \<Rightarrow> u8 \<Rightarrow> u8 \<Rightarrow> bool" where
  "in_range lo hi b \<longleftrightarrow> lo \<le> b \<and> b \<le> hi"

fun utf8_valid :: "bytes \<Rightarrow> bool" where
  "utf8_valid [] = True"
| "utf8_valid (b # r) =
    (if b < 0x80 then utf8_valid r
     else if in_range 0xC2 0xDF b then
       (case r of c # r' \<Rightarrow> in_range 0x80 0xBF c \<and> utf8_valid r' | _ \<Rightarrow> False)
     else if in_range 0xE0 0xEF b then
       (case r of c # d # r' \<Rightarrow>
          in_range (if b = 0xE0 then 0xA0 else 0x80) (if b = 0xED then 0x9F else 0xBF) c
          \<and> in_range 0x80 0xBF d \<and> utf8_valid r'
        | _ \<Rightarrow> False)
     else if in_range 0xF0 0xF4 b then
       (case r of c # d # e # r' \<Rightarrow>
          in_range (if b = 0xF0 then 0x90 else 0x80) (if b = 0xF4 then 0x8F else 0xBF) c
          \<and> in_range 0x80 0xBF d \<and> in_range 0x80 0xBF e \<and> utf8_valid r'
        | _ \<Rightarrow> False)
     else False)"

definition valid_string :: "string \<Rightarrow> bool" where
  "valid_string s \<longleftrightarrow> utf8_valid (bytes_of_string s)"

lemma utf8_valid_ascii: "\<forall>b \<in> set bs. b < 0x80 \<Longrightarrow> utf8_valid bs"
  by (induction bs) auto

lemma valid_string_Nil [simp]: "valid_string []"
  by (simp add: valid_string_def bytes_of_string_def)

subsection \<open>The verbs of \<open>fmt\<close>\<close>

definition digit :: "nat \<Rightarrow> char" where
  "digit d = ''0123456789ABCDEF'' ! d"

fun fmt_d :: "nat \<Rightarrow> string" where
  "fmt_d n = (if n < 10 then [digit n] else fmt_d (n div 10) @ [digit (n mod 10)])"

declare fmt_d.simps [simp del]

definition fmt_08X :: "u32 \<Rightarrow> string" where
  "fmt_08X w = map (\<lambda>i. digit (unat (drop_bit (4 * i) w AND 15))) [7, 6, 5, 4, 3, 2, 1, 0]"

definition fmt_02X :: "u8 \<Rightarrow> string" where
  "fmt_02X w = map (\<lambda>i. digit (unat (drop_bit (4 * i) w AND 15))) [1, 0]"

lemma length_fmt_08X [simp]: "length (fmt_08X w) = 8"
  by (simp add: fmt_08X_def)

subsection \<open>Finite maps over 32-bit ids\<close>

type_synonym 'v gomap = "(u32, 'v) fmap"

text \<open>\<open>len(m)\<close> of a map, and the look-up that yields the zero value of a missing key.\<close>

definition map_len :: "'v gomap \<Rightarrow> nat" where
  "map_len m = fcard (fmdom m)"

definition has_key :: "'v gomap \<Rightarrow> u32 \<Rightarrow> bool" where
  "has_key m k \<longleftrightarrow> fmlookup m k \<noteq> None"

lemma has_key_iff [simp]: "has_key m k \<longleftrightarrow> k |\<in>| fmdom m"
  by (simp add: has_key_def fmlookup_dom_iff)

lemma map_len_upd_le: "map_len (fmupd k v m) \<le> Suc (map_len m)"
  by (simp add: map_len_def fcard_finsert_if)

lemma map_len_upd_present: "k |\<in>| fmdom m \<Longrightarrow> map_len (fmupd k v m) = map_len m"
  by (simp add: map_len_def finsert_absorb)

lemma map_len_drop_le: "map_len (fmdrop k m) \<le> map_len m"
  by (simp add: map_len_def fcard_mono fminus_fsubset_conv fsubset_finsertI2)

lemma map_len_empty [simp]: "map_len fmempty = 0"
  by (simp add: map_len_def)

lemma map_len_0_iff: "map_len m = 0 \<longleftrightarrow> m = fmempty"
  by (auto simp: map_len_def intro!: fmap_ext fmdom_notD)

text \<open>A map from the 32-bit ids to lists holds finitely many elements; replacing one list
  changes the count by the difference.\<close>

lemma sum_length_upd:
  fixes f :: "u32 \<Rightarrow> 'a list"
  shows "(\<Sum>j \<in> UNIV. length ((f(k := q)) j)) + length (f k) = (\<Sum>j \<in> UNIV. length (f j)) + length q"
proof -
  have "(\<Sum>j \<in> UNIV. length (f j)) = length (f k) + (\<Sum>j \<in> UNIV - {k}. length (f j))"
    by (rule sum.remove) simp_all
  moreover have "(\<Sum>j \<in> UNIV. length ((f(k := q)) j))
      = length ((f(k := q)) k) + (\<Sum>j \<in> UNIV - {k}. length ((f(k := q)) j))"
    by (rule sum.remove) simp_all
  moreover have "(\<Sum>j \<in> UNIV - {k}. length ((f(k := q)) j)) = (\<Sum>j \<in> UNIV - {k}. length (f j))"
    by (rule sum.cong) auto
  ultimately show ?thesis by simp
qed

lemma sum_length_0_iff:
  fixes f :: "u32 \<Rightarrow> 'a list"
  shows "(\<Sum>j \<in> UNIV. length (f j)) = 0 \<longleftrightarrow> (\<forall>k. f k = [])"
  by simp

end
