(* ===== verification/Wire.thy ===== *)
theory Wire
  imports Prelude
begin

text \<open>
  The frame format (\<open>wire.go\<close>): a kind byte with two flags, a call id, an optional ctx block
  and a body.  \<open>Kind\<close> and \<open>CallID\<close> are words, as in the source: a kind byte read from the
  wire can hold a value outside the seven constants, which \<open>Decode\<close> has to refuse.  The
  lemmas show that decoding inverts encoding, that an accepted payload is the encoding of
  what was decoded (so no two payloads mean the same frame), and exactly which payloads
  are accepted.
\<close>

subsection \<open>Kinds, headers and errors\<close>

type_synonym Kind = u8
type_synonym CallID = u32

definition KindRequest :: Kind where [simp]: "KindRequest = 0"
definition KindResponse :: Kind where [simp]: "KindResponse = 1"
definition KindError :: Kind where [simp]: "KindError = 2"
definition KindItem :: Kind where [simp]: "KindItem = 3"
definition KindEnd :: Kind where [simp]: "KindEnd = 4"
definition KindCancel :: Kind where [simp]: "KindCancel = 5"
definition KindCredit :: Kind where [simp]: "KindCredit = 6"

definition Kind_String :: "Kind \<Rightarrow> string" where
  "Kind_String k =
    (if k = KindRequest then ''REQUEST''
     else if k = KindResponse then ''RESPONSE''
     else if k = KindError then ''ERROR''
     else if k = KindItem then ''ITEM''
     else if k = KindEnd then ''END''
     else if k = KindCancel then ''CANCEL''
     else if k = KindCredit then ''CREDIT''
     else ''kind '' @ fmt_d (unat k))"

datatype Sender = SenderCaller | SenderCallee

definition CallID_Even :: "CallID \<Rightarrow> bool" where
  "CallID_Even c \<longleftrightarrow> c mod 2 = 0"

definition CallID_String :: "CallID \<Rightarrow> string" where
  "CallID_String c = ''call '' @ fmt_d (unat c)"

record Header =
  hdr_Kind :: Kind
  hdr_Call :: CallID
  hdr_Compressed :: bool
  hdr_HasCtx :: bool

datatype WireError = WireOK | WireTruncated | WireUnknownKind | WireReservedBits
  | WireCtxOnNonRequest | WireCtxTruncated | WireCtxTooLarge

record Parsed =
  p_Header :: Header
  p_Ctx :: bytes
  p_Body :: bytes

definition HeaderLen :: nat where [simp]: "HeaderLen = 5"
definition CtxLengthLen :: nat where [simp]: "CtxLengthLen = 4"
definition flagCompressed :: u8 where [simp]: "flagCompressed = 0x80"
definition flagCtx :: u8 where [simp]: "flagCtx = 0x40"
definition reservedMask :: u8 where [simp]: "reservedMask = 0x38"
definition kindMask :: u8 where [simp]: "kindMask = 0x07"

definition KindBits :: "u8 \<Rightarrow> Kind" where
  "KindBits first = first AND kindMask"

subsection \<open>Encode and Decode\<close>

definition Encode :: "Header \<Rightarrow> bytes \<Rightarrow> bytes \<Rightarrow> bytes" where
  "Encode header ctx body =
    (let first = hdr_Kind header;
         first = (if hdr_Compressed header then first OR flagCompressed else first);
         first = (if hdr_HasCtx header then first OR flagCtx else first);
         payload = first # PutUint32 (hdr_Call header);
         payload = (if hdr_HasCtx header
                    then payload @ PutUint32 (word_of_nat (length ctx)) @ ctx else payload)
     in payload @ body)"

text \<open>\<open>ReadCallID\<close> slices the payload; both callers have checked that it has a header.\<close>

definition ReadCallID :: "bytes \<Rightarrow> CallID" where
  "ReadCallID payload = Uint32 (drop 1 payload)"

text \<open>The result of \<open>Decode\<close> is \<open>Inr\<close> of the frame where the source returns \<open>WireOK\<close>.  The
  conversion \<open>uint64(maxCtxLen)\<close> of a Go \<open>int\<close> is kept; \<open>uint64(len(afterLength))\<close> is the length
  itself.\<close>

definition Decode :: "bytes \<Rightarrow> int \<Rightarrow> WireError + Parsed" where
  "Decode payload maxCtxLen =
    (if length payload < HeaderLen then Inl WireTruncated
     else let first = payload ! 0 in
     if first AND reservedMask \<noteq> 0 then Inl WireReservedBits
     else let kind = KindBits first in
     if kind > KindCredit then Inl WireUnknownKind
     else let header = \<lparr>hdr_Kind = kind, hdr_Call = ReadCallID payload,
                 hdr_Compressed = (first AND flagCompressed \<noteq> 0),
                 hdr_HasCtx = (first AND flagCtx \<noteq> 0)\<rparr>;
              rest = drop HeaderLen payload in
     if \<not> hdr_HasCtx header then Inr \<lparr>p_Header = header, p_Ctx = [], p_Body = rest\<rparr>
     else if hdr_Kind header \<noteq> KindRequest then Inl WireCtxOnNonRequest
     else if length rest < CtxLengthLen then Inl WireCtxTruncated
     else let declared = (ucast (Uint32 rest) :: u64) in
     if declared > word_of_int maxCtxLen then Inl WireCtxTooLarge
     else let afterLength = drop CtxLengthLen rest in
     if length afterLength < unat declared then Inl WireCtxTruncated
     else Inr \<lparr>p_Header = header, p_Ctx = take (unat declared) afterLength,
               p_Body = drop (unat declared) afterLength\<rparr>)"

definition Describe :: "WireError \<Rightarrow> bytes \<Rightarrow> string" where
  "Describe err payload =
    (let first = (if length payload > 0 then payload ! 0 else 0) in
     case err of
       WireTruncated \<Rightarrow> ''payload ended before the 5-byte header''
     | WireUnknownKind \<Rightarrow> ''kind '' @ fmt_d (unat (KindBits first)) @ '' is not 0..=6''
     | WireReservedBits \<Rightarrow> ''reserved bits set in kind byte 0x'' @ fmt_02X first
     | WireCtxOnNonRequest \<Rightarrow> ''ctx block present on '' @ Kind_String (KindBits first)
     | WireCtxTruncated \<Rightarrow> ''payload ended inside the ctx block''
     | WireCtxTooLarge \<Rightarrow> ''ctx block exceeds the ceiling''
     | _ \<Rightarrow> ''no error'')"

subsection \<open>The kind byte\<close>

text \<open>A header as the core builds it: one of the seven kinds, and a ctx block only on a request.\<close>

definition header_ok :: "Header \<Rightarrow> bool" where
  "header_ok h \<longleftrightarrow> hdr_Kind h \<le> KindCredit \<and> (hdr_HasCtx h \<longrightarrow> hdr_Kind h = KindRequest)"

text \<open>The first byte of an encoded frame, and what \<open>Decode\<close> reads back from it.\<close>

definition first_byte :: "Kind \<Rightarrow> bool \<Rightarrow> bool \<Rightarrow> u8" where
  "first_byte k compressed has_ctx =
    (k OR (if compressed then 0x80 else 0)) OR (if has_ctx then 0x40 else 0)"

lemma bit_mask_u8:
  "(b :: u8) AND 0x80 \<noteq> 0 \<longleftrightarrow> bit b 7" "b AND 0x40 \<noteq> 0 \<longleftrightarrow> bit b 6"
  "b AND 0x38 = 0 \<longleftrightarrow> \<not> bit b 3 \<and> \<not> bit b 4 \<and> \<not> bit b 5"
proof -
  show "b AND 0x80 \<noteq> 0 \<longleftrightarrow> bit b 7" using and_exp_eq_0_iff_not_bit [of b 7] by simp
  show "b AND 0x40 \<noteq> 0 \<longleftrightarrow> bit b 6" using and_exp_eq_0_iff_not_bit [of b 6] by simp
  have "(0x38 :: u8) = 2 ^ 3 OR (2 ^ 4 OR 2 ^ 5)" by simp
  then have "b AND 0x38 = (b AND 2 ^ 3) OR ((b AND 2 ^ 4) OR (b AND 2 ^ 5))"
    by (simp only: bit.conj_disj_distrib)
  then show "b AND 0x38 = 0 \<longleftrightarrow> \<not> bit b 3 \<and> \<not> bit b 4 \<and> \<not> bit b 5"
    by (simp only: or_eq_0_iff and_exp_eq_0_iff_not_bit)
qed

lemma bit_eq_u8: "(\<forall>n \<in> {0, 1, 2, 3, 4, 5, 6, 7}. bit (a :: u8) n = bit b n) \<Longrightarrow> a = b"
  by (rule bit_word_eqI) (auto simp: less_Suc_eq numeral_eq_Suc)

lemma bit_low_u8: "bit (b AND 7 :: u8) n \<longleftrightarrow> n < 3 \<and> bit b n"
  using bit_take_bit_iff [of 3 b n] by (simp add: take_bit_eq_mask mask_eq_exp_minus_1)

lemma bit_first_byte:
  "bit (first_byte k z c) n \<longleftrightarrow> bit k n \<or> (n = 7 \<and> z) \<or> (n = 6 \<and> c)"
  using bit_exp_iff [of 7 n, where ?'a = u8] bit_exp_iff [of 6 n, where ?'a = u8]
  by (auto simp: first_byte_def bit_or_iff)

lemma kind_bits: "(k :: u8) \<le> 7 \<Longrightarrow> bit k n \<Longrightarrow> n < 3"
proof -
  assume "k \<le> 7" "bit k n"
  moreover have "unat k < 2 ^ 3" using \<open>k \<le> 7\<close> by (simp add: word_le_nat_alt)
  then have "unat (take_bit 3 k) = unat k" by (simp add: unsigned_take_bit_eq take_bit_nat_eq_self)
  then have "take_bit 3 k = k" by (rule unsigned_word_eqI)
  then have "k AND 7 = k" by (simp add: take_bit_eq_mask mask_eq_exp_minus_1)
  ultimately show "n < 3" using bit_low_u8 [of k n] by simp
qed

lemma first_byte_fields:
  assumes "k \<le> 6"
  shows "first_byte k z c AND 0x38 = 0" and "first_byte k z c AND 7 = k"
    and "first_byte k z c AND 0x80 \<noteq> 0 \<longleftrightarrow> z" and "first_byte k z c AND 0x40 \<noteq> 0 \<longleftrightarrow> c"
proof -
  have "k \<le> 7" using assms by (rule order_trans) simp
  note k = kind_bits [OF this]
  show "first_byte k z c AND 0x38 = 0" and "first_byte k z c AND 0x80 \<noteq> 0 \<longleftrightarrow> z"
    and "first_byte k z c AND 0x40 \<noteq> 0 \<longleftrightarrow> c"
    unfolding bit_mask_u8 bit_first_byte using k by fastforce+
  show "first_byte k z c AND 7 = k"
    using k by (intro bit_word_eqI) (auto simp: bit_low_u8 bit_first_byte)
qed

lemma first_byte_of_fields:
  assumes "b AND 0x38 = 0"
  shows "first_byte (b AND 7) (b AND 0x80 \<noteq> 0) (b AND 0x40 \<noteq> 0) = b"
  using assms by (intro bit_eq_u8) (simp add: bit_mask_u8 bit_first_byte bit_low_u8)

lemma Encode_eq:
  "Encode h ctx body = first_byte (hdr_Kind h) (hdr_Compressed h) (hdr_HasCtx h)
     # PutUint32 (hdr_Call h)
     @ (if hdr_HasCtx h then PutUint32 (word_of_nat (length ctx)) @ ctx else []) @ body"
  by (simp add: Encode_def first_byte_def Let_def)

subsection \<open>Decoding inverts encoding\<close>

lemma length_Encode [codec_simps]:
  "length (Encode h ctx body) = HeaderLen
    + (if hdr_HasCtx h then CtxLengthLen + length ctx else 0) + length body"
  by (simp add: Encode_eq)

lemma ReadCallID_Encode [codec_simps]: "ReadCallID (Encode h ctx body) = hdr_Call h"
  by (simp add: ReadCallID_def Encode_eq)

lemma KindBits_Encode [codec_simps]:
  "hdr_Kind h \<le> 6 \<Longrightarrow> KindBits (Encode h ctx body ! 0) = hdr_Kind h"
  by (simp add: KindBits_def Encode_eq first_byte_fields)

lemma ucast_u32_u64_less_iff: "(ucast (a :: u32) :: u64) < ucast b \<longleftrightarrow> a < b"
  by (simp add: word_less_nat_alt unsigned_ucast_eq take_bit_nat_eq_self less_trans [OF unsigned_less])

text \<open>A ctx block that fits: its length is a 32-bit number and within the ceiling.\<close>

definition ctx_fits :: "Header \<Rightarrow> bytes \<Rightarrow> int \<Rightarrow> bool" where
  "ctx_fits h ctx limit \<longleftrightarrow>
    (if hdr_HasCtx h then length ctx < 2 ^ 32 \<and> int (length ctx) \<le> limit \<and> limit < 2 ^ 63
     else ctx = [])"

lemma ucast_u64_gt_limit:
  "0 \<le> limit \<Longrightarrow> limit < 2 ^ 63 \<Longrightarrow> (ucast (v :: u32) :: u64) > word_of_int limit \<longleftrightarrow> int (unat v) > limit"
  by (simp add: word_less_def uint_word_of_int take_bit_eq_mod unsigned_ucast_eq
      less_trans [OF unsigned_less] flip: uint_nat)

lemma unat_ucast_u64 [simp]: "unat (ucast (v :: u32) :: u64) = unat v"
  by (simp add: unsigned_ucast_eq take_bit_nat_eq_self less_trans [OF unsigned_less])

lemma Decode_Encode [codec_simps]:
  assumes "header_ok h" and "ctx_fits h ctx limit"
  shows "Decode (Encode h ctx body) limit = Inr \<lparr>p_Header = h, p_Ctx = ctx, p_Body = body\<rparr>"
proof -
  have k: "hdr_Kind h \<le> 6" using assms(1) by (simp add: header_ok_def)
  have kc: "\<not> 6 < hdr_Kind h" using k by simp
  show ?thesis
  proof (cases "hdr_HasCtx h")
    case False
    then have "ctx = []" using assms(2) by (simp add: ctx_fits_def)
    then show ?thesis using False k kc
      by (simp add: Decode_def Encode_eq first_byte_fields KindBits_def ReadCallID_def Let_def)
  next
    case True
    then have c: "length ctx < 2 ^ 32" "\<not> limit < int (length ctx)"
      and "\<not> word_of_int limit < (ucast (word_of_nat (length ctx) :: u32) :: u64)"
      and "hdr_Kind h = 0"
      using assms by (auto simp: ctx_fits_def header_ok_def ucast_u64_gt_limit)
    then show ?thesis using True k
      by (simp add: Decode_def Encode_eq first_byte_fields KindBits_def ReadCallID_def Let_def)
  qed
qed

text \<open>The parts of an accepted payload, and its exact re-encoding.\<close>

definition accepted :: "bytes \<Rightarrow> int \<Rightarrow> bool" where
  "accepted payload limit \<longleftrightarrow>
    5 \<le> length payload \<and> payload ! 0 AND 0x38 = 0 \<and> payload ! 0 AND 7 \<le> 6
    \<and> (payload ! 0 AND 0x40 \<noteq> 0 \<longrightarrow>
        payload ! 0 AND 7 = 0 \<and> 9 \<le> length payload
        \<and> \<not> word_of_int limit < (ucast (Uint32 (drop 5 payload)) :: u64)
        \<and> 9 + unat (Uint32 (drop 5 payload)) \<le> length payload)"

lemma Decode_accepts_iff: "(\<exists>q. Decode payload limit = Inr q) \<longleftrightarrow> accepted payload limit"
  by (auto simp: Decode_def accepted_def Let_def KindBits_def not_less)

lemma Decode_header_ok: "Decode payload limit = Inr q \<Longrightarrow> header_ok (p_Header q)"
  by (auto simp: Decode_def header_ok_def Let_def not_less split: if_splits)

lemma take_drop_pieces: "take 4 r @ take 4 (drop 4 r) @ take n (drop 8 r) @ drop (n + 8) r = r"
proof -
  have "take n (drop 8 r) @ drop (n + 8) r = drop 8 r"
    by (metis append_take_drop_id drop_drop)
  moreover have "take 4 (drop 4 r) @ drop 8 r = drop 4 r"
    by (metis append_take_drop_id drop_drop numeral_Bit0)
  ultimately show ?thesis by simp
qed

lemma Encode_Decode:
  assumes "Decode payload limit = Inr q"
  shows "Encode (p_Header q) (p_Ctx q) (p_Body q) = payload"
proof -
  from assms have "5 \<le> length payload"
    by (auto simp: Decode_def Let_def not_less split: if_splits)
  then obtain f rest where p: "payload = f # rest" "4 \<le> length rest"
    by (cases payload) auto
  have "take 4 rest @ drop 4 rest = rest" by simp
  moreover have "f AND 0x38 = 0" using assms p
    by (auto simp: Decode_def Let_def split: if_splits)
  note first_byte_of_fields [OF this]
  ultimately show ?thesis using assms p take_drop_pieces [of rest]
    by (auto simp: Decode_def Encode_eq Let_def KindBits_def ReadCallID_def
        PutUint32_Uint32 not_less split: if_splits)
qed

lemma Decode_ctx_fits:
  assumes "Decode payload limit = Inr q" and "0 \<le> limit" and "limit < 2 ^ 63"
  shows "ctx_fits (p_Header q) (p_Ctx q) limit"
proof (cases "hdr_HasCtx (p_Header q)")
  case True
  let ?d = "Uint32 (drop HeaderLen payload)"
  from True assms(1) have d: "\<not> (ucast ?d :: u64) > word_of_int limit" "length (p_Ctx q) = unat (ucast ?d :: u64)"
    by (auto simp: Decode_def Let_def split: if_splits)
  have "unat (ucast ?d :: u64) = unat ?d" by (simp add: unsigned_ucast_eq)
  with d assms(2,3) True show ?thesis
    using unsigned_less [of ?d] by (simp add: ctx_fits_def ucast_u64_gt_limit)
next
  case False
  with assms(1) show ?thesis by (auto simp: ctx_fits_def Decode_def Let_def split: if_splits)
qed

lemma Decode_iff:
  assumes "0 \<le> limit" and "limit < 2 ^ 63"
  shows "Decode payload limit = Inr q \<longleftrightarrow> header_ok (p_Header q) \<and> ctx_fits (p_Header q) (p_Ctx q) limit
    \<and> payload = Encode (p_Header q) (p_Ctx q) (p_Body q)"
proof
  assume "Decode payload limit = Inr q"
  then show "header_ok (p_Header q) \<and> ctx_fits (p_Header q) (p_Ctx q) limit
      \<and> payload = Encode (p_Header q) (p_Ctx q) (p_Body q)"
    using assms Decode_header_ok Decode_ctx_fits Encode_Decode by metis
qed (simp add: Decode_Encode)

text \<open>Two payloads that decode to the same frame are the same bytes.\<close>

lemma Decode_inject:
  "Decode p limit = Inr q \<Longrightarrow> Decode p' limit = Inr q \<Longrightarrow> p = p'"
  by (metis Encode_Decode)

end
