(* ===== verification/BodyCodec.thy ===== *)
theory BodyCodec
  imports Prelude
begin

text \<open>
  The field reader and writer of the built-in models (\<open>model.go\<close>).  A read has three
  outcomes: the body ended before the field (\<open>Absent\<close>), a value, or a body that ended
  inside the field (\<open>Malformed\<close>); the reader's cursor moves as the source moves it.  The
  locale \<open>field_codec\<close> states what the models rely on, that a field written by \<open>put\<close> is
  read back by \<open>get\<close> wherever the cursor stands, and it is interpreted on the three field
  types.
\<close>

subsection \<open>Reading\<close>

datatype ModelFormatError = ModelFormatError (Reason: string)

text \<open>\<open>(0, false, nil)\<close>, \<open>(v, true, nil)\<close> and \<open>(0, false, err)\<close>.\<close>

datatype 'a read = Absent | Value 'a | Malformed ModelFormatError

record BodyReader =
  br_bytes :: bytes
  br_cursor :: nat

definition NewBodyReader :: "bytes \<Rightarrow> BodyReader" where
  "NewBodyReader b = \<lparr>br_bytes = b, br_cursor = 0\<rparr>"

definition AtEnd :: "BodyReader \<Rightarrow> bool" where
  "AtEnd r \<longleftrightarrow> br_cursor r \<ge> length (br_bytes r)"

definition ReadU32 :: "BodyReader \<Rightarrow> u32 read \<times> BodyReader" where
  "ReadU32 r =
    (if AtEnd r then (Absent, r)
     else if length (br_bytes r) - br_cursor r < 4
     then (Malformed (ModelFormatError ''the body ended inside a u32''), r)
     else (Value (Uint32 (drop (br_cursor r) (br_bytes r))),
           r\<lparr>br_cursor := br_cursor r + 4\<rparr>))"

definition ReadBytes :: "BodyReader \<Rightarrow> bytes read \<times> BodyReader" where
  "ReadBytes r =
    (case ReadU32 r of
       (Absent, r) \<Rightarrow> (Absent, r)
     | (Malformed e, r) \<Rightarrow> (Malformed e, r)
     | (Value len, r) \<Rightarrow>
         if length (br_bytes r) - br_cursor r < unat len
         then (Malformed (ModelFormatError (''a length of '' @ fmt_d (unat len)
                 @ '' runs past the end of the body'')), r)
         else (Value (take (unat len) (drop (br_cursor r) (br_bytes r))),
               r\<lparr>br_cursor := br_cursor r + unat len\<rparr>))"

definition ReadString :: "BodyReader \<Rightarrow> string read \<times> BodyReader" where
  "ReadString r =
    (case ReadBytes r of
       (Absent, r) \<Rightarrow> (Absent, r)
     | (Malformed e, r) \<Rightarrow> (Malformed e, r)
     | (Value raw, r) \<Rightarrow>
         if \<not> utf8_valid raw
         then (Malformed (ModelFormatError ''a string is not valid UTF-8''), r)
         else (Value (string_of_bytes raw), r))"

text \<open>\<open>if err != nil || !present { return ... }\<close>, the step between two fields of a decoder.\<close>

definition then_field ::
    "'a read \<times> BodyReader \<Rightarrow> 'r \<Rightarrow> ('a \<Rightarrow> BodyReader \<Rightarrow> 'r \<times> ModelFormatError option)
      \<Rightarrow> 'r \<times> ModelFormatError option" where
  "then_field res stop continue =
    (case res of
       (Absent, _) \<Rightarrow> (stop, None)
     | (Malformed e, _) \<Rightarrow> (stop, Some e)
     | (Value v, r) \<Rightarrow> continue v r)"

subsection \<open>Writing\<close>

record BodyWriter =
  bw_buf :: bytes

definition NewBodyWriter :: BodyWriter where
  "NewBodyWriter = \<lparr>bw_buf = []\<rparr>"

definition PutU32 :: "u32 \<Rightarrow> BodyWriter \<Rightarrow> BodyWriter" where
  "PutU32 v w = w\<lparr>bw_buf := bw_buf w @ PutUint32 v\<rparr>"

definition PutBytes :: "bytes \<Rightarrow> BodyWriter \<Rightarrow> BodyWriter" where
  "PutBytes v w = (let w = PutU32 (word_of_nat (length v)) w in w\<lparr>bw_buf := bw_buf w @ v\<rparr>)"

definition PutString :: "string \<Rightarrow> BodyWriter \<Rightarrow> BodyWriter" where
  "PutString v w = (let w = PutU32 (word_of_nat (length v)) w
     in w\<lparr>bw_buf := bw_buf w @ bytes_of_string v\<rparr>)"

definition BodyWriter_Len :: "BodyWriter \<Rightarrow> nat" where
  "BodyWriter_Len w = length (bw_buf w)"

definition Bytes :: "BodyWriter \<Rightarrow> bytes" where
  "Bytes w = bw_buf w"

lemmas writer_defs = NewBodyWriter_def PutU32_def PutBytes_def PutString_def Bytes_def Let_def

subsection \<open>What a field looks like on the wire\<close>

definition u32_field :: "u32 \<Rightarrow> bytes" where
  "u32_field v = PutUint32 v"

definition bytes_field :: "bytes \<Rightarrow> bytes" where
  "bytes_field v = PutUint32 (word_of_nat (length v)) @ v"

definition string_field :: "string \<Rightarrow> bytes" where
  "string_field v = PutUint32 (word_of_nat (length v)) @ bytes_of_string v"

lemma buf_Put [codec_simps]:
  "bw_buf NewBodyWriter = []"
  "bw_buf (PutU32 v w) = bw_buf w @ u32_field v"
  "bw_buf (PutBytes b w) = bw_buf w @ bytes_field b"
  "bw_buf (PutString s w) = bw_buf w @ string_field s"
  by (simp_all add: writer_defs u32_field_def bytes_field_def string_field_def)

definition unread :: "BodyReader \<Rightarrow> bytes" where
  "unread r = drop (br_cursor r) (br_bytes r)"

definition advance :: "nat \<Rightarrow> BodyReader \<Rightarrow> BodyReader" where
  "advance n r = r\<lparr>br_cursor := br_cursor r + n\<rparr>"

lemma unread_new [codec_simps]: "unread (NewBodyReader b) = b"
  by (simp add: unread_def NewBodyReader_def)

lemma unread_advance [codec_simps]: "unread r = x @ y \<Longrightarrow> unread (advance (length x) r) = y"
proof -
  assume "unread r = x @ y"
  moreover have "unread (advance (length x) r) = drop (length x) (unread r)"
    by (simp add: unread_def advance_def add.commute)
  ultimately show ?thesis by simp
qed

lemma AtEnd_iff: "AtEnd r \<longleftrightarrow> unread r = []"
  by (simp add: AtEnd_def unread_def)

text \<open>The interface between the models and the reader.\<close>

locale field_codec =
  fixes put :: "'a \<Rightarrow> bytes"
    and get :: "BodyReader \<Rightarrow> 'a read \<times> BodyReader"
    and ok :: "'a \<Rightarrow> bool"
  assumes get_put: "ok x \<Longrightarrow> unread r = put x @ rest
      \<Longrightarrow> get r = (Value x, advance (length (put x)) r)"
    and get_end: "unread r = [] \<Longrightarrow> get r = (Absent, r)"
    and get_progress: "get r = (Value x, r') \<Longrightarrow> length (unread r') < length (unread r)"
begin

text \<open>One step of a decoder, over a body that either goes on with this field or ends here.\<close>

lemma get_step:
  assumes "ok x" and "unread r = (if present then put x @ rest else [])"
  obtains r' where "get r = (if present then Value x else Absent, r')"
    and "unread r' = (if present then rest else [])"
proof (cases present)
  case True
  with assms(2) have u: "unread r = put x @ rest" by simp
  show ?thesis using that [of "advance (length (put x)) r"] get_put [OF assms(1) u]
      unread_advance [OF u] True by simp
next
  case False
  with assms(2) have "unread r = []" by simp
  then show ?thesis using that [of r] get_end [of r] False by simp
qed

lemma put_not_Nil: "ok x \<Longrightarrow> put x \<noteq> []"
proof
  assume "ok x" "put x = []"
  moreover have "unread (NewBodyReader []) = []" by (simp add: codec_simps)
  ultimately show False
    using get_put [of x "NewBodyReader []" "[]"] get_end [of "NewBodyReader []"] by simp
qed

text \<open>A field is determined by its bytes, whatever follows it.\<close>

lemma put_prefix_inject:
  assumes "ok x" and "ok y" and "put x @ u = put y @ v"
  shows "x = y \<and> u = v"
proof -
  have "get (NewBodyReader (put x @ u)) = (Value x, advance (length (put x)) (NewBodyReader (put x @ u)))"
    using assms(1) by (rule get_put) (simp add: codec_simps)
  moreover have "get (NewBodyReader (put x @ u))
      = (Value y, advance (length (put y)) (NewBodyReader (put x @ u)))"
    using assms(2) by (rule get_put) (simp add: codec_simps assms(3))
  ultimately have "x = y" by simp
  with assms(3) show ?thesis by simp
qed

end

lemma ReadU32_field: "unread r = u32_field v @ rest \<Longrightarrow> ReadU32 r = (Value v, advance 4 r)"
proof -
  assume u: "unread r = u32_field v @ rest"
  then have "length (unread r) = 4 + length rest" by (simp add: u32_field_def)
  then have "br_cursor r + 4 \<le> length (br_bytes r)" by (simp add: unread_def)
  then show ?thesis using u
    by (simp add: ReadU32_def AtEnd_def advance_def unread_def u32_field_def)
qed

definition fits_u32 :: "'a list \<Rightarrow> bool" where
  "fits_u32 xs \<longleftrightarrow> length xs < 2 ^ 32"

definition string_ok :: "string \<Rightarrow> bool" where
  "string_ok s \<longleftrightarrow> fits_u32 s \<and> valid_string s"

lemma ReadBytes_field:
  assumes "fits_u32 v" and "unread r = bytes_field v @ rest"
  shows "ReadBytes r = (Value v, advance (4 + length v) r)"
proof -
  have n: "unat (word_of_nat (length v) :: u32) = length v"
    using assms(1) by (simp add: fits_u32_def)
  have h: "ReadU32 r = (Value (word_of_nat (length v)), advance 4 r)"
    using assms(2) by (intro ReadU32_field) (simp add: bytes_field_def u32_field_def)
  have u: "unread (advance 4 r) = v @ rest"
    using assms(2) unread_advance [of r "PutUint32 (word_of_nat (length v))" "v @ rest"]
    by (simp add: bytes_field_def)
  then have "length v \<le> length (br_bytes (advance 4 r)) - br_cursor (advance 4 r)"
    by (metis length_append length_drop le_add1 unread_def)
  then show ?thesis using u
    by (simp add: ReadBytes_def h n unread_def) (simp add: advance_def)
qed

lemma string_field_bytes: "string_field s = bytes_field (bytes_of_string s)"
  by (simp add: string_field_def bytes_field_def)

lemma ReadString_field:
  assumes "string_ok s" and "unread r = string_field s @ rest"
  shows "ReadString r = (Value s, advance (4 + length s) r)"
proof -
  have "ReadBytes r = (Value (bytes_of_string s), advance (4 + length s) r)"
    using assms ReadBytes_field [of "bytes_of_string s" r rest]
    by (simp add: string_ok_def fits_u32_def string_field_bytes)
  then show ?thesis using assms(1) by (simp add: ReadString_def string_ok_def valid_string_def)
qed

lemma Read_end:
  assumes "unread r = []"
  shows "ReadU32 r = (Absent, r)" and "ReadBytes r = (Absent, r)" and "ReadString r = (Absent, r)"
  using assms by (simp_all add: ReadU32_def ReadBytes_def ReadString_def AtEnd_iff)

lemma length_unread: "length (unread r) = length (br_bytes r) - br_cursor r"
  by (simp add: unread_def)

lemma ReadU32_progress:
  "ReadU32 r = (Value x, r') \<Longrightarrow> length (unread r') < length (unread r)"
  by (auto simp: ReadU32_def AtEnd_def length_unread split: if_splits)

lemma ReadBytes_progress:
  "ReadBytes r = (Value x, r') \<Longrightarrow> length (unread r') < length (unread r)"
  by (auto simp: ReadBytes_def length_unread
      dest!: ReadU32_progress split: prod.splits read.splits if_splits)

lemma ReadString_progress:
  "ReadString r = (Value x, r') \<Longrightarrow> length (unread r') < length (unread r)"
  by (auto simp: ReadString_def dest!: ReadBytes_progress split: prod.splits read.splits if_splits)

interpretation u32f: field_codec u32_field ReadU32 "\<lambda>_. True"
  by unfold_locales
    (auto simp: ReadU32_field Read_end ReadU32_progress u32_field_def)

interpretation bytesf: field_codec bytes_field ReadBytes fits_u32
  by unfold_locales
    (auto simp: ReadBytes_field Read_end ReadBytes_progress bytes_field_def)

interpretation stringf: field_codec string_field ReadString string_ok
  by unfold_locales
    (auto simp: ReadString_field Read_end ReadString_progress string_field_def)

text \<open>A read never accepts more bytes than the body has: a byte string it returns lies in it.\<close>

lemma ReadBytes_within:
  "ReadBytes r = (Value v, r') \<Longrightarrow> \<exists>p q. unread r = p @ v @ q \<and> length p = 4"
proof -
  assume a: "ReadBytes r = (Value v, r')"
  then obtain n where n: "ReadU32 r = (Value n, advance 4 r)"
      "v = take (unat n) (drop (br_cursor r + 4) (br_bytes r))" "br_cursor r + 4 \<le> length (br_bytes r)"
    by (auto simp: ReadBytes_def ReadU32_def AtEnd_def advance_def
        split: prod.splits read.splits if_splits)
  have "v = take (unat n) (drop 4 (unread r))"
    by (simp add: n(2) unread_def add.commute)
  then have "unread r = take 4 (unread r) @ v @ drop (unat n) (drop 4 (unread r))"
    by (metis append_take_drop_id)
  moreover have "length (take 4 (unread r)) = 4" using n(3) by (simp add: unread_def)
  ultimately show ?thesis by blast
qed

end
