(* ===== verification/Status.thy ===== *)
theory Status
  imports BodyCodec
begin

text \<open>
  The status of a call (\<open>status.go\<close>): its codes, the constructors the core uses, the
  classification of an arbitrary Go error, and the body of an ERROR frame.  The lemmas give
  the round trip, the total decoding of hostile bodies, and the fields a truncated body
  leaves out.
\<close>

definition CodeCancelled :: u32 where [simp]: "CodeCancelled = 1"
definition CodeDeadlineExceeded :: u32 where [simp]: "CodeDeadlineExceeded = 2"
definition CodeUnimplemented :: u32 where [simp]: "CodeUnimplemented = 3"
definition CodeInvalidArgument :: u32 where [simp]: "CodeInvalidArgument = 4"
definition CodeUnauthenticated :: u32 where [simp]: "CodeUnauthenticated = 5"
definition CodePermissionDenied :: u32 where [simp]: "CodePermissionDenied = 6"
definition CodeResourceExhausted :: u32 where [simp]: "CodeResourceExhausted = 7"
definition CodeFailedPrecondition :: u32 where [simp]: "CodeFailedPrecondition = 8"
definition CodeUnavailable :: u32 where [simp]: "CodeUnavailable = 9"
definition CodeInternal :: u32 where [simp]: "CodeInternal = 10"

definition CodeName :: "u32 \<Rightarrow> string" where
  "CodeName code =
    (if code = CodeCancelled then ''CANCELLED''
     else if code = CodeDeadlineExceeded then ''DEADLINE_EXCEEDED''
     else if code = CodeUnimplemented then ''UNIMPLEMENTED''
     else if code = CodeInvalidArgument then ''INVALID_ARGUMENT''
     else if code = CodeUnauthenticated then ''UNAUTHENTICATED''
     else if code = CodePermissionDenied then ''PERMISSION_DENIED''
     else if code = CodeResourceExhausted then ''RESOURCE_EXHAUSTED''
     else if code = CodeFailedPrecondition then ''FAILED_PRECONDITION''
     else if code = CodeUnavailable then ''UNAVAILABLE''
     else if code = CodeInternal then ''INTERNAL''
     else ''UNKNOWN'')"

record Status =
  st_Code :: u32
  st_Message :: string

definition NewStatus :: "u32 \<Rightarrow> string \<Rightarrow> Status" where
  "NewStatus code message = \<lparr>st_Code = code, st_Message = message\<rparr>"

definition Cancelled :: Status where
  "Cancelled = NewStatus CodeCancelled ''cancelled by the caller''"

definition DeadlineExceeded :: Status where
  "DeadlineExceeded = NewStatus CodeDeadlineExceeded ''deadline exceeded''"

definition Unimplemented :: "u32 \<Rightarrow> Status" where
  "Unimplemented requestID =
    NewStatus CodeUnimplemented (''no handler for request type 0x'' @ fmt_08X requestID)"

definition InvalidArgument :: "string \<Rightarrow> Status" where
  "InvalidArgument message = NewStatus CodeInvalidArgument message"

definition Unauthenticated :: "string \<Rightarrow> Status" where
  "Unauthenticated message = NewStatus CodeUnauthenticated message"

definition PermissionDenied :: "string \<Rightarrow> Status" where
  "PermissionDenied message = NewStatus CodePermissionDenied message"

definition ResourceExhausted :: "string \<Rightarrow> Status" where
  "ResourceExhausted message = NewStatus CodeResourceExhausted message"

definition FailedPrecondition :: "string \<Rightarrow> Status" where
  "FailedPrecondition message = NewStatus CodeFailedPrecondition message"

definition Unavailable :: Status where
  "Unavailable = NewStatus CodeUnavailable ''the session ended before the call completed''"

definition Internal :: "string \<Rightarrow> Status" where
  "Internal message = NewStatus CodeInternal message"

lemmas status_defs = NewStatus_def Cancelled_def DeadlineExceeded_def Unimplemented_def
  InvalidArgument_def Unauthenticated_def PermissionDenied_def ResourceExhausted_def
  FailedPrecondition_def Unavailable_def Internal_def

text \<open>A Go error, seen through \<open>errors.As(err, &status)\<close>: either its chain holds a status, or it
  is another error with the text of its \<open>Error\<close> method.\<close>

datatype go_error = StatusError Status | PlainError string

fun StatusOf :: "go_error \<Rightarrow> Status" where
  "StatusOf (StatusError status) = status"
| "StatusOf (PlainError text) = Internal text"

definition Status_Name :: "Status \<Rightarrow> string" where
  "Status_Name s = CodeName (st_Code s)"

definition Status_Error :: "Status \<Rightarrow> string" where
  "Status_Error s = st_Message s @ '' ('' @ Status_Name s @ '')''"

definition Status_Retryable :: "Status \<Rightarrow> bool" where
  "Status_Retryable s \<longleftrightarrow> st_Code s = CodeUnavailable \<or> st_Code s = CodeResourceExhausted"

definition Status_Encode :: "Status \<Rightarrow> bytes" where
  "Status_Encode s = Bytes (PutString (st_Message s) (PutU32 (st_Code s) NewBodyWriter))"

definition DecodeStatus :: "bytes \<Rightarrow> Status" where
  "DecodeStatus body =
    (let reader = NewBodyReader body in
     case ReadU32 reader of
       (Absent, _) \<Rightarrow> Internal ''error frame carried no status code''
     | (Malformed _, _) \<Rightarrow> Internal ''error frame carried no status code''
     | (Value code, reader) \<Rightarrow>
         (case ReadString reader of
            (Malformed _, _) \<Rightarrow> Internal ''error frame carried an undecodable status message''
          | (Absent, _) \<Rightarrow> NewStatus code []
          | (Value message, _) \<Rightarrow> NewStatus code message))"

subsection \<open>Round trip and hostile bodies\<close>

lemma Status_Encode_fields [codec_simps]:
  "Status_Encode s = u32_field (st_Code s) @ string_field (st_Message s)"
  by (simp add: Status_Encode_def Bytes_def codec_simps)

lemma DecodeStatus_fields:
  assumes "unread (NewBodyReader body) = u32_field c @ rest"
  shows "DecodeStatus body =
    (case ReadString (advance 4 (NewBodyReader body)) of
       (Malformed _, _) \<Rightarrow> Internal ''error frame carried an undecodable status message''
     | (Absent, _) \<Rightarrow> NewStatus c []
     | (Value message, _) \<Rightarrow> NewStatus c message)"
  using u32f.get_put [OF TrueI assms] by (simp add: DecodeStatus_def u32_field_def)

lemma DecodeStatus_Encode [codec_simps]:
  assumes "string_ok (st_Message s)"
  shows "DecodeStatus (Status_Encode s) = s"
proof -
  let ?r = "NewBodyReader (Status_Encode s)"
  have u: "unread ?r = u32_field (st_Code s) @ string_field (st_Message s) @ []"
    by (simp add: codec_simps)
  have "unread (advance 4 ?r) = string_field (st_Message s) @ []"
    using unread_advance [OF u] by (simp add: u32_field_def)
  from stringf.get_put [OF assms this] DecodeStatus_fields [OF u] show ?thesis
    by (simp add: NewStatus_def)
qed

text \<open>A peer that stops after the code is understood: the message is empty.\<close>

lemma DecodeStatus_code_only: "DecodeStatus (u32_field c) = NewStatus c []"
proof -
  have u: "unread (NewBodyReader (u32_field c)) = u32_field c @ []" by (simp add: codec_simps)
  have "unread (advance 4 (NewBodyReader (u32_field c))) = []"
    using unread_advance [OF u] by (simp add: u32_field_def)
  from stringf.get_end [OF this] DecodeStatus_fields [OF u] show ?thesis by simp
qed

lemma DecodeStatus_short: "length body < 4 \<Longrightarrow> st_Code (DecodeStatus body) = CodeInternal"
  by (simp add: DecodeStatus_def ReadU32_def NewBodyReader_def AtEnd_def status_defs Let_def)

end

