(* ===== verification/Ctx.thy ===== *)
theory Ctx
  imports BodyCodec
begin

text \<open>
  The ctx block of a request (\<open>ctx.go\<close>): seven optional fields in a fixed order, written all
  together and read up to the point where the block ends, so that a block of an older peer
  with fewer fields is read with the missing ones at their zero values.  \<open>KeyOf\<close>,
  \<open>KeyedByContent\<close> and \<open>CtxForMethod\<close> are in the theory \<open>Keys\<close>.
\<close>

record Ctx =
  DeadlineMs :: u32
  TraceID :: bytes
  SpanID :: bytes
  Token :: string
  Tenant :: string
  IdempotencyKey :: bytes
  InitialCredit :: u32

text \<open>\<open>Ctx{}\<close>, the zero value.\<close>

definition zero_Ctx :: Ctx where
  "zero_Ctx = \<lparr>DeadlineMs = 0, TraceID = [], SpanID = [], Token = [], Tenant = [],
     IdempotencyKey = [], InitialCredit = 0\<rparr>"

definition WithDeadlineMs :: "u32 \<Rightarrow> Ctx" where
  "WithDeadlineMs deadlineMs = zero_Ctx\<lparr>DeadlineMs := deadlineMs\<rparr>"

definition WithInitialCredit :: "u32 \<Rightarrow> Ctx" where
  "WithInitialCredit initialCredit = zero_Ctx\<lparr>InitialCredit := initialCredit\<rparr>"

definition Ctx_HasDeadline :: "Ctx \<Rightarrow> bool" where
  "Ctx_HasDeadline c \<longleftrightarrow> DeadlineMs c \<noteq> 0"

definition Ctx_IsEmpty :: "Ctx \<Rightarrow> bool" where
  "Ctx_IsEmpty c \<longleftrightarrow>
     DeadlineMs c = 0 \<and>
     length (TraceID c) = 0 \<and>
     length (SpanID c) = 0 \<and>
     Token c = [] \<and>
     Tenant c = [] \<and>
     length (IdempotencyKey c) = 0 \<and>
     InitialCredit c = 0"

definition Ctx_Encode :: "Ctx \<Rightarrow> bytes" where
  "Ctx_Encode c =
    Bytes (PutU32 (InitialCredit c)
      (PutBytes (IdempotencyKey c)
        (PutString (Tenant c)
          (PutString (Token c)
            (PutBytes (SpanID c)
              (PutBytes (TraceID c)
                (PutU32 (DeadlineMs c) NewBodyWriter)))))))"

definition DecodeCtx :: "bytes \<Rightarrow> Ctx \<times> ModelFormatError option" where
  "DecodeCtx b =
    (let reader = NewBodyReader b; ctx = zero_Ctx in
     then_field (ReadU32 reader) ctx (\<lambda>v reader. let ctx = ctx\<lparr>DeadlineMs := v\<rparr> in
     then_field (ReadBytes reader) ctx (\<lambda>v reader. let ctx = ctx\<lparr>TraceID := v\<rparr> in
     then_field (ReadBytes reader) ctx (\<lambda>v reader. let ctx = ctx\<lparr>SpanID := v\<rparr> in
     then_field (ReadString reader) ctx (\<lambda>v reader. let ctx = ctx\<lparr>Token := v\<rparr> in
     then_field (ReadString reader) ctx (\<lambda>v reader. let ctx = ctx\<lparr>Tenant := v\<rparr> in
     then_field (ReadBytes reader) ctx (\<lambda>v reader. let ctx = ctx\<lparr>IdempotencyKey := v\<rparr> in
     then_field (ReadU32 reader) ctx (\<lambda>v reader. let ctx = ctx\<lparr>InitialCredit := v\<rparr> in
       (ctx, None)))))))))"

subsection \<open>Round trip\<close>

text \<open>A ctx whose variable fields fit their length prefixes and whose strings are UTF-8.\<close>

definition ctx_ok :: "Ctx \<Rightarrow> bool" where
  "ctx_ok c \<longleftrightarrow> fits_u32 (TraceID c) \<and> fits_u32 (SpanID c) \<and> string_ok (Token c)
     \<and> string_ok (Tenant c) \<and> fits_u32 (IdempotencyKey c)"

lemma Ctx_Encode_fields [codec_simps]:
  "Ctx_Encode c = u32_field (DeadlineMs c) @ bytes_field (TraceID c) @ bytes_field (SpanID c)
     @ string_field (Token c) @ string_field (Tenant c) @ bytes_field (IdempotencyKey c)
     @ u32_field (InitialCredit c)"
  by (simp add: Ctx_Encode_def Bytes_def codec_simps)

text \<open>The fields one by one, and the ctx that keeps the first \<open>n\<close> of them.\<close>

definition ctx_fields :: "Ctx \<Rightarrow> bytes list" where
  "ctx_fields c = [u32_field (DeadlineMs c), bytes_field (TraceID c), bytes_field (SpanID c),
     string_field (Token c), string_field (Tenant c), bytes_field (IdempotencyKey c),
     u32_field (InitialCredit c)]"

definition ctx_upto :: "nat \<Rightarrow> Ctx \<Rightarrow> Ctx" where
  "ctx_upto n c =
    \<lparr>DeadlineMs = (if 1 \<le> n then DeadlineMs c else 0),
     TraceID = (if 2 \<le> n then TraceID c else []),
     SpanID = (if 3 \<le> n then SpanID c else []),
     Token = (if 4 \<le> n then Token c else []),
     Tenant = (if 5 \<le> n then Tenant c else []),
     IdempotencyKey = (if 6 \<le> n then IdempotencyKey c else []),
     InitialCredit = (if 7 \<le> n then InitialCredit c else 0)\<rparr>"

lemma Ctx_Encode_concat: "Ctx_Encode c = concat (ctx_fields c)"
  by (simp add: codec_simps ctx_fields_def)

lemma ctx_upto_all: "7 \<le> n \<Longrightarrow> ctx_upto n c = c"
  by (simp add: ctx_upto_def)

text \<open>A block with the first \<open>n\<close> fields of \<open>c\<close>, or with all of them and something more after.\<close>

definition ctx_block :: "nat \<Rightarrow> Ctx \<Rightarrow> bytes \<Rightarrow> bytes" where
  "ctx_block n c extra = concat (take n (ctx_fields c)) @ (if 7 \<le> n then extra else [])"

lemma ctx_block_eq:
  "ctx_block n c extra =
    (if 1 \<le> n then u32_field (DeadlineMs c) @
    (if 2 \<le> n then bytes_field (TraceID c) @
    (if 3 \<le> n then bytes_field (SpanID c) @
    (if 4 \<le> n then string_field (Token c) @
    (if 5 \<le> n then string_field (Tenant c) @
    (if 6 \<le> n then bytes_field (IdempotencyKey c) @
    (if 7 \<le> n then u32_field (InitialCredit c) @ extra
     else []) else []) else []) else []) else []) else []) else [])"
  by (auto simp: ctx_block_def ctx_fields_def take_Cons' not_le)

lemma DecodeCtx_block:
  assumes ok: "ctx_ok c"
  shows "DecodeCtx (ctx_block n c extra) = (ctx_upto n c, None)"
proof -
  from ok have o: "fits_u32 (TraceID c)" "fits_u32 (SpanID c)" "string_ok (Token c)"
    "string_ok (Tenant c)" "fits_u32 (IdempotencyKey c)" by (simp_all add: ctx_ok_def)
  let ?s7 = "if 7 \<le> n then u32_field (InitialCredit c) @ extra else []"
  let ?s6 = "if 6 \<le> n then bytes_field (IdempotencyKey c) @ ?s7 else []"
  let ?s5 = "if 5 \<le> n then string_field (Tenant c) @ ?s6 else []"
  let ?s4 = "if 4 \<le> n then string_field (Token c) @ ?s5 else []"
  let ?s3 = "if 3 \<le> n then bytes_field (SpanID c) @ ?s4 else []"
  let ?s2 = "if 2 \<le> n then bytes_field (TraceID c) @ ?s3 else []"
  have "unread (NewBodyReader (ctx_block n c extra))
      = (if 1 \<le> n then u32_field (DeadlineMs c) @ ?s2 else [])"
    unfolding unread_new by (rule ctx_block_eq)
  from u32f.get_step [OF TrueI this] obtain r1 where
    1: "ReadU32 (NewBodyReader (ctx_block n c extra)) = (if 1 \<le> n then Value (DeadlineMs c) else Absent, r1)"
    and "unread r1 = (if 1 \<le> n then ?s2 else [])" by blast
  then have "unread r1 = ?s2" by simp
  from bytesf.get_step [OF o(1) this] obtain r2 where
    2: "ReadBytes r1 = (if 2 \<le> n then Value (TraceID c) else Absent, r2)"
    and "unread r2 = (if 2 \<le> n then ?s3 else [])" by blast
  then have "unread r2 = ?s3" by simp
  from bytesf.get_step [OF o(2) this] obtain r3 where
    3: "ReadBytes r2 = (if 3 \<le> n then Value (SpanID c) else Absent, r3)"
    and "unread r3 = (if 3 \<le> n then ?s4 else [])" by blast
  then have "unread r3 = ?s4" by simp
  from stringf.get_step [OF o(3) this] obtain r4 where
    4: "ReadString r3 = (if 4 \<le> n then Value (Token c) else Absent, r4)"
    and "unread r4 = (if 4 \<le> n then ?s5 else [])" by blast
  then have "unread r4 = ?s5" by simp
  from stringf.get_step [OF o(4) this] obtain r5 where
    5: "ReadString r4 = (if 5 \<le> n then Value (Tenant c) else Absent, r5)"
    and "unread r5 = (if 5 \<le> n then ?s6 else [])" by blast
  then have "unread r5 = ?s6" by simp
  from bytesf.get_step [OF o(5) this] obtain r6 where
    6: "ReadBytes r5 = (if 6 \<le> n then Value (IdempotencyKey c) else Absent, r6)"
    and "unread r6 = (if 6 \<le> n then ?s7 else [])" by blast
  then have "unread r6 = ?s7" by simp
  from u32f.get_step [OF TrueI this] obtain r7 where
    7: "ReadU32 r6 = (if 7 \<le> n then Value (InitialCredit c) else Absent, r7)" by blast
  show ?thesis
    by (simp add: DecodeCtx_def then_field_def zero_Ctx_def ctx_upto_def 1 2 3 4 5 6 7)
qed

lemma DecodeCtx_Encode [codec_simps]: "ctx_ok c \<Longrightarrow> DecodeCtx (Ctx_Encode c) = (c, None)"
  using DecodeCtx_block [of c 7 "[]"]
  by (simp add: ctx_block_def Ctx_Encode_concat ctx_upto_all ctx_fields_def)

lemma Ctx_IsEmpty_iff: "Ctx_IsEmpty c \<longleftrightarrow> c = zero_Ctx"
  by (cases c) (auto simp: Ctx_IsEmpty_def zero_Ctx_def)

lemma Ctx_Encode_not_Nil [simp]: "Ctx_Encode c \<noteq> []"
  by (simp add: codec_simps u32_field_def)

end
