(* ===== verification/CallIds.thy ===== *)
theory CallIds
  imports Wire
begin

text \<open>
  Call ids (\<open>call.go\<close>): a client allocates even ids and a server odd ones, each from a 32-bit
  counter that steps by two and wraps around.  The allocation loop tries every id of its
  parity once; the lemmas show that it finds a free id whenever there is one.
\<close>

datatype Role = RoleClient | RoleServer

definition Role_Allocates :: "Role \<Rightarrow> CallID \<Rightarrow> bool" where
  "Role_Allocates r call = (if r = RoleClient then CallID_Even call else \<not> CallID_Even call)"

record CallIDAllocator =
  al_role :: Role
  al_next :: u32

definition NewCallIDAllocator :: "Role \<Rightarrow> CallIDAllocator" where
  "NewCallIDAllocator role =
    (let allocator = \<lparr>al_role = role, al_next = 0\<rparr> in
     if role = RoleServer then allocator\<lparr>al_next := 1\<rparr> else allocator)"

text \<open>\<open>attempt <= math.MaxUint32/2\<close>: at most this many rounds of the loop.\<close>

definition max_attempt :: nat where
  "max_attempt = 2147483647"

function allocate_loop :: "(CallID \<Rightarrow> bool) \<Rightarrow> nat \<Rightarrow> CallIDAllocator \<Rightarrow> CallID option \<times> CallIDAllocator" where
  "allocate_loop inUse attempt a =
    (if attempt \<le> max_attempt then
       let candidate = al_next a;
           a = a\<lparr>al_next := al_next a + 2\<rparr>
       in if \<not> inUse candidate then (Some candidate, a)
          else allocate_loop inUse (attempt + 1) a
     else (None, a))"
  by pat_completeness auto
termination
  by (relation "measure (\<lambda>(p, attempt, a). Suc max_attempt - attempt)") auto

declare allocate_loop.simps [simp del]

definition Allocate :: "(CallID \<Rightarrow> bool) \<Rightarrow> CallIDAllocator \<Rightarrow> CallID option \<times> CallIDAllocator" where
  "Allocate inUse a = allocate_loop inUse 0 a"

subsection \<open>Parity\<close>

lemma CallID_Even_unat: "CallID_Even c \<longleftrightarrow> even (unat c)"
proof -
  have "unat (c mod 2) = unat c mod 2" by (simp add: unat_mod_distrib)
  then have "c mod 2 = 0 \<longleftrightarrow> unat c mod 2 = 0" by (metis unat_eq_zero)
  then show ?thesis by (simp add: CallID_Even_def even_iff_mod_2_eq_zero)
qed

lemma even_mod_u32: "even ((n :: nat) mod 4294967296) \<longleftrightarrow> even n"
  by (rule dvd_mod_iff) simp

lemma even_unat_add2: "even (unat (c + 2 :: u32)) \<longleftrightarrow> even (unat c)"
  by (simp add: unat_word_ariths even_mod_u32)

lemma CallID_Even_add2 [simp]: "CallID_Even (c + 2) \<longleftrightarrow> CallID_Even c"
  by (simp add: CallID_Even_unat even_unat_add2)

lemma CallID_Even_step: "CallID_Even (c + 2 * of_nat i) \<longleftrightarrow> CallID_Even c"
proof (induction i)
  case (Suc i)
  have "c + 2 * of_nat (Suc i) = c + 2 * of_nat i + 2" by (simp add: algebra_simps)
  then show ?case using Suc by (metis CallID_Even_add2)
qed simp

text \<open>Every id of the parity of \<open>c\<close> is one of the candidates of a full round.\<close>

lemma same_parity_step:
  assumes "CallID_Even d \<longleftrightarrow> CallID_Even c"
  obtains i where "i \<le> max_attempt" and "d = c + 2 * of_nat i"
proof -
  define n where "n = unat (d - c)"
  have "unat (c + (d - c)) = (unat c + n) mod 4294967296"
    unfolding n_def by (subst unat_word_ariths) simp
  then have "unat d = (unat c + n) mod 4294967296" by simp
  then have "even n"
    using assms by (cases "even (unat c)") (auto simp: CallID_Even_unat even_mod_u32)
  then obtain i where i: "n = 2 * i" by blast
  have "n < 2 ^ 32" unfolding n_def using unsigned_less [of "d - c"] by simp
  then have "i \<le> max_attempt" using i by (simp add: max_attempt_def)
  moreover have "d - c = of_nat n" unfolding n_def by simp
  then have "d = c + 2 * of_nat i" using i by (simp add: algebra_simps)
  ultimately show ?thesis by (rule that)
qed

subsection \<open>The allocation loop\<close>

lemma allocate_loop_Some:
  assumes "allocate_loop inUse attempt a = (Some c, a')"
  shows "\<not> inUse c \<and> (CallID_Even c \<longleftrightarrow> CallID_Even (al_next a)) \<and> al_role a' = al_role a
    \<and> al_next a' = c + 2"
  using assms
proof (induction inUse attempt a rule: allocate_loop.induct)
  case (1 inUse attempt a)
  show ?case
    using "1.prems" "1.IH" [OF _ refl refl]
    by (subst (asm) allocate_loop.simps) (auto simp: Let_def split: if_splits)
qed

lemma allocate_loop_None:
  assumes "allocate_loop inUse attempt a = (None, a')" and "attempt + i \<le> max_attempt"
  shows "inUse (al_next a + 2 * of_nat i)"
  using assms
proof (induction inUse attempt a arbitrary: i rule: allocate_loop.induct)
  case (1 inUse attempt a)
  have a: "attempt \<le> max_attempt" using "1.prems"(2) by simp
  then have u: "inUse (al_next a)" and
    l: "allocate_loop inUse (attempt + 1) (a\<lparr>al_next := al_next a + 2\<rparr>) = (None, a')"
    using "1.prems"(1) by (subst (asm) allocate_loop.simps; simp add: Let_def split: if_splits)+
  show ?case
  proof (cases i)
    case 0
    with u show ?thesis by simp
  next
    case (Suc j)
    have "inUse (al_next (a\<lparr>al_next := al_next a + 2\<rparr>) + 2 * of_nat j)"
      using "1.IH" [OF a refl refl _ l] u Suc "1.prems"(2) by simp
    then show ?thesis using Suc by (simp add: algebra_simps)
  qed
qed

text \<open>The allocator's counter keeps the parity of its role.\<close>

definition allocator_ok :: "CallIDAllocator \<Rightarrow> bool" where
  "allocator_ok a \<longleftrightarrow> Role_Allocates (al_role a) (al_next a)"

lemma allocator_ok_new [inv_intros]: "allocator_ok (NewCallIDAllocator role)"
  by (cases role) (auto simp: allocator_ok_def NewCallIDAllocator_def Role_Allocates_def CallID_Even_def)

lemma Role_Allocates_parity:
  "(CallID_Even c \<longleftrightarrow> CallID_Even d) \<Longrightarrow> Role_Allocates r c \<longleftrightarrow> Role_Allocates r d"
  by (simp add: Role_Allocates_def)

lemma Allocate_Some:
  assumes "Allocate inUse a = (Some c, a')" and "allocator_ok a"
  shows "\<not> inUse c" and "Role_Allocates (al_role a) c" and "allocator_ok a'" and "al_role a' = al_role a"
  using allocate_loop_Some [OF assms(1) [unfolded Allocate_def]] assms(2)
  by (auto simp: allocator_ok_def Role_Allocates_def split: if_splits)

text \<open>Also a failed allocation leaves a counter of the right parity.\<close>

lemma allocate_loop_keeps:
  assumes "allocate_loop inUse attempt a = (r, a')"
  shows "al_role a' = al_role a \<and> (CallID_Even (al_next a') \<longleftrightarrow> CallID_Even (al_next a))"
  using assms
proof (induction inUse attempt a rule: allocate_loop.induct)
  case (1 inUse attempt a)
  show ?case
    using "1.prems" "1.IH" [OF _ refl refl]
    by (subst (asm) allocate_loop.simps) (auto simp: Let_def split: if_splits)
qed

lemma Allocate_keeps:
  assumes "Allocate inUse a = (r, a')" and "allocator_ok a"
  shows "allocator_ok a' \<and> al_role a' = al_role a"
  using allocate_loop_keeps [OF assms(1) [unfolded Allocate_def]] assms(2)
  by (auto simp: allocator_ok_def Role_Allocates_def split: if_splits)

lemma Allocate_None_iff:
  assumes "allocator_ok a"
  shows "fst (Allocate inUse a) = None \<longleftrightarrow> (\<forall>c. Role_Allocates (al_role a) c \<longrightarrow> inUse c)"
proof
  assume "fst (Allocate inUse a) = None"
  then obtain a' where n: "allocate_loop inUse 0 a = (None, a')"
    by (cases "Allocate inUse a") (auto simp: Allocate_def)
  show "\<forall>c. Role_Allocates (al_role a) c \<longrightarrow> inUse c"
  proof (intro allI impI)
    fix c assume "Role_Allocates (al_role a) c"
    then have "CallID_Even c \<longleftrightarrow> CallID_Even (al_next a)"
      using assms by (auto simp: allocator_ok_def Role_Allocates_def split: if_splits)
    then obtain i where "i \<le> max_attempt" "c = al_next a + 2 * of_nat i"
      by (rule same_parity_step)
    then show "inUse c" using allocate_loop_None [OF n, of i] by simp
  qed
next
  assume all: "\<forall>c. Role_Allocates (al_role a) c \<longrightarrow> inUse c"
  show "fst (Allocate inUse a) = None"
  proof (rule ccontr)
    assume "fst (Allocate inUse a) \<noteq> None"
    then obtain c a' where "Allocate inUse a = (Some c, a')"
      by (cases "Allocate inUse a") auto
    from Allocate_Some [OF this assms] all show False by blast
  qed
qed

end
