(* ===== verification/Outbox.thy ===== *)
theory Outbox
  imports Wire BodyCodec
begin

text \<open>
  The send queues and their scheduler (\<open>outbox.go\<close>): one queue of frames per call, a round
  of turns over the calls that have frames, and the credit waiting to be granted per call.
  A sink is a function of the frame and of the state it changes; it accepts or rejects.
  The draining loops are modelled as loops: the inner one is bounded by the queue, the
  outer one returns only if the quantum is positive, so it is a partial function whose
  result \<open>None\<close> means that it runs forever.  The lemmas give the invariant between the
  queues, the turns and the total, what each operation does to the queues, that draining
  terminates with a positive quantum, and that it hands over a prefix of each call's
  queue, in order.
\<close>

subsection \<open>State\<close>

record Outgoing =
  og_MessageID :: u32
  og_Payload :: bytes

datatype Delivery = Accepted | Rejected

type_synonym 's Sink = "Outgoing \<Rightarrow> 's \<Rightarrow> Delivery \<times> 's"

record waitingCredit =
  wc_messageID :: u32
  wc_items :: u32

record Outbox =
  ob_queues :: "Outgoing list gomap"
  ob_credits :: "waitingCredit gomap"
  ob_turns :: "u32 list"
  ob_maxPerCall :: int
  ob_maxTotal :: int
  ob_quantum :: int
  ob_total :: int

definition NewOutbox :: "int \<Rightarrow> int \<Rightarrow> int \<Rightarrow> Outbox" where
  "NewOutbox maxPerCall maxTotal quantum =
    \<lparr>ob_queues = fmempty, ob_credits = fmempty, ob_turns = [], ob_maxPerCall = maxPerCall,
     ob_maxTotal = maxTotal, ob_quantum = quantum, ob_total = 0\<rparr>"

text \<open>\<open>o.queues[call]\<close>: a missing entry reads as the empty queue.\<close>

definition queue :: "Outbox \<Rightarrow> u32 \<Rightarrow> Outgoing list" where
  "queue b call = (case fmlookup (ob_queues b) call of None \<Rightarrow> [] | Some q \<Rightarrow> q)"

subsection \<open>Operations\<close>

definition saturatingAdd :: "u32 \<Rightarrow> u32 \<Rightarrow> u32" where
  "saturatingAdd left right =
    (let sum = (ucast left :: u64) + ucast right in
     if sum > 0xFFFFFFFF then 0xFFFFFFFF else ucast sum)"

definition Outbox_Len :: "Outbox \<Rightarrow> int" where
  "Outbox_Len b = ob_total b"

definition Outbox_Empty :: "Outbox \<Rightarrow> bool" where
  "Outbox_Empty b \<longleftrightarrow> ob_total b = 0 \<and> map_len (ob_credits b) = 0"

definition Outbox_WaitingCredit :: "CallID \<Rightarrow> Outbox \<Rightarrow> u32 option" where
  "Outbox_WaitingCredit call b = map_option wc_items (fmlookup (ob_credits b) call)"

definition Outbox_Grant :: "CallID \<Rightarrow> u32 \<Rightarrow> u32 \<Rightarrow> Outbox \<Rightarrow> Outbox" where
  "Outbox_Grant call messageID items b =
    (let already = (case fmlookup (ob_credits b) call of None \<Rightarrow> 0 | Some w \<Rightarrow> wc_items w)
     in b\<lparr>ob_credits := fmupd call
          \<lparr>wc_messageID = messageID, wc_items = saturatingAdd already items\<rparr> (ob_credits b)\<rparr>)"

definition QueuedFor :: "CallID \<Rightarrow> Outbox \<Rightarrow> int" where
  "QueuedFor call b = int (length (queue b call))"

definition FullFor :: "CallID \<Rightarrow> Outbox \<Rightarrow> bool" where
  "FullFor call b \<longleftrightarrow> QueuedFor call b \<ge> ob_maxPerCall b"

definition HasRoom :: "CallID \<Rightarrow> Outbox \<Rightarrow> bool" where
  "HasRoom call b \<longleftrightarrow> ob_total b < ob_maxTotal b \<and> \<not> FullFor call b"

definition opensWithRequest :: "u32 \<Rightarrow> Outbox \<Rightarrow> bool" where
  "opensWithRequest call b \<longleftrightarrow>
    (case queue b call of [] \<Rightarrow> False
     | f # _ \<Rightarrow> length (og_Payload f) > 0 \<and> KindBits (og_Payload f ! 0) = KindRequest)"

definition RequestStillQueued :: "CallID \<Rightarrow> Outbox \<Rightarrow> bool" where
  "RequestStillQueued call b = opensWithRequest call b"

definition Outbox_append :: "u32 \<Rightarrow> Outgoing \<Rightarrow> Outbox \<Rightarrow> Outbox" where
  "Outbox_append call frame b =
    (let q = queue b call;
         b = (if q = [] then b\<lparr>ob_turns := ob_turns b @ [call]\<rparr> else b)
     in b\<lparr>ob_queues := fmupd call (q @ [frame]) (ob_queues b), ob_total := ob_total b + 1\<rparr>)"

definition PushTerminal :: "CallID \<Rightarrow> Outgoing \<Rightarrow> Outbox \<Rightarrow> Outbox" where
  "PushTerminal call frame b = Outbox_append call frame b"

definition Push :: "CallID \<Rightarrow> Outgoing \<Rightarrow> Outbox \<Rightarrow> bool \<times> Outbox" where
  "Push call frame b =
    (if ob_total b \<ge> ob_maxTotal b \<or> FullFor call b then (False, b)
     else (True, Outbox_append call frame b))"

definition Discard :: "CallID \<Rightarrow> Outbox \<Rightarrow> Outbox" where
  "Discard call b =
    b\<lparr>ob_total := ob_total b - int (length (queue b call)),
      ob_queues := fmdrop call (ob_queues b),
      ob_credits := fmdrop call (ob_credits b),
      ob_turns := filter (\<lambda>turn. turn \<noteq> call) (ob_turns b)\<rparr>"

definition Clear :: "Outbox \<Rightarrow> Outbox" where
  "Clear b = b\<lparr>ob_queues := fmempty, ob_credits := fmempty, ob_turns := [], ob_total := 0\<rparr>"

subsection \<open>Draining\<close>

text \<open>The inner loop of \<open>drainFrames\<close>: frames of one call until the quantum is spent, the queue
  is empty or the sink rejects; the first component is \<open>rejected\<close>.\<close>

definition pop_frame :: "u32 \<Rightarrow> Outbox \<Rightarrow> Outbox" where
  "pop_frame call b = b\<lparr>ob_queues := fmupd call (tl (queue b call)) (ob_queues b),
                        ob_total := ob_total b - 1\<rparr>"

function turn_loop :: "'s Sink \<Rightarrow> u32 \<Rightarrow> int \<Rightarrow> Outbox \<Rightarrow> 's \<Rightarrow> bool \<times> Outbox \<times> 's" where
  "turn_loop sink call spent b s =
    (if spent < ob_quantum b \<and> queue b call \<noteq> [] then
       let frame = hd (queue b call) in
       case sink frame s of
         (Rejected, s) \<Rightarrow> (True, b, s)
       | (Accepted, s) \<Rightarrow>
           turn_loop sink call (spent + int (length (og_Payload frame))) (pop_frame call b) s
     else (False, b, s))"
  by pat_completeness auto
termination
  by (relation "measure (\<lambda>(sink, call, spent, b, s). length (queue b call))")
    (auto simp: pop_frame_def queue_def)

declare turn_loop.simps [simp del]

text \<open>One turn: the call leaves the front of the round, and joins its end if it has frames left.\<close>

definition drain_turn :: "'s Sink \<Rightarrow> u32 \<Rightarrow> u32 list \<Rightarrow> Outbox \<Rightarrow> 's \<Rightarrow> bool \<times> Outbox \<times> 's" where
  "drain_turn sink call turns b s =
    (case turn_loop sink call 0 (b\<lparr>ob_turns := turns\<rparr>) s of (rejected, b, s) \<Rightarrow>
       (rejected,
        (if queue b call \<noteq> [] then b\<lparr>ob_turns := ob_turns b @ [call]\<rparr>
         else b\<lparr>ob_queues := fmdrop call (ob_queues b)\<rparr>),
        s))"

partial_function (option) drainFrames :: "'s Sink \<Rightarrow> Outbox \<Rightarrow> 's \<Rightarrow> (Outbox \<times> 's) option" where
  "drainFrames sink b s =
    (if ob_total b > 0 then
       (case ob_turns b of
          [] \<Rightarrow> Some (b, s)
        | call # turns \<Rightarrow>
            (case drain_turn sink call turns b s of (rejected, b, s) \<Rightarrow>
               if rejected then Some (b, s) else drainFrames sink b s))
     else Some (b, s))"

definition credit_frame :: "u32 \<Rightarrow> waitingCredit \<Rightarrow> Outgoing" where
  "credit_frame call w =
    \<lparr>og_MessageID = wc_messageID w,
     og_Payload = Encode \<lparr>hdr_Kind = KindCredit, hdr_Call = call, hdr_Compressed = False,
       hdr_HasCtx = False\<rparr> [] (Bytes (PutU32 (wc_items w) NewBodyWriter))\<rparr>"

fun credit_loop :: "'s Sink \<Rightarrow> u32 list \<Rightarrow> Outbox \<Rightarrow> 's \<Rightarrow> bool \<times> Outbox \<times> 's" where
  "credit_loop sink [] b s = (True, b, s)"
| "credit_loop sink (call # ready) b s =
    (case fmlookup (ob_credits b) call of
       None \<Rightarrow> credit_loop sink ready b s
     | Some waiting \<Rightarrow>
         (case sink (credit_frame call waiting) s of
            (Rejected, s) \<Rightarrow> (False, b, s)
          | (Accepted, s) \<Rightarrow>
              credit_loop sink ready (b\<lparr>ob_credits := fmdrop call (ob_credits b)\<rparr>) s))"

definition ready_credits :: "Outbox \<Rightarrow> u32 list" where
  "ready_credits b =
    filter (\<lambda>call. \<not> opensWithRequest call b) (sorted_list_of_fset (fmdom (ob_credits b)))"

definition drainCredits :: "'s Sink \<Rightarrow> Outbox \<Rightarrow> 's \<Rightarrow> bool \<times> Outbox \<times> 's" where
  "drainCredits sink b s = credit_loop sink (ready_credits b) b s"

definition Outbox_Drain :: "'s Sink \<Rightarrow> Outbox \<Rightarrow> 's \<Rightarrow> (Outbox \<times> 's) option" where
  "Outbox_Drain sink b s =
    (case drainCredits sink b s of (ok, b, s) \<Rightarrow>
       if \<not> ok then Some (b, s)
       else (case drainFrames sink b s of
               None \<Rightarrow> None
             | Some (b, s) \<Rightarrow> (case drainCredits sink b s of (_, b, s) \<Rightarrow> Some (b, s))))"

subsection \<open>How the operations change the queues\<close>

lemma queue_irrelevant [simp]:
  "queue (b\<lparr>ob_turns := t\<rparr>) = queue b"
  "queue (b\<lparr>ob_credits := c\<rparr>) = queue b"
  "queue (b\<lparr>ob_total := n\<rparr>) = queue b"
  by (simp_all add: queue_def fun_eq_iff)

lemma queue_fmupd [simp]: "queue (b\<lparr>ob_queues := fmupd k q m\<rparr>) = (queue (b\<lparr>ob_queues := m\<rparr>))(k := q)"
  by (simp add: queue_def fun_eq_iff)

lemma queue_fmdrop [simp]: "queue (b\<lparr>ob_queues := fmdrop k m\<rparr>) = (queue (b\<lparr>ob_queues := m\<rparr>))(k := [])"
  by (simp add: queue_def fun_eq_iff)

lemma queue_same [simp]: "queue (b\<lparr>ob_queues := ob_queues b\<rparr>) = queue b"
  by (simp add: queue_def fun_eq_iff)

lemma queue_fmempty [simp]: "queue (b\<lparr>ob_queues := fmempty\<rparr>) = (\<lambda>_. [])"
  by (simp add: queue_def fun_eq_iff)

lemma queue_NewOutbox [queue_simps]: "queue (NewOutbox m n q) = (\<lambda>_. [])"
  by (simp add: queue_def NewOutbox_def fun_eq_iff)

lemma queue_append [queue_simps]:
  "queue (Outbox_append call f b) = (queue b)(call := queue b call @ [f])"
  by (simp add: Outbox_append_def Let_def)

lemma queue_PushTerminal [queue_simps]:
  "queue (PushTerminal call f b) = (queue b)(call := queue b call @ [f])"
  by (simp add: PushTerminal_def queue_append)

lemma queue_Discard [queue_simps]: "queue (Discard call b) = (queue b)(call := [])"
  by (simp add: Discard_def)

lemma queue_Clear [queue_simps]: "queue (Clear b) = (\<lambda>_. [])"
  by (simp add: Clear_def)

lemma queue_Grant [queue_simps]: "queue (Outbox_Grant call m n b) = queue b"
  by (simp add: Outbox_Grant_def Let_def)

lemma queue_pop [queue_simps]: "queue (pop_frame call b) = (queue b)(call := tl (queue b call))"
  by (simp add: pop_frame_def)

lemma Push_cases:
  obtains (full) "\<not> HasRoom call b" and "Push call f b = (False, b)"
  | (room) "HasRoom call b" and "Push call f b = (True, Outbox_append call f b)"
  by (cases "HasRoom call b") (auto simp: Push_def HasRoom_def)

lemma Push_iff: "fst (Push call f b) \<longleftrightarrow> HasRoom call b"
  by (auto simp: Push_def HasRoom_def)

text \<open>The ceilings and the quantum are fixed at construction.\<close>

lemma limits_kept [queue_simps]:
  "ob_maxPerCall (Outbox_append c f b) = ob_maxPerCall b"
  "ob_maxTotal (Outbox_append c f b) = ob_maxTotal b"
  "ob_quantum (Outbox_append c f b) = ob_quantum b"
  "ob_maxPerCall (Discard c b) = ob_maxPerCall b"
  "ob_maxTotal (Discard c b) = ob_maxTotal b"
  "ob_quantum (Discard c b) = ob_quantum b"
  "ob_maxPerCall (Clear b) = ob_maxPerCall b"
  "ob_maxTotal (Clear b) = ob_maxTotal b"
  "ob_quantum (Clear b) = ob_quantum b"
  "ob_maxPerCall (Outbox_Grant c m n b) = ob_maxPerCall b"
  "ob_maxTotal (Outbox_Grant c m n b) = ob_maxTotal b"
  "ob_quantum (Outbox_Grant c m n b) = ob_quantum b"
  "ob_maxPerCall (pop_frame c b) = ob_maxPerCall b"
  "ob_maxTotal (pop_frame c b) = ob_maxTotal b"
  "ob_quantum (pop_frame c b) = ob_quantum b"
  by (simp_all add: Outbox_append_def Discard_def Clear_def Outbox_Grant_def pop_frame_def Let_def)

lemma credits_kept [queue_simps]:
  "ob_credits (Outbox_append c f b) = ob_credits b"
  "ob_credits (pop_frame c b) = ob_credits b"
  "ob_credits (Discard c b) = fmdrop c (ob_credits b)"
  by (simp_all add: Outbox_append_def Discard_def pop_frame_def Let_def)

lemma total_append [queue_simps]: "ob_total (Outbox_append c f b) = ob_total b + 1"
  by (simp add: Outbox_append_def Let_def)

lemma unat_saturatingAdd: "unat (saturatingAdd a b) = min (unat a + unat b) 4294967295"
proof -
  have s: "unat ((ucast a :: u64) + ucast b) = unat a + unat b"
  proof -
    have "unat a < 4294967296" "unat b < 4294967296"
      using unsigned_less [of a, where ?'a = nat] unsigned_less [of b, where ?'a = nat] by simp_all
    then show ?thesis by (simp add: unat_word_ariths)
  qed
  show ?thesis
  proof (cases "(ucast a :: u64) + ucast b > 0xFFFFFFFF")
    case True
    then have "unat a + unat b > 4294967295" using s by (simp add: word_less_nat_alt)
    with True show ?thesis by (simp add: saturatingAdd_def Let_def)
  next
    case False
    then have l: "unat a + unat b \<le> 4294967295" using s by (simp add: word_less_nat_alt)
    have "unat (ucast ((ucast a :: u64) + ucast b) :: u32) = (unat a + unat b) mod 4294967296"
      using s by (simp add: unsigned_ucast_eq take_bit_eq_mod)
    with False l show ?thesis by (simp add: saturatingAdd_def Let_def)
  qed
qed

subsection \<open>The invariant\<close>

definition queued :: "Outbox \<Rightarrow> nat" where
  "queued b = (\<Sum>k \<in> UNIV. length (queue b k))"

definition outbox_inv :: "Outbox \<Rightarrow> bool" where
  "outbox_inv b \<longleftrightarrow> ob_total b = int (queued b) \<and> distinct (ob_turns b)
     \<and> set (ob_turns b) = {k. queue b k \<noteq> []} \<and> (\<forall>k. fmlookup (ob_queues b) k \<noteq> Some [])"

lemma queued_upd:
  "queue b' = (queue b)(k := q) \<Longrightarrow> queued b' + length (queue b k) = queued b + length q"
  by (simp only: queued_def sum_length_upd)

lemma queued_0_iff: "queued b = 0 \<longleftrightarrow> (\<forall>k. queue b k = [])"
  by (simp only: queued_def sum_length_0_iff)

lemma queued_append [queue_simps]: "queued (Outbox_append c f b) = queued b + 1"
  using queued_upd [OF queue_append, of c f b] by simp

lemma queued_pop: "queue b c \<noteq> [] \<Longrightarrow> queued (pop_frame c b) + 1 = queued b"
  using queued_upd [OF queue_pop, of c b] by (cases "queue b c") auto

lemma queued_Discard: "queued (Discard c b) + length (queue b c) = queued b"
  using queued_upd [OF queue_Discard, of c b] by simp

lemma queued_cong: "queue b = queue b' \<Longrightarrow> queued b = queued b'"
  by (simp add: queued_def)

lemma outbox_inv_new [inv_intros]: "outbox_inv (NewOutbox m n q)"
  by (simp add: outbox_inv_def queued_def queue_simps) (simp add: NewOutbox_def)

lemma outbox_inv_append [inv_intros]: "outbox_inv b \<Longrightarrow> outbox_inv (Outbox_append c f b)"
  unfolding outbox_inv_def queue_simps queued_append
  by (auto simp: Outbox_append_def Let_def)

lemma outbox_inv_PushTerminal [inv_intros]: "outbox_inv b \<Longrightarrow> outbox_inv (PushTerminal c f b)"
  by (simp add: PushTerminal_def outbox_inv_append)

lemma outbox_inv_Push [inv_intros]: "outbox_inv b \<Longrightarrow> outbox_inv (snd (Push c f b))"
  by (simp add: Push_def outbox_inv_append)

lemma outbox_inv_Discard [inv_intros]: "outbox_inv b \<Longrightarrow> outbox_inv (Discard c b)"
  using queued_Discard [of c b]
  by (auto simp: outbox_inv_def queue_simps) (auto simp: Discard_def split: if_splits)

lemma outbox_inv_Clear [inv_intros]: "outbox_inv (Clear b)"
  by (simp add: outbox_inv_def queued_def queue_simps) (simp add: Clear_def)

lemma outbox_inv_Grant [inv_intros]: "outbox_inv b \<Longrightarrow> outbox_inv (Outbox_Grant c m n b)"
  using queued_cong [OF queue_Grant, of c m n b]
  by (simp add: outbox_inv_def queue_simps) (simp add: Outbox_Grant_def Let_def)

subsection \<open>Draining: a rule for what every accepted frame preserves\<close>

text \<open>
  A property of the outbox and of the sink's state that is kept by an accepted frame, by a
  rejected one and by an accepted credit, and that looks at the queues and credits only, is
  kept by the whole of \<open>Drain\<close>.
\<close>

locale drain_rule =
  fixes sink :: "'s Sink"
    and P :: "Outbox \<Rightarrow> 's \<Rightarrow> bool"
  assumes accepted: "P b s \<Longrightarrow> queue b call = f # rest \<Longrightarrow> sink f s = (Accepted, s') \<Longrightarrow>
      P (pop_frame call b) s'"
    and rejected: "P b s \<Longrightarrow> sink f s = (Rejected, s') \<Longrightarrow> P b s'"
    and credited: "P b s \<Longrightarrow> fmlookup (ob_credits b) call = Some w \<Longrightarrow>
      \<not> opensWithRequest call b \<Longrightarrow> sink (credit_frame call w) s = (Accepted, s') \<Longrightarrow>
      P (b\<lparr>ob_credits := fmdrop call (ob_credits b)\<rparr>) s'"
    and turns: "P b s \<Longrightarrow> P (b\<lparr>ob_turns := t\<rparr>) s"
    and drop_empty: "P b s \<Longrightarrow> queue b call = [] \<Longrightarrow> P (b\<lparr>ob_queues := fmdrop call (ob_queues b)\<rparr>) s"
begin

lemma turn_loop_P: "turn_loop sink call spent b s = (r, b', s') \<Longrightarrow> P b s \<Longrightarrow> P b' s'"
proof (induction "length (queue b call)" arbitrary: spent b s rule: less_induct)
  case less
  show ?case
  proof (cases "spent < ob_quantum b \<and> queue b call \<noteq> []")
    case False
    with less.prems show ?thesis by (subst (asm) turn_loop.simps) (auto split: if_splits)
  next
    case True
    then obtain f rest where f: "queue b call = f # rest" by (cases "queue b call") auto
    obtain d t where d: "sink f s = (d, t)" by fastforce
    show ?thesis
    proof (cases d)
      case Rejected
      with less.prems True f d have "b' = b \<and> s' = t"
        by (subst (asm) turn_loop.simps) (simp add: Let_def)
      with less.prems(2) d Rejected show ?thesis by (simp add: rejected)
    next
      case Accepted
      with less.prems True f d have
        "turn_loop sink call (spent + int (length (og_Payload f))) (pop_frame call b) t = (r, b', s')"
        by (subst (asm) turn_loop.simps) (simp add: Let_def)
      moreover have "length (queue (pop_frame call b) call) < length (queue b call)"
        by (simp add: queue_simps f)
      ultimately show ?thesis
        using less.hyps accepted [OF less.prems(2) f] d Accepted by blast
    qed
  qed
qed

lemma drain_turn_P: "drain_turn sink call ts b s = (r, b', s') \<Longrightarrow> P b s \<Longrightarrow> P b' s'"
  by (auto simp: drain_turn_def split: prod.splits if_splits
      intro!: turns drop_empty elim!: turn_loop_P)

lemma drainFrames_P:
  assumes "drainFrames sink b s = Some (b', s')" and "P b s"
  shows "P b' s'"
proof -
  have "P b s \<longrightarrow> P (fst r) (snd r)" if "drainFrames sink b s = Some r" for b s r
  proof (rule drainFrames.raw_induct [where P = "\<lambda>sk b s r. sk = sink \<longrightarrow> P b s \<longrightarrow> P (fst r) (snd r)",
        OF _ that, THEN mp, OF _ refl])
    fix f sk b s r
    assume IH: "\<And>sk b s r. f sk b s = Some r \<Longrightarrow> sk = sink \<longrightarrow> P b s \<longrightarrow> P (fst r) (snd r)"
      and eq: "(if 0 < ob_total b
         then case ob_turns b of [] \<Rightarrow> Some (b, s)
            | call # turns \<Rightarrow> (case drain_turn sk call turns b s of (rejected, b, s) \<Rightarrow>
                if rejected then Some (b, s) else f sk b s)
         else Some (b, s)) = Some r"
    show "sk = sink \<longrightarrow> P b s \<longrightarrow> P (fst r) (snd r)"
      using eq by (auto split: if_splits list.splits prod.splits dest!: IH intro: drain_turn_P)
  qed
  then show ?thesis using assms by fastforce
qed

lemma credit_loop_P:
  "credit_loop sink cs b s = (r, b', s') \<Longrightarrow> P b s \<Longrightarrow> \<forall>c \<in> set cs. \<not> opensWithRequest c b \<Longrightarrow> P b' s'"
proof (induction cs arbitrary: b s)
  case (Cons c cs)
  have o: "opensWithRequest k (b\<lparr>ob_credits := m\<rparr>) = opensWithRequest k b" for k m
    by (simp add: opensWithRequest_def)
  show ?case
  proof (cases "fmlookup (ob_credits b) c")
    case None
    with Cons show ?thesis by simp
  next
    case (Some w)
    obtain d t where d: "sink (credit_frame c w) s = (d, t)" by fastforce
    show ?thesis
    proof (cases d)
      case Accepted
      with Cons.prems Some d have
        l: "credit_loop sink cs (b\<lparr>ob_credits := fmdrop c (ob_credits b)\<rparr>) t = (r, b', s')"
        and p: "P (b\<lparr>ob_credits := fmdrop c (ob_credits b)\<rparr>) t" by (simp_all add: credited)
      from Cons.IH [OF l p] Cons.prems(3) show ?thesis by (simp add: o)
    next
      case Rejected
      with Cons.prems Some d show ?thesis by (auto intro: rejected)
    qed
  qed
qed simp

lemma drainCredits_P: "drainCredits sink b s = (r, b', s') \<Longrightarrow> P b s \<Longrightarrow> P b' s'"
  unfolding drainCredits_def by (rule credit_loop_P) (auto simp: ready_credits_def)

lemma Drain_P:
  assumes "Outbox_Drain sink b s = Some (b', s')" and "P b s"
  shows "P b' s'"
  using assms
  by (auto simp: Outbox_Drain_def split: prod.splits if_splits option.splits
      dest!: drainCredits_P drainFrames_P)

end

subsection \<open>What a turn does\<close>

lemma turn_loop_effect:
  assumes "turn_loop sink call spent b s = (r, b', s')"
  shows "\<exists>n \<le> length (queue b call). queue b' = (queue b)(call := drop n (queue b call))
    \<and> b' = b\<lparr>ob_queues := ob_queues b', ob_total := ob_total b - int n\<rparr>
    \<and> (\<forall>k. k \<noteq> call \<longrightarrow> fmlookup (ob_queues b') k = fmlookup (ob_queues b) k)
    \<and> (r \<longrightarrow> n < length (queue b call))
    \<and> (\<not> r \<longrightarrow> spent < ob_quantum b \<longrightarrow> queue b call \<noteq> [] \<longrightarrow> 0 < n)"
  using assms
proof (induction "length (queue b call)" arbitrary: spent b s rule: less_induct)
  case less
  show ?case
  proof (cases "spent < ob_quantum b \<and> queue b call \<noteq> []")
    case False
    with less.prems have "b' = b" "\<not> r" by (subst (asm) turn_loop.simps; auto split: if_splits)+
    then show ?thesis using False by (intro exI [of _ 0]) auto
  next
    case True
    then obtain f rest where f: "queue b call = f # rest" by (cases "queue b call") auto
    obtain d t where d: "sink f s = (d, t)" by fastforce
    show ?thesis
    proof (cases d)
      case Rejected
      with less.prems True f d have "b' = b \<and> r"
        by (subst (asm) turn_loop.simps) (simp add: Let_def)
      then show ?thesis using f by (intro exI [of _ 0]) auto
    next
      case Accepted
      let ?p = "pop_frame call b"
      from Accepted less.prems True f d have
        l: "turn_loop sink call (spent + int (length (og_Payload f))) ?p t = (r, b', s')"
        by (subst (asm) turn_loop.simps) (simp add: Let_def)
      have "length (queue ?p call) < length (queue b call)" by (simp add: queue_simps f)
      from less.hyps [OF this l] obtain n where n: "n \<le> length (queue ?p call)"
        "queue b' = (queue ?p)(call := drop n (queue ?p call))"
        "b' = ?p\<lparr>ob_queues := ob_queues b', ob_total := ob_total ?p - int n\<rparr>"
        "\<forall>k. k \<noteq> call \<longrightarrow> fmlookup (ob_queues b') k = fmlookup (ob_queues ?p) k"
        "r \<longrightarrow> n < length (queue ?p call)" by blast
      have b': "b' = b\<lparr>ob_queues := ob_queues b', ob_total := ob_total b - int (Suc n)\<rparr>"
        using n(3) by (cases b; cases b') (simp add: pop_frame_def)
      show ?thesis
      proof (intro exI [of _ "Suc n"] conjI)
        show "b' = b\<lparr>ob_queues := ob_queues b', ob_total := ob_total b - int (Suc n)\<rparr>" by (rule b')
        show "queue b' = (queue b)(call := drop (Suc n) (queue b call))"
          using n(2) f by (simp add: queue_simps)
        show "\<forall>k. k \<noteq> call \<longrightarrow> fmlookup (ob_queues b') k = fmlookup (ob_queues b) k"
          using n(4) by (simp add: pop_frame_def)
      qed (use n(1,5) f in \<open>auto simp: queue_simps\<close>)
    qed
  qed
qed

text \<open>A whole turn from the front of the round keeps the invariant, takes a prefix of the
  call's queue and, with a positive quantum, at least one frame unless the sink rejects.\<close>

lemma drain_turn_effect:
  assumes turn: "drain_turn sink call ts b s = (r, b', s')"
    and inv: "outbox_inv b" and ts: "ob_turns b = call # ts"
  shows "outbox_inv b'" and "\<exists>n. queue b' = (queue b)(call := drop n (queue b call))"
    and "queued b' \<le> queued b" and "\<not> r \<Longrightarrow> 0 < ob_quantum b \<Longrightarrow> queued b' < queued b"
    and "ob_quantum b' = ob_quantum b" and "ob_credits b' = ob_credits b"
proof -
  obtain c where c: "turn_loop sink call 0 (b\<lparr>ob_turns := ts\<rparr>) s = (r, c, s')"
    and b': "b' = (if queue c call \<noteq> [] then c\<lparr>ob_turns := ob_turns c @ [call]\<rparr>
         else c\<lparr>ob_queues := fmdrop call (ob_queues c)\<rparr>)"
    using turn by (auto simp: drain_turn_def split: prod.splits)
  from turn_loop_effect [OF c] obtain n where n: "n \<le> length (queue b call)"
    "queue c = (queue b)(call := drop n (queue b call))"
    "c = b\<lparr>ob_turns := ts, ob_queues := ob_queues c, ob_total := ob_total b - int n\<rparr>"
    "\<forall>k. k \<noteq> call \<longrightarrow> fmlookup (ob_queues c) k = fmlookup (ob_queues b) k"
    "\<not> r \<longrightarrow> 0 < ob_quantum b \<longrightarrow> queue b call \<noteq> [] \<longrightarrow> 0 < n" by auto
  have q: "queue b' = (queue b)(call := drop n (queue b call))"
    using n(2) by (auto simp: b')
  then show "\<exists>n. queue b' = (queue b)(call := drop n (queue b call))" by blast
  have "queued b' + length (queue b call) = queued b + (length (queue b call) - n)"
    using queued_upd [OF q] by simp
  then have qd: "queued b' + n = queued b" using n(1) by simp
  then show "queued b' \<le> queued b" by simp
  have ne: "queue b call \<noteq> []" using inv ts by (auto simp: outbox_inv_def)
  then show "\<not> r \<Longrightarrow> 0 < ob_quantum b \<Longrightarrow> queued b' < queued b" using n(5) qd by simp
  have fields: "ob_turns c = ts" "ob_total c = ob_total b - int n" "ob_quantum c = ob_quantum b"
    "ob_credits c = ob_credits b" by (subst n(3), simp)+
  then show "ob_quantum b' = ob_quantum b" "ob_credits b' = ob_credits b" by (auto simp: b')
  have t: "ob_total b' = int (queued b')"
    using inv qd fields by (auto simp: b' outbox_inv_def)
  have turns': "ob_turns b' = (if drop n (queue b call) \<noteq> [] then ts @ [call] else ts)"
    using fields n(2) by (simp add: b')
  have "distinct (call # ts)" "set (call # ts) = {k. queue b k \<noteq> []}"
    using inv ts by (auto simp: outbox_inv_def)
  then have "distinct (ob_turns b')" "set (ob_turns b') = {k. queue b' k \<noteq> []}"
    unfolding turns' q by (auto simp: fun_upd_def)
  moreover have "fmlookup (ob_queues b') k \<noteq> Some []" for k
  proof (cases "k = call")
    case True
    show ?thesis
    proof (cases "queue c call = []")
      case False
      then show ?thesis using True by (auto simp: b' queue_def split: option.splits)
    next
      case True
      with \<open>k = call\<close> show ?thesis by (simp add: b')
    qed
  next
    case False
    then show ?thesis using n(4) inv by (auto simp: b' outbox_inv_def)
  qed
  ultimately show "outbox_inv b'" using t by (simp add: outbox_inv_def)
qed

subsection \<open>Termination, and the invariant across a drain\<close>

lemma turn_loop_accepting:
  assumes "\<forall>f t. fst (sink f t) = Accepted" and "turn_loop sink call spent b s = (r, b', s')"
  shows "\<not> r"
  using assms(2)
proof (induction "length (queue b call)" arbitrary: spent b s rule: less_induct)
  case less
  obtain d t where d: "sink (hd (queue b call)) s = (d, t)" by fastforce
  then have "d = Accepted" using assms(1) by (metis fst_conv)
  moreover have "queue b call \<noteq> [] \<Longrightarrow> length (queue (pop_frame call b) call) < length (queue b call)"
    by (simp add: queue_simps)
  ultimately show ?case
    using less.prems less.hyps d by (subst (asm) turn_loop.simps) (auto simp: Let_def split: if_splits)
qed

lemma drain_turn_accepting:
  "\<forall>f t. fst (sink f t) = Accepted \<Longrightarrow> drain_turn sink call ts b s = (r, b', s') \<Longrightarrow> \<not> r"
  using turn_loop_accepting [of sink call 0 "b\<lparr>ob_turns := ts\<rparr>" s]
  by (cases "turn_loop sink call 0 (b\<lparr>ob_turns := ts\<rparr>) s") (auto simp: drain_turn_def)

lemma drainFrames_step:
  "drainFrames sink b s =
    (if ob_total b > 0 then
       (case ob_turns b of
          [] \<Rightarrow> Some (b, s)
        | call # turns \<Rightarrow>
            (case drain_turn sink call turns b s of (rejected, b, s) \<Rightarrow>
               if rejected then Some (b, s) else drainFrames sink b s))
     else Some (b, s))"
  by (rule drainFrames.simps)

lemma drainFrames_returns:
  assumes "outbox_inv b" and "0 < ob_quantum b"
  obtains b' s' where "drainFrames sink b s = Some (b', s')" and "outbox_inv b'"
    and "ob_quantum b' = ob_quantum b" and "ob_credits b' = ob_credits b"
    and "(\<And>f t. fst (sink f t) = Accepted) \<Longrightarrow> queued b' = 0"
proof -
  have "\<exists>b' s'. drainFrames sink b s = Some (b', s') \<and> outbox_inv b' \<and> ob_quantum b' = ob_quantum b
      \<and> ob_credits b' = ob_credits b \<and> ((\<forall>f t. fst (sink f t) = Accepted) \<longrightarrow> queued b' = 0)"
    using assms
  proof (induction "queued b" arbitrary: b s rule: less_induct)
    case less
    show ?case
    proof (cases "ob_turns b")
      case Nil
      then have "\<forall>k. queue b k = []" using less.prems by (auto simp: outbox_inv_def)
      then show ?thesis using Nil less.prems by (subst drainFrames_step) (simp add: queued_0_iff)
    next
      case (Cons call ts)
      obtain r c t where turn: "drain_turn sink call ts b s = (r, c, t)"
        by (cases "drain_turn sink call ts b s") auto
      note eff = drain_turn_effect [OF turn less.prems(1) Cons]
      have "queue b call \<noteq> []" using less.prems(1) Cons by (auto simp: outbox_inv_def)
      then have "0 < queued b" using queued_0_iff [of b] by blast
      then have tot: "0 < ob_total b" using less.prems(1) by (simp add: outbox_inv_def)
      show ?thesis
      proof (cases r)
        case True
        then have "\<not> (\<forall>f t. fst (sink f t) = Accepted)"
          using drain_turn_accepting [OF _ turn] by blast
        with True turn eff tot Cons show ?thesis by (subst drainFrames_step) auto
      next
        case False
        then have "queued c < queued b" using eff(4) less.prems(2) by simp
        from less.hyps [OF this eff(1)] eff(5,6) less.prems(2) False turn tot Cons
        show ?thesis by (subst drainFrames_step) auto
      qed
    qed
  qed
  then show ?thesis using that by blast
qed

lemma credit_loop_effect:
  "credit_loop sink cs b s = (r, b', s') \<Longrightarrow> \<exists>m. b' = b\<lparr>ob_credits := m\<rparr>"
proof (induction cs arbitrary: b s)
  case Nil
  then show ?case by (intro exI [of _ "ob_credits b"]) simp
next
  case (Cons c cs)
  show ?case
  proof (cases "fmlookup (ob_credits b) c")
    case None
    with Cons show ?thesis by simp
  next
    case (Some w)
    obtain d t where d: "sink (credit_frame c w) s = (d, t)" by fastforce
    show ?thesis
    proof (cases d)
      case Accepted
      with Cons.prems Some d have
        "credit_loop sink cs (b\<lparr>ob_credits := fmdrop c (ob_credits b)\<rparr>) t = (r, b', s')" by simp
      from Cons.IH [OF this] show ?thesis by simp
    next
      case Rejected
      with Cons.prems Some d show ?thesis by (intro exI [of _ "ob_credits b"]) simp
    qed
  qed
qed

lemma outbox_inv_credits [simp]: "outbox_inv (b\<lparr>ob_credits := m\<rparr>) = outbox_inv b"
  by (simp add: outbox_inv_def queued_def)

lemma Drain_returns:
  assumes "outbox_inv b" and "0 < ob_quantum b"
  obtains b' s' where "Outbox_Drain sink b s = Some (b', s')" and "outbox_inv b'"
    and "ob_quantum b' = ob_quantum b"
proof -
  obtain ok b1 s1 where 1: "drainCredits sink b s = (ok, b1, s1)"
    by (cases "drainCredits sink b s") auto
  from credit_loop_effect [OF this [unfolded drainCredits_def]] obtain m where
    "b1 = b\<lparr>ob_credits := m\<rparr>" by blast
  then have i1: "outbox_inv b1" "ob_quantum b1 = ob_quantum b" using assms(1) by simp_all
  with assms(2) obtain b2 s2 where 2: "drainFrames sink b1 s1 = Some (b2, s2)" "outbox_inv b2"
    "ob_quantum b2 = ob_quantum b" using drainFrames_returns [of b1 sink s1] by metis
  obtain ok3 b3 s3 where 3: "drainCredits sink b2 s2 = (ok3, b3, s3)"
    by (cases "drainCredits sink b2 s2") auto
  from credit_loop_effect [OF this [unfolded drainCredits_def]] obtain m where
    "b3 = b2\<lparr>ob_credits := m\<rparr>" by blast
  then have i3: "outbox_inv b3" "ob_quantum b3 = ob_quantum b" using 2 by simp_all
  show ?thesis
  proof (cases ok)
    case True
    with 1 2 3 i3 show ?thesis using that [of b3 s3] by (simp add: Outbox_Drain_def)
  next
    case False
    with 1 i1 show ?thesis using that [of b1 s1] by (simp add: Outbox_Drain_def)
  qed
qed

subsection \<open>Order: a drain hands over a prefix of every call's queue\<close>

text \<open>A recording sink: it accepts or rejects by an arbitrary rule and keeps what it accepted.\<close>

definition log_sink :: "(Outgoing \<Rightarrow> Outgoing list \<Rightarrow> bool) \<Rightarrow> Outgoing list Sink" where
  "log_sink accept f log = (if accept f log then (Accepted, log @ [f]) else (Rejected, log))"

text \<open>A queued frame of a call carries the call's id and is no CREDIT frame.\<close>

definition frame_of :: "u32 \<Rightarrow> Outgoing \<Rightarrow> bool" where
  "frame_of call f \<longleftrightarrow> ReadCallID (og_Payload f) = call \<and> KindBits (og_Payload f ! 0) \<noteq> KindCredit"

definition tagged :: "Outbox \<Rightarrow> bool" where
  "tagged b \<longleftrightarrow> (\<forall>k. \<forall>f \<in> set (queue b k). frame_of k f)"

definition handed_over :: "Outbox \<Rightarrow> Outbox \<Rightarrow> Outgoing list \<Rightarrow> bool" where
  "handed_over b0 b log \<longleftrightarrow>
    (\<forall>k. filter (frame_of k) log @ queue b k = queue b0 k) \<and> tagged b"

lemma credit_frame_not_frame_of [simp]: "\<not> frame_of k (credit_frame c w)"
  by (simp add: frame_of_def credit_frame_def KindBits_Encode)

lemma frame_of_unique: "frame_of k f \<Longrightarrow> frame_of j f \<Longrightarrow> k = j"
  by (simp add: frame_of_def)

interpretation handover: drain_rule "log_sink accept" "handed_over b0" for accept b0
proof unfold_locales
  fix b s call f rest s'
  assume h: "handed_over b0 b s" and q: "queue b call = f # rest"
    and a: "log_sink accept f s = (Accepted, s')"
  have s': "s' = s @ [f]" using a by (simp add: log_sink_def split: if_splits)
  have f: "frame_of call f" using h q by (auto simp: handed_over_def tagged_def)
  have "filter (frame_of k) s' @ queue (pop_frame call b) k = queue b0 k" for k
  proof (cases "k = call")
    case True
    have "filter (frame_of call) s @ queue b call = queue b0 call"
      using h by (simp add: handed_over_def)
    then show ?thesis using True f q by (simp add: s' queue_pop)
  next
    case False
    then have "\<not> frame_of k f" using frame_of_unique [OF f] by blast
    moreover have "filter (frame_of k) s @ queue b k = queue b0 k"
      using h by (simp add: handed_over_def)
    ultimately show ?thesis using False by (simp add: s' queue_pop)
  qed
  moreover have "tagged b" using h by (simp add: handed_over_def)
  then have "tagged (pop_frame call b)"
    unfolding tagged_def queue_pop by (auto simp: q list.set_sel)
  ultimately show "handed_over b0 (pop_frame call b) s'" by (simp add: handed_over_def)
next
  fix b s f s'
  assume "handed_over b0 b s" and "log_sink accept f s = (Rejected, s')"
  then show "handed_over b0 b s'" by (simp add: log_sink_def split: if_splits)
next
  fix b s call w s'
  assume h: "handed_over b0 b s" and "log_sink accept (credit_frame call w) s = (Accepted, s')"
  then have "s' = s @ [credit_frame call w]" by (simp add: log_sink_def split: if_splits)
  with h show "handed_over b0 (b\<lparr>ob_credits := fmdrop call (ob_credits b)\<rparr>) s'"
    by (simp add: handed_over_def tagged_def)
next
  fix b s t
  assume "handed_over b0 b s"
  then show "handed_over b0 (b\<lparr>ob_turns := t\<rparr>) s" by (simp add: handed_over_def tagged_def)
next
  fix b s call
  assume h: "handed_over b0 b s" and "queue b call = []"
  then have "queue (b\<lparr>ob_queues := fmdrop call (ob_queues b)\<rparr>) = queue b"
    by (simp add: fun_upd_idem)
  with h show "handed_over b0 (b\<lparr>ob_queues := fmdrop call (ob_queues b)\<rparr>) s"
    unfolding handed_over_def tagged_def by presburger
qed

lemma Drain_handed_over:
  assumes "Outbox_Drain (log_sink accept) b [] = Some (b', log)" and "tagged b"
  shows "filter (frame_of k) log @ queue b' k = queue b k"
  using handover.Drain_P [OF assms(1), of b] assms(2) by (simp add: handed_over_def)

text \<open>If no credit of a call waits, then all that a drain hands over with the call's id, CREDIT frames
  included, comes from its queue.\<close>

lemma ReadCallID_credit_frame [simp]: "ReadCallID (og_Payload (credit_frame c w)) = c"
  by (simp add: credit_frame_def codec_simps)

interpretation addressed: drain_rule "log_sink accept"
  "\<lambda>b log. handed_over b0 b log \<and> fmlookup (ob_credits b) k = None
    \<and> filter (\<lambda>f. ReadCallID (og_Payload f) = k) log = filter (frame_of k) log" for accept b0 k
proof unfold_locales
  fix b log call f rest log'
  assume h: "handed_over b0 b log \<and> fmlookup (ob_credits b) k = None
      \<and> filter (\<lambda>f. ReadCallID (og_Payload f) = k) log = filter (frame_of k) log"
    and q: "queue b call = f # rest" and a: "log_sink accept f log = (Accepted, log')"
  have "frame_of call f" using h q by (auto simp: handed_over_def tagged_def)
  moreover have "log' = log @ [f]" using a by (simp add: log_sink_def split: if_splits)
  ultimately show "handed_over b0 (pop_frame call b) log' \<and> fmlookup (ob_credits (pop_frame call b)) k = None
      \<and> filter (\<lambda>f. ReadCallID (og_Payload f) = k) log' = filter (frame_of k) log'"
    using h handover.accepted [OF conjunct1 [OF h] q a] by (auto simp: frame_of_def queue_simps)
next
  fix b log f log'
  assume h: "handed_over b0 b log \<and> fmlookup (ob_credits b) k = None
      \<and> filter (\<lambda>f. ReadCallID (og_Payload f) = k) log = filter (frame_of k) log"
    and "log_sink accept f log = (Rejected, log')"
  then show "handed_over b0 b log' \<and> fmlookup (ob_credits b) k = None
      \<and> filter (\<lambda>f. ReadCallID (og_Payload f) = k) log' = filter (frame_of k) log'"
    by (simp add: log_sink_def split: if_splits)
next
  fix b log call w log'
  assume h: "handed_over b0 b log \<and> fmlookup (ob_credits b) k = None
      \<and> filter (\<lambda>f. ReadCallID (og_Payload f) = k) log = filter (frame_of k) log"
    and c: "fmlookup (ob_credits b) call = Some w" "\<not> opensWithRequest call b"
      "log_sink accept (credit_frame call w) log = (Accepted, log')"
  have "call \<noteq> k" using h c(1) by auto
  moreover have "log' = log @ [credit_frame call w]" using c(3) by (simp add: log_sink_def split: if_splits)
  ultimately show "handed_over b0 (b\<lparr>ob_credits := fmdrop call (ob_credits b)\<rparr>) log'
      \<and> fmlookup (ob_credits (b\<lparr>ob_credits := fmdrop call (ob_credits b)\<rparr>)) k = None
      \<and> filter (\<lambda>f. ReadCallID (og_Payload f) = k) log' = filter (frame_of k) log'"
    using h handover.credited [OF conjunct1 [OF h] c] by simp
qed (auto intro: handover.turns handover.drop_empty)

lemma Drain_addressed:
  assumes "Outbox_Drain (log_sink accept) b [] = Some (b', log)" and "tagged b"
    and "fmlookup (ob_credits b) k = None"
  shows "filter (\<lambda>f. ReadCallID (og_Payload f) = k) log @ queue b' k = queue b k"
  using addressed.Drain_P [OF assms(1), of b k] assms(2,3) by (simp add: handed_over_def)

subsection \<open>An accepting sink empties the outbox\<close>

lemma drainFrames_accepting:
  assumes "outbox_inv b" and "0 < ob_quantum b" and "\<And>f t. fst (sink f t) = Accepted"
  obtains b' s' where "drainFrames sink b s = Some (b', s')" and "outbox_inv b'" and "queued b' = 0"
    and "ob_credits b' = ob_credits b"
  using drainFrames_returns [OF assms(1,2), of sink s] assms(3) by metis

lemma credit_loop_accepting:
  assumes "\<forall>f t. fst (sink f t) = Accepted"
  shows "\<exists>s'. credit_loop sink cs b s
    = (True, b\<lparr>ob_credits := fmdrop_set (set cs) (ob_credits b)\<rparr>, s')"
proof (induction cs arbitrary: b s)
  case Nil
  then show ?case by simp
next
  case (Cons c cs)
  show ?case
  proof (cases "fmlookup (ob_credits b) c")
    case None
    then have "fmdrop_set (set (c # cs)) (ob_credits b) = fmdrop_set (set cs) (ob_credits b)"
      by (intro fmap_ext) auto
    with None Cons show ?thesis by simp
  next
    case (Some w)
    obtain t where d: "sink (credit_frame c w) s = (Accepted, t)"
      using assms by (metis prod.collapse)
    have "fmdrop_set (set cs) (fmdrop c (ob_credits b)) = fmdrop_set (set (c # cs)) (ob_credits b)"
      by (intro fmap_ext) auto
    with Some d Cons [of "b\<lparr>ob_credits := fmdrop c (ob_credits b)\<rparr>" t] show ?thesis by simp
  qed
qed

lemma Drain_accepting:
  assumes "outbox_inv b" and "0 < ob_quantum b" and "\<forall>f t. fst (sink f t) = Accepted"
  shows "\<exists>b' s'. Outbox_Drain sink b s = Some (b', s') \<and> Outbox_Empty b'"
proof -
  obtain s1 where 1: "drainCredits sink b s
      = (True, b\<lparr>ob_credits := fmdrop_set (set (ready_credits b)) (ob_credits b)\<rparr>, s1)"
    unfolding drainCredits_def using credit_loop_accepting [OF assms(3)] by blast
  let ?b1 = "b\<lparr>ob_credits := fmdrop_set (set (ready_credits b)) (ob_credits b)\<rparr>"
  obtain b2 s2 where 2: "drainFrames sink ?b1 s1 = Some (b2, s2)" "outbox_inv b2" "queued b2 = 0"
    using drainFrames_accepting [of ?b1 sink s1 thesis] assms by simp
  have "\<not> opensWithRequest k b2" for k
    using 2(3) by (simp add: queued_0_iff opensWithRequest_def)
  then have ready: "set (ready_credits b2) = fset (fmdom (ob_credits b2))"
    by (auto simp: ready_credits_def)
  obtain s3 where 3: "drainCredits sink b2 s2
      = (True, b2\<lparr>ob_credits := fmdrop_set (set (ready_credits b2)) (ob_credits b2)\<rparr>, s3)"
    unfolding drainCredits_def using credit_loop_accepting [OF assms(3)] by blast
  have "fmdrop_set (set (ready_credits b2)) (ob_credits b2) = fmempty"
    unfolding ready by (intro fmap_ext) (auto simp: fmdom_notD)
  then show ?thesis using 1 2 3
    by (simp add: Outbox_Drain_def Outbox_Empty_def outbox_inv_def)
qed

subsection \<open>A quantum that is not positive\<close>

text \<open>With a quantum of zero or less no frame is ever offered: the outer loop rotates the turns
  for ever.  \<open>Config.normalized\<close> keeps such a quantum away from the core's outbox.\<close>

lemma drainFrames_diverges:
  assumes "ob_quantum b \<le> 0" and "outbox_inv b" and "0 < queued b"
  shows "drainFrames sink b s = None"
proof (rule ccontr)
  assume "drainFrames sink b s \<noteq> None"
  then obtain r where r: "drainFrames sink b s = Some r" by auto
  have "\<not> (ob_quantum b \<le> 0 \<and> outbox_inv b \<and> 0 < queued b)"
  proof (rule drainFrames.raw_induct [where P = "\<lambda>sk b s r. \<not> (ob_quantum b \<le> 0 \<and> outbox_inv b \<and> 0 < queued b)",
        OF _ r])
    fix f sk b s r
    assume IH: "\<And>sk b s r. f sk b s = Some r \<Longrightarrow> \<not> (ob_quantum b \<le> 0 \<and> outbox_inv b \<and> 0 < queued b)"
      and eq: "(if 0 < ob_total b
         then case ob_turns b of [] \<Rightarrow> Some (b, s)
            | call # turns \<Rightarrow> (case drain_turn sk call turns b s of (rejected, b, s) \<Rightarrow>
                if rejected then Some (b, s) else f sk b s)
         else Some (b, s)) = Some r"
    show "\<not> (ob_quantum b \<le> 0 \<and> outbox_inv b \<and> 0 < queued b)"
    proof
      assume a: "ob_quantum b \<le> 0 \<and> outbox_inv b \<and> 0 < queued b"
      then obtain call ts where ts: "ob_turns b = call # ts"
        using queued_0_iff [of b] by (cases "ob_turns b") (auto simp: outbox_inv_def)
      with a have q: "queue b call \<noteq> []" by (auto simp: outbox_inv_def)
      then have t: "drain_turn sk call ts b s = (False, b\<lparr>ob_turns := ts @ [call]\<rparr>, s)"
        using a by (simp add: drain_turn_def turn_loop.simps [of sk call 0 "b\<lparr>ob_turns := ts\<rparr>"])
      have "outbox_inv (b\<lparr>ob_turns := ts @ [call]\<rparr>)"
        using a drain_turn_effect(1) [OF t _ ts] by blast
      moreover have "queued (b\<lparr>ob_turns := ts @ [call]\<rparr>) = queued b" by (simp add: queued_def)
      ultimately show False
        using eq a t ts IH [of sk "b\<lparr>ob_turns := ts @ [call]\<rparr>" s r] by (simp add: outbox_inv_def)
    qed
  qed
  with assms show False by blast
qed

end
