(* ===== verification/Mailbox.thy ===== *)
theory Mailbox
  imports Outbox
begin

text \<open>
  The specification of the outbox: a mailbox keeps, for each call, the frames that wait in order
  and at most one credit.  It has no turns, no quantum, no running total and no bookkeeping of
  empty queues.  Every operation of the outbox is an operation of the mailbox under the
  abstraction \<open>abs_outbox\<close>, and a drain, whatever the sink, is a run of deliveries: the oldest
  frame of some call, or the credit of a call whose REQUEST does not wait.
\<close>

subsection \<open>The mailbox\<close>

record Mailbox =
  mb_frames :: "CallID \<Rightarrow> Outgoing list"
  mb_credit :: "CallID \<Rightarrow> (u32 \<times> nat) option"
  mb_perCall :: int
  mb_total :: int

definition held :: "Mailbox \<Rightarrow> int" where
  "held m = int (\<Sum>k \<in> UNIV. length (mb_frames m k))"

definition post :: "CallID \<Rightarrow> Outgoing \<Rightarrow> Mailbox \<Rightarrow> Mailbox" where
  "post k f m = m\<lparr>mb_frames := (mb_frames m)(k := mb_frames m k @ [f])\<rparr>"

definition offer :: "CallID \<Rightarrow> Outgoing \<Rightarrow> Mailbox \<Rightarrow> bool \<times> Mailbox" where
  "offer k f m =
    (if held m < mb_total m \<and> int (length (mb_frames m k)) < mb_perCall m then (True, post k f m)
     else (False, m))"

definition forget :: "CallID \<Rightarrow> Mailbox \<Rightarrow> Mailbox" where
  "forget k m = m\<lparr>mb_frames := (mb_frames m)(k := []), mb_credit := (mb_credit m)(k := None)\<rparr>"

definition forget_all :: "Mailbox \<Rightarrow> Mailbox" where
  "forget_all m = m\<lparr>mb_frames := \<lambda>_. [], mb_credit := \<lambda>_. None\<rparr>"

definition add_credit :: "CallID \<Rightarrow> u32 \<Rightarrow> nat \<Rightarrow> Mailbox \<Rightarrow> Mailbox" where
  "add_credit k messageID n m =
    m\<lparr>mb_credit := (mb_credit m)(k \<mapsto> (messageID,
       min (case mb_credit m k of None \<Rightarrow> n | Some (_, old) \<Rightarrow> old + n) (2 ^ 32 - 1)))\<rparr>"

definition waits_with_request :: "CallID \<Rightarrow> Mailbox \<Rightarrow> bool" where
  "waits_with_request k m \<longleftrightarrow> (case mb_frames m k of [] \<Rightarrow> False
     | f # _ \<Rightarrow> og_Payload f \<noteq> [] \<and> KindBits (og_Payload f ! 0) = KindRequest)"

definition credit_message :: "CallID \<Rightarrow> u32 \<Rightarrow> nat \<Rightarrow> Outgoing" where
  "credit_message k messageID n =
    \<lparr>og_MessageID = messageID, og_Payload = Encode \<lparr>hdr_Kind = KindCredit, hdr_Call = k,
       hdr_Compressed = False, hdr_HasCtx = False\<rparr> [] (PutUint32 (word_of_nat n))\<rparr>"

text \<open>The runs of deliveries, with what was delivered.\<close>

inductive delivers :: "Mailbox \<Rightarrow> Outgoing list \<Rightarrow> Mailbox \<Rightarrow> bool" for m where
  rest: "delivers m [] m"
| frame: "delivers m log n \<Longrightarrow> mb_frames n k = f # waiting
    \<Longrightarrow> delivers m (log @ [f]) (n\<lparr>mb_frames := (mb_frames n)(k := waiting)\<rparr>)"
| credit: "delivers m log n \<Longrightarrow> mb_credit n k = Some (messageID, items) \<Longrightarrow> \<not> waits_with_request k n
    \<Longrightarrow> delivers m (log @ [credit_message k messageID items])
          (n\<lparr>mb_credit := (mb_credit n)(k := None)\<rparr>)"

subsection \<open>The abstraction\<close>

definition abs_outbox :: "Outbox \<Rightarrow> Mailbox" where
  "abs_outbox b = \<lparr>mb_frames = queue b,
     mb_credit = (\<lambda>k. map_option (\<lambda>w. (wc_messageID w, unat (wc_items w))) (fmlookup (ob_credits b) k)),
     mb_perCall = ob_maxPerCall b, mb_total = ob_maxTotal b\<rparr>"

lemma abs_frames [simp]: "mb_frames (abs_outbox b) = queue b"
  by (simp add: abs_outbox_def)

lemma abs_turns [simp]:
  "abs_outbox (b\<lparr>ob_turns := t\<rparr>) = abs_outbox b" "abs_outbox (b\<lparr>ob_total := n\<rparr>) = abs_outbox b"
  by (simp_all add: abs_outbox_def)

lemma held_abs: "outbox_inv b \<Longrightarrow> held (abs_outbox b) = ob_total b"
  by (simp add: held_def outbox_inv_def queued_def)

lemma abs_append: "abs_outbox (Outbox_append k f b) = post k f (abs_outbox b)"
  by (simp add: abs_outbox_def post_def queue_simps)

lemma abs_PushTerminal: "abs_outbox (PushTerminal k f b) = post k f (abs_outbox b)"
  by (simp add: PushTerminal_def abs_append)

lemma abs_Push:
  assumes "outbox_inv b"
  shows "map_prod id abs_outbox (Push k f b) = offer k f (abs_outbox b)"
  by (simp add: Push_def offer_def held_abs [OF assms] FullFor_def QueuedFor_def abs_append)
    (simp add: abs_outbox_def)

lemma abs_Discard: "abs_outbox (Discard k b) = forget k (abs_outbox b)"
  by (simp add: abs_outbox_def forget_def queue_simps fun_eq_iff)

lemma abs_Clear: "abs_outbox (Clear b) = forget_all (abs_outbox b)"
  by (simp add: abs_outbox_def forget_all_def queue_simps) (simp add: Clear_def)

lemma abs_Grant: "abs_outbox (Outbox_Grant k m n b) = add_credit k m (unat n) (abs_outbox b)"
  by (auto simp: abs_outbox_def add_credit_def queue_simps fun_eq_iff)
    (auto simp: Outbox_Grant_def Let_def unat_saturatingAdd min_def unsigned_less split: option.splits)

lemma opens_abs: "opensWithRequest k b = waits_with_request k (abs_outbox b)"
  by (simp add: opensWithRequest_def waits_with_request_def split: list.splits)

lemma credit_frame_abs: "credit_frame k w = credit_message k (wc_messageID w) (unat (wc_items w))"
  by (simp add: credit_frame_def credit_message_def Bytes_def codec_simps u32_field_def)

subsection \<open>A drain is a run of deliveries\<close>

interpretation deliveries: drain_rule "log_sink accept" "\<lambda>b log. delivers m log (abs_outbox b)"
  for accept m
proof unfold_locales
  fix b log k f rest log'
  assume d: "delivers m log (abs_outbox b)" and q: "queue b k = f # rest"
    and "log_sink accept f log = (Accepted, log')"
  then have "log' = log @ [f]" by (simp add: log_sink_def split: if_splits)
  moreover have "abs_outbox (pop_frame k b)
      = (abs_outbox b)\<lparr>mb_frames := (mb_frames (abs_outbox b))(k := rest)\<rparr>"
    by (simp add: abs_outbox_def queue_simps q)
  ultimately show "delivers m log' (abs_outbox (pop_frame k b))"
    using delivers.frame [OF d, of k f rest] q by simp
next
  fix b log k w log'
  assume d: "delivers m log (abs_outbox b)" and w: "fmlookup (ob_credits b) k = Some w"
    and o: "\<not> opensWithRequest k b" and "log_sink accept (credit_frame k w) log = (Accepted, log')"
  then have "log' = log @ [credit_frame k w]" by (simp add: log_sink_def split: if_splits)
  moreover have "abs_outbox (b\<lparr>ob_credits := fmdrop k (ob_credits b)\<rparr>)
      = (abs_outbox b)\<lparr>mb_credit := (mb_credit (abs_outbox b))(k := None)\<rparr>"
    by (simp add: abs_outbox_def fun_eq_iff)
  moreover have "mb_credit (abs_outbox b) k = Some (wc_messageID w, unat (wc_items w))"
    by (simp add: abs_outbox_def w)
  ultimately show "delivers m log' (abs_outbox (b\<lparr>ob_credits := fmdrop k (ob_credits b)\<rparr>))"
    using delivers.credit [OF d, of k] o by (simp add: credit_frame_abs opens_abs)
next
  fix b log k
  assume "delivers m log (abs_outbox b)" and "queue b k = []"
  moreover have "abs_outbox (b\<lparr>ob_queues := fmdrop k (ob_queues b)\<rparr>) = abs_outbox b"
    using \<open>queue b k = []\<close> by (simp add: abs_outbox_def fun_upd_idem)
  ultimately show "delivers m log (abs_outbox (b\<lparr>ob_queues := fmdrop k (ob_queues b)\<rparr>))" by simp
qed (auto simp: log_sink_def split: if_splits)

lemma Drain_delivers:
  "Outbox_Drain (log_sink accept) b [] = Some (b', log) \<Longrightarrow> delivers (abs_outbox b) log (abs_outbox b')"
  by (rule deliveries.Drain_P) (auto intro: delivers.rest)

subsection \<open>A turn of the scheduler\<close>

definition weight :: "Outgoing list \<Rightarrow> int" where
  "weight fs = int (sum_list (map (\<lambda>f. length (og_Payload f)) fs))"

text \<open>A turn hands over frames of one call until they weigh the quantum: the last of them may exceed
  it, the ones before may not, and it stops early only if the queue is empty or the sink rejects.\<close>

lemma turn_loop_quantum:
  assumes "turn_loop (log_sink accept) k spent b log = (rejected, b', log')"
  shows "\<exists>fs. log' = log @ fs \<and> queue b k = fs @ queue b' k
    \<and> (fs \<noteq> [] \<longrightarrow> spent + weight (butlast fs) < ob_quantum b)
    \<and> (\<not> rejected \<longrightarrow> queue b' k \<noteq> [] \<longrightarrow> ob_quantum b \<le> spent + weight fs)"
  using assms
proof (induction "length (queue b k)" arbitrary: spent b log rule: less_induct)
  case less
  show ?case
  proof (cases "spent < ob_quantum b \<and> queue b k \<noteq> []")
    case False
    with less.prems show ?thesis
      by (subst (asm) turn_loop.simps) (auto simp: weight_def split: if_splits intro!: exI [of _ "[]"])
  next
    case True
    then obtain f rest where f: "queue b k = f # rest" by (cases "queue b k") auto
    show ?thesis
    proof (cases "accept f log")
      case False
      with less.prems True f show ?thesis
        by (subst (asm) turn_loop.simps) (simp add: Let_def log_sink_def)
    next
      case accepted: True
      let ?p = "pop_frame k b"
      from accepted less.prems True f have
        l: "turn_loop (log_sink accept) k (spent + int (length (og_Payload f))) ?p (log @ [f])
          = (rejected, b', log')"
        by (subst (asm) turn_loop.simps) (simp add: Let_def log_sink_def)
      have "length (queue ?p k) < length (queue b k)" by (simp add: queue_simps f)
      from less.hyps [OF this l] obtain fs where fs: "log' = (log @ [f]) @ fs" "queue ?p k = fs @ queue b' k"
        "fs \<noteq> [] \<longrightarrow> spent + int (length (og_Payload f)) + weight (butlast fs) < ob_quantum ?p"
        "\<not> rejected \<longrightarrow> queue b' k \<noteq> [] \<longrightarrow> ob_quantum ?p \<le> spent + int (length (og_Payload f)) + weight fs"
        by blast
      show ?thesis
      proof (intro exI [of _ "f # fs"] conjI)
        show "queue b k = (f # fs) @ queue b' k" using fs(2) f by (simp add: queue_simps)
        show "f # fs \<noteq> [] \<longrightarrow> spent + weight (butlast (f # fs)) < ob_quantum b"
          using True fs(3) by (auto simp: weight_def queue_simps)
        show "\<not> rejected \<longrightarrow> queue b' k \<noteq> [] \<longrightarrow> ob_quantum b \<le> spent + weight (f # fs)"
          using fs(4) by (auto simp: weight_def queue_simps)
      qed (use fs(1) in simp)
    qed
  qed
qed

text \<open>The whole turn: the call leaves the front of the round and joins its end if frames are left.\<close>

lemma drain_turn_fair:
  assumes "drain_turn (log_sink accept) k ts b log = (rejected, b', log')"
  shows "\<exists>fs. log' = log @ fs \<and> queue b k = fs @ queue b' k
    \<and> (\<forall>j. j \<noteq> k \<longrightarrow> queue b' j = queue b j)
    \<and> (fs \<noteq> [] \<longrightarrow> weight (butlast fs) < ob_quantum b)
    \<and> (\<not> rejected \<longrightarrow> queue b' k \<noteq> [] \<longrightarrow> ob_quantum b \<le> weight fs)
    \<and> ob_turns b' = (if queue b' k \<noteq> [] then ts @ [k] else ts)"
proof -
  obtain c where c: "turn_loop (log_sink accept) k 0 (b\<lparr>ob_turns := ts\<rparr>) log = (rejected, c, log')"
    and b': "b' = (if queue c k \<noteq> [] then c\<lparr>ob_turns := ob_turns c @ [k]\<rparr>
         else c\<lparr>ob_queues := fmdrop k (ob_queues c)\<rparr>)"
    using assms by (auto simp: drain_turn_def split: prod.splits)
  have q: "queue b' = queue c" by (simp add: b' fun_upd_idem)
  obtain n where n: "queue c = (queue b)(k := drop n (queue b k))"
    "c = b\<lparr>ob_turns := ts, ob_queues := ob_queues c, ob_total := ob_total b - int n\<rparr>"
    using turn_loop_effect [OF c] by auto
  have t: "ob_turns c = ts" by (subst n(2)) simp
  from turn_loop_quantum [OF c] obtain fs where "log' = log @ fs" "queue b k = fs @ queue c k"
    "fs \<noteq> [] \<longrightarrow> weight (butlast fs) < ob_quantum b"
    "\<not> rejected \<longrightarrow> queue c k \<noteq> [] \<longrightarrow> ob_quantum b \<le> weight fs" by auto
  then show ?thesis unfolding q using n(1) t by (intro exI [of _ fs]) (auto simp: b')
qed

end
