(* ===== verification/Identity.thy ===== *)
theory Identity
  imports Prelude
begin

text \<open>
  Identities (\<open>identity.go\<close>): a principal and its permissions, kept sorted and without
  duplicates so that a look-up is a binary search.  \<open>slices.Sort\<close> of strings is HOL's
  \<open>sort\<close> in the byte order, \<open>slices.Compact\<close> is \<open>remdups_adj\<close>, and \<open>slices.BinarySearch\<close> is
  the loop of the library.  The locale \<open>permission_index\<close> is what authorization relies on:
  on a list in index order the look-up decides membership.
\<close>

record Identity =
  id_Principal :: string
  id_Permissions :: "string list"

definition NewIdentity :: "string \<Rightarrow> string list \<Rightarrow> Identity" where
  "NewIdentity name permissions =
    \<lparr>id_Principal = name, id_Permissions = remdups_adj (sort permissions)\<rparr>"

text \<open>\<open>slices.BinarySearch\<close>: the least position whose element is not below the target.\<close>

function search_loop :: "'a::linorder list \<Rightarrow> 'a \<Rightarrow> nat \<Rightarrow> nat \<Rightarrow> nat" where
  "search_loop xs target i j =
    (if i < j then
       let h = (i + j) div 2 in
       if xs ! h < target then search_loop xs target (h + 1) j else search_loop xs target i h
     else i)"
  by pat_completeness auto
termination
  by (relation "measure (\<lambda>(xs, t, i, j). j - i)") auto

declare search_loop.simps [simp del]

definition BinarySearch :: "'a::linorder list \<Rightarrow> 'a \<Rightarrow> nat \<times> bool" where
  "BinarySearch xs target =
    (let i = search_loop xs target 0 (length xs) in (i, i < length xs \<and> xs ! i = target))"

definition Identity_Permits :: "Identity \<Rightarrow> string \<Rightarrow> bool" where
  "Identity_Permits i permission = snd (BinarySearch (id_Permissions i) permission)"

definition NarrowedBy :: "Identity \<Rightarrow> Identity \<Rightarrow> string list" where
  "NarrowedBy i other = filter (\<lambda>permission. Identity_Permits other permission) (id_Permissions i)"

definition Identity_String :: "Identity \<Rightarrow> string" where
  "Identity_String i = id_Principal i"

subsection \<open>The search\<close>

lemma search_loop_inv:
  assumes "sorted xs" and "i \<le> j" and "j \<le> length xs"
    and "\<forall>k < i. xs ! k < t" and "\<forall>k. j \<le> k \<longrightarrow> k < length xs \<longrightarrow> t \<le> xs ! k"
  shows "search_loop xs t i j \<le> length xs \<and> (\<forall>k < search_loop xs t i j. xs ! k < t)
    \<and> (\<forall>k. search_loop xs t i j \<le> k \<longrightarrow> k < length xs \<longrightarrow> t \<le> xs ! k)"
  using assms
proof (induction xs t i j rule: search_loop.induct)
  case (1 xs t i j)
  show ?case
  proof (cases "i < j")
    case False
    then have "search_loop xs t i j = i" by (subst search_loop.simps) simp
    with False "1.prems" show ?thesis by simp
  next
    case True
    define h where "h = (i + j) div 2"
    have h: "i \<le> h" "h < j" using True by (auto simp: h_def)
    show ?thesis
    proof (cases "xs ! h < t")
      case less: True
      have "\<forall>k < h + 1. xs ! k < t"
      proof (intro allI impI)
        fix k assume "k < h + 1"
        then have "xs ! k \<le> xs ! h"
          using "1.prems"(1,3) h by (intro sorted_nth_mono) auto
        with less show "xs ! k < t" by simp
      qed
      moreover have "search_loop xs t i j = search_loop xs t (h + 1) j"
        using True less by (subst search_loop.simps) (simp add: Let_def h_def)
      moreover have "h + 1 \<le> j" using h by simp
      ultimately show ?thesis
        using "1.IH"(1) [OF True h_def less "1.prems"(1) _ "1.prems"(3) _ "1.prems"(5)] by presburger
    next
      case ge: False
      have "\<forall>k. h \<le> k \<longrightarrow> k < length xs \<longrightarrow> t \<le> xs ! k"
      proof (intro allI impI)
        fix k assume "h \<le> k" "k < length xs"
        then have "xs ! h \<le> xs ! k" using "1.prems"(1) by (intro sorted_nth_mono) auto
        with ge show "t \<le> xs ! k" by simp
      qed
      moreover have "search_loop xs t i j = search_loop xs t i h"
        using True ge by (subst search_loop.simps) (simp add: Let_def h_def)
      moreover have "h \<le> length xs" using h "1.prems"(3) by simp
      ultimately show ?thesis
        using "1.IH"(2) [OF True h_def ge "1.prems"(1) h(1) _ "1.prems"(4)] by presburger
    qed
  qed
qed

lemma BinarySearch_found: "sorted xs \<Longrightarrow> snd (BinarySearch xs t) \<longleftrightarrow> t \<in> set xs"
proof -
  assume s: "sorted xs"
  let ?i = "search_loop xs t 0 (length xs)"
  from search_loop_inv [of xs 0 "length xs" t] s
  have b: "\<forall>k < ?i. xs ! k < t" and a: "\<forall>k. ?i \<le> k \<longrightarrow> k < length xs \<longrightarrow> t \<le> xs ! k" by auto
  show ?thesis
  proof
    assume "snd (BinarySearch xs t)"
    then have "?i < length xs" "xs ! ?i = t" by (auto simp: BinarySearch_def Let_def)
    then show "t \<in> set xs" by (metis nth_mem)
  next
    assume "t \<in> set xs"
    then obtain k where k: "k < length xs" "xs ! k = t" by (auto simp: in_set_conv_nth)
    with b have "?i \<le> k" by (metis leI less_irrefl)
    then have "xs ! ?i \<le> t" using s k by (metis sorted_nth_mono)
    moreover have "t \<le> xs ! ?i" using a \<open>?i \<le> k\<close> k(1) by auto
    ultimately show "snd (BinarySearch xs t)"
      using \<open>?i \<le> k\<close> k(1) by (simp add: BinarySearch_def Let_def)
  qed
qed

subsection \<open>The interface of a permission list\<close>

locale permission_index =
  fixes find :: "'p list \<Rightarrow> 'p \<Rightarrow> bool"
    and indexed :: "'p list \<Rightarrow> bool"
  assumes find_iff: "indexed ps \<Longrightarrow> find ps p \<longleftrightarrow> p \<in> set ps"
    and indexed_filter: "indexed ps \<Longrightarrow> indexed (filter q ps)"
begin

text \<open>Narrowing one list by the look-ups in another is intersection, and can be searched again.\<close>

lemma narrowed_set:
  "indexed qs \<Longrightarrow> set (filter (find qs) ps) = set ps \<inter> set qs"
  by (auto simp: find_iff)

lemma narrowed_find:
  "indexed ps \<Longrightarrow> indexed qs \<Longrightarrow> find (filter (find qs) ps) p \<longleftrightarrow> p \<in> set ps \<and> p \<in> set qs"
  by (simp add: find_iff indexed_filter)

end

interpretation perms: permission_index "\<lambda>ps (p :: string). snd (BinarySearch ps p)" sorted
  by unfold_locales (auto simp: BinarySearch_found sorted_filter [of id, simplified])

lemma distinct_remdups_adj_sorted:
  "sorted (xs :: 'a::linorder list) \<Longrightarrow> distinct (remdups_adj xs)"
  by (induction xs rule: remdups_adj.induct) auto

text \<open>An identity as \<open>NewIdentity\<close> makes it.\<close>

definition identity_ok :: "Identity \<Rightarrow> bool" where
  "identity_ok i \<longleftrightarrow> sorted (id_Permissions i) \<and> distinct (id_Permissions i)"

lemma identity_ok_new [inv_intros]: "identity_ok (NewIdentity p ps)"
proof -
  have "sorted (remdups_adj (sort ps))" by (simp add: sorted_remdups_adj)
  moreover have "distinct (remdups_adj (sort ps))"
    by (rule distinct_remdups_adj_sorted) simp
  ultimately show ?thesis by (simp add: identity_ok_def NewIdentity_def)
qed

lemma Permits_iff: "identity_ok i \<Longrightarrow> Identity_Permits i p \<longleftrightarrow> p \<in> set (id_Permissions i)"
  by (simp add: Identity_Permits_def identity_ok_def perms.find_iff)

lemma NarrowedBy_set:
  "identity_ok other \<Longrightarrow> set (NarrowedBy i other) = set (id_Permissions i) \<inter> set (id_Permissions other)"
  by (auto simp: NarrowedBy_def Permits_iff)

lemma NarrowedBy_sorted: "identity_ok i \<Longrightarrow> sorted (NarrowedBy i other)"
  by (simp add: NarrowedBy_def identity_ok_def perms.indexed_filter)

lemma set_NewIdentity [simp]: "set (id_Permissions (NewIdentity p ps)) = set ps"
  by (simp add: NewIdentity_def)

end
