(* ===== verification/Handler.thy ===== *)
theory Handler
  imports Status
begin

text \<open>
  Handlers (\<open>handler.go\<close>, and the guarded calls at the end of \<open>core.go\<close>).  An interface value
  is a table of its methods over an explicit state of the world \<open>'w\<close>, which all handlers,
  interceptors and factories share: a method reads and changes it.  An optional interface
  (\<open>Canceller\<close>, \<open>ItemReceiver\<close>, \<open>StreamCloser\<close>, \<open>Granter\<close>) that the handler does not
  implement is \<open>None\<close>.  A method returns or panics.  Handlers do not call back into the
  core that polls them.  The two handlers of the file are objects in the world's store.
\<close>

subsection \<open>Progress\<close>

datatype ProgressKind = ProgressPending | ProgressRespond | ProgressItem | ProgressEnd | ProgressFail

record Progress =
  pr_Kind :: ProgressKind
  pr_Body :: bytes
  pr_Status :: "Status option"

definition Pending :: Progress where
  "Pending = \<lparr>pr_Kind = ProgressPending, pr_Body = [], pr_Status = None\<rparr>"

definition Respond :: "bytes \<Rightarrow> Progress" where
  "Respond body = \<lparr>pr_Kind = ProgressRespond, pr_Body = body, pr_Status = None\<rparr>"

definition Item :: "bytes \<Rightarrow> Progress" where
  "Item body = \<lparr>pr_Kind = ProgressItem, pr_Body = body, pr_Status = None\<rparr>"

definition End :: Progress where
  "End = \<lparr>pr_Kind = ProgressEnd, pr_Body = [], pr_Status = None\<rparr>"

definition Fail :: "Status \<Rightarrow> Progress" where
  "Fail status = \<lparr>pr_Kind = ProgressFail, pr_Body = [], pr_Status = Some status\<rparr>"

lemmas progress_defs = Pending_def Respond_def Item_def End_def Fail_def

subsection \<open>Calls that may panic, and the guard\<close>

text \<open>A recovered value is an error, or anything else with the text \<open>fmt.Sprint\<close> gives it.\<close>

datatype panic_value = PanicError go_error | PanicOther string

datatype 'a attempt = Returned 'a | Panicked panic_value

fun recovered :: "panic_value \<Rightarrow> Status" where
  "recovered (PanicError e) = StatusOf e"
| "recovered (PanicOther text) = Internal text"

fun guard :: "go_error option attempt \<Rightarrow> Status option" where
  "guard (Returned None) = None"
| "guard (Returned (Some e)) = Some (StatusOf e)"
| "guard (Panicked p) = Some (recovered p)"

record 'w Handler =
  h_Poll :: "gotime \<Rightarrow> 'w \<Rightarrow> Progress attempt \<times> 'w"
  h_Cancel :: "('w \<Rightarrow> unit attempt \<times> 'w) option"
  h_Item :: "(bytes \<Rightarrow> 'w \<Rightarrow> go_error option attempt \<times> 'w) option"
  h_EndOfStream :: "('w \<Rightarrow> go_error option attempt \<times> 'w) option"
  h_Grant :: "('w \<Rightarrow> u32 attempt \<times> 'w) option"

definition safePoll :: "'w Handler \<Rightarrow> gotime \<Rightarrow> 'w \<Rightarrow> Progress \<times> 'w" where
  "safePoll handler now w =
    (case h_Poll handler now w of
       (Returned progress, w) \<Rightarrow> (progress, w)
     | (Panicked p, w) \<Rightarrow> (Fail (recovered p), w))"

definition safeCancel :: "'w Handler \<Rightarrow> 'w \<Rightarrow> 'w" where
  "safeCancel handler w =
    (case h_Cancel handler of None \<Rightarrow> w | Some cancel \<Rightarrow> snd (cancel w))"

definition deliverItem :: "'w Handler \<Rightarrow> bytes \<Rightarrow> 'w \<Rightarrow> Status option \<times> 'w" where
  "deliverItem handler body w =
    (case h_Item handler of
       None \<Rightarrow> (Some (InvalidArgument ''this handler accepts no caller items''), w)
     | Some item \<Rightarrow> (case item body w of (res, w) \<Rightarrow> (guard res, w)))"

definition closeStream :: "'w Handler \<Rightarrow> 'w \<Rightarrow> Status option \<times> 'w" where
  "closeStream handler w =
    (case h_EndOfStream handler of
       None \<Rightarrow> (None, w)
     | Some close \<Rightarrow> (case close w of (res, w) \<Rightarrow> (guard res, w)))"

definition PollFunc :: "(gotime \<Rightarrow> 'w \<Rightarrow> Progress attempt \<times> 'w) \<Rightarrow> 'w Handler" where
  "PollFunc f = \<lparr>h_Poll = f, h_Cancel = None, h_Item = None, h_EndOfStream = None, h_Grant = None\<rparr>"

subsection \<open>The handlers of the package\<close>

text \<open>The objects behind \<open>*immediate\<close> and \<open>*itemsHandler\<close>, in a store that only grows: a
  pointer is a position in it.  \<open>'a\<close> is the rest of the world.\<close>

datatype object =
    Immediate "Progress option"
  | ItemsHandler (ih_items: "bytes list") (ih_next: nat) (ih_cancelled: bool)

record 'a world =
  w_objects :: "object list"
  w_app :: 'a

definition new_object :: "object \<Rightarrow> 'a world \<Rightarrow> nat \<times> 'a world" where
  "new_object obj w = (length (w_objects w), w\<lparr>w_objects := w_objects w @ [obj]\<rparr>)"

definition object_Poll :: "object \<Rightarrow> Progress \<times> object" where
  "object_Poll obj =
    (case obj of
       Immediate None \<Rightarrow> (Fail (Internal ''handler polled after completion''), obj)
     | Immediate (Some progress) \<Rightarrow> (progress, Immediate None)
     | ItemsHandler items next cancelled \<Rightarrow>
         if cancelled then (Fail Cancelled, obj)
         else if next \<ge> length items then (End, obj)
         else (Item (items ! next), ItemsHandler items (next + 1) cancelled))"

definition poll_at :: "nat \<Rightarrow> gotime \<Rightarrow> 'a world \<Rightarrow> Progress attempt \<times> 'a world" where
  "poll_at a now w =
    (case object_Poll (w_objects w ! a) of (progress, obj) \<Rightarrow>
       (Returned progress, w\<lparr>w_objects := (w_objects w)[a := obj]\<rparr>))"

fun object_Cancel :: "object \<Rightarrow> object" where
  "object_Cancel (ItemsHandler items next _) = ItemsHandler items next True"
| "object_Cancel obj = obj"

definition cancel_at :: "nat \<Rightarrow> 'a world \<Rightarrow> unit attempt \<times> 'a world" where
  "cancel_at a w = (Returned (), w\<lparr>w_objects := (w_objects w)[a := object_Cancel (w_objects w ! a)]\<rparr>)"

definition RespondNow :: "bytes \<Rightarrow> 'a world \<Rightarrow> 'a world Handler \<times> 'a world" where
  "RespondNow body w =
    (case new_object (Immediate (Some (Respond body))) w of (a, w) \<Rightarrow> (PollFunc (poll_at a), w))"

definition FailNow :: "Status \<Rightarrow> 'a world \<Rightarrow> 'a world Handler \<times> 'a world" where
  "FailNow status w =
    (case new_object (Immediate (Some (Fail status))) w of (a, w) \<Rightarrow> (PollFunc (poll_at a), w))"

definition ItemsOf :: "bytes list \<Rightarrow> 'a world \<Rightarrow> 'a world Handler \<times> 'a world" where
  "ItemsOf items w =
    (case new_object (ItemsHandler items 0 False) w of (a, w) \<Rightarrow>
       ((PollFunc (poll_at a))\<lparr>h_Cancel := Some (cancel_at a)\<rparr>, w))"

subsection \<open>What the guards give\<close>

lemma safePoll_fails_on_panic:
  "h_Poll h now w = (Panicked p, w') \<Longrightarrow> safePoll h now w = (Fail (recovered p), w')"
  by (simp add: safePoll_def)

lemma guard_None_iff: "guard r = None \<longleftrightarrow> r = Returned None"
  by (cases r rule: guard.cases) auto

text \<open>An immediate handler gives its progress once, then fails.\<close>

lemma RespondNow_polls:
  assumes "RespondNow body w = (h, w1)"
  shows "\<exists>w2. safePoll h now w1 = (Respond body, w2)
    \<and> (\<exists>w3. safePoll h now' w2 = (Fail (Internal ''handler polled after completion''), w3))"
  using assms
  by (auto simp: RespondNow_def new_object_def PollFunc_def safePoll_def poll_at_def object_Poll_def
      nth_append)

text \<open>Polling an uncancelled items handler lists its items in order and then ends.\<close>

fun poll_times :: "nat \<Rightarrow> 'w Handler \<Rightarrow> gotime \<Rightarrow> 'w \<Rightarrow> Progress list \<times> 'w" where
  "poll_times 0 h now w = ([], w)"
| "poll_times (Suc n) h now w =
    (case safePoll h now w of (p, w) \<Rightarrow>
       (case poll_times n h now w of (ps, w) \<Rightarrow> (p # ps, w)))"

lemma items_polls:
  assumes "a < length (w_objects w)" and "w_objects w ! a = ItemsHandler items k False"
    and "h_Poll h = poll_at a" and "k \<le> length items"
  shows "fst (poll_times (length items - k + 1) h now w) = map Item (drop k items) @ [End]"
  using assms
proof (induction "length items - k" arbitrary: w k)
  case 0
  then show ?case by (simp add: safePoll_def poll_at_def object_Poll_def)
next
  case (Suc n)
  then have k: "k < length items" by simp
  let ?w = "w\<lparr>w_objects := (w_objects w)[a := ItemsHandler items (k + 1) False]\<rparr>"
  have "fst (poll_times (length items - (k + 1) + 1) h now ?w)
      = map Item (drop (k + 1) items) @ [End]"
    using Suc.prems k Suc.hyps(2) by (intro Suc.hyps(1)) auto
  moreover have "safePoll h now w = (Item (items ! k), ?w)"
    using Suc.prems(1-3) k by (simp add: safePoll_def poll_at_def object_Poll_def)
  moreover have "length items - k + 1 = Suc (length items - (k + 1) + 1)" using k by simp
  moreover have "drop k items = items ! k # drop (k + 1) items"
    using k by (simp add: Cons_nth_drop_Suc)
  ultimately show ?case by (simp split: prod.splits)
qed

end
