(* ===== verification/Registry.thy ===== *)
theory Registry
  imports Handler
begin

text \<open>
  Method descriptors, the registry and its builder (\<open>descriptor.go\<close>), and the reflection method
  (\<open>reflection.go\<close>).  A \<open>map[uint32]struct{}\<close> is a set of ids.  A handler factory is a function of
  the method and the body that may change the world and may panic; an entry that is only
  declared has none.  The lemmas say what a registry that \<open>Build\<close> returns guarantees: request
  ids are unique, every id of a method is owned, none is a plain id or the id of a system
  model.
\<close>

subsection \<open>Methods\<close>

datatype Shape = ShapeUnary | ShapeServerStream | ShapeClientStream | ShapeBidiStream

fun shape_code :: "Shape \<Rightarrow> u32" where
  "shape_code ShapeUnary = 0"
| "shape_code ShapeServerStream = 1"
| "shape_code ShapeClientStream = 2"
| "shape_code ShapeBidiStream = 3"

definition CallerStreams :: "Shape \<Rightarrow> bool" where
  "CallerStreams s \<longleftrightarrow> s = ShapeClientStream \<or> s = ShapeBidiStream"

definition CalleeStreams :: "Shape \<Rightarrow> bool" where
  "CalleeStreams s \<longleftrightarrow> s = ShapeServerStream \<or> s = ShapeBidiStream"

datatype RetrySafety = RetryUnsafe | RetryIdempotent | RetryKeyed

fun safety_code :: "RetrySafety \<Rightarrow> u32" where
  "safety_code RetryUnsafe = 0"
| "safety_code RetryIdempotent = 1"
| "safety_code RetryKeyed = 2"

definition SurvivesUnknownOutcome :: "RetrySafety \<Rightarrow> bool" where
  "SurvivesUnknownOutcome r \<longleftrightarrow> r \<noteq> RetryUnsafe"

record Method =
  m_Name :: string
  m_Shape :: Shape
  m_RequestID :: u32
  m_RequestItemID :: u32
  m_HasRequestItem :: bool
  m_ReplyID :: u32
  m_Permission :: string
  m_RetrySafety :: RetrySafety
  m_IdleLimit :: duration

text \<open>\<open>Method{}\<close>, which the constructors fill in.\<close>

definition zero_Method :: Method where
  "zero_Method = \<lparr>m_Name = [], m_Shape = ShapeUnary, m_RequestID = 0, m_RequestItemID = 0,
     m_HasRequestItem = False, m_ReplyID = 0, m_Permission = [], m_RetrySafety = RetryUnsafe,
     m_IdleLimit = 0\<rparr>"

definition Unary :: "string \<Rightarrow> u32 \<Rightarrow> u32 \<Rightarrow> Method" where
  "Unary name requestID responseID =
    zero_Method\<lparr>m_Name := name, m_Shape := ShapeUnary, m_RequestID := requestID,
      m_ReplyID := responseID\<rparr>"

definition ServerStream :: "string \<Rightarrow> u32 \<Rightarrow> u32 \<Rightarrow> Method" where
  "ServerStream name requestID itemID =
    zero_Method\<lparr>m_Name := name, m_Shape := ShapeServerStream, m_RequestID := requestID,
      m_ReplyID := itemID\<rparr>"

definition ClientStream :: "string \<Rightarrow> u32 \<Rightarrow> u32 \<Rightarrow> u32 \<Rightarrow> Method" where
  "ClientStream name requestID requestItemID responseID =
    zero_Method\<lparr>m_Name := name, m_Shape := ShapeClientStream, m_RequestID := requestID,
      m_RequestItemID := requestItemID, m_HasRequestItem := True, m_ReplyID := responseID\<rparr>"

definition BidiStream :: "string \<Rightarrow> u32 \<Rightarrow> u32 \<Rightarrow> u32 \<Rightarrow> Method" where
  "BidiStream name requestID requestItemID replyItemID =
    zero_Method\<lparr>m_Name := name, m_Shape := ShapeBidiStream, m_RequestID := requestID,
      m_RequestItemID := requestItemID, m_HasRequestItem := True, m_ReplyID := replyItemID\<rparr>"

definition Requiring :: "string \<Rightarrow> Method \<Rightarrow> Method" where
  "Requiring permission m = m\<lparr>m_Permission := permission\<rparr>"

definition Idempotent :: "Method \<Rightarrow> Method" where
  "Idempotent m = m\<lparr>m_RetrySafety := RetryIdempotent\<rparr>"

definition Keyed :: "Method \<Rightarrow> Method" where
  "Keyed m = m\<lparr>m_RetrySafety := RetryKeyed\<rparr>"

definition IdleAfter :: "duration \<Rightarrow> Method \<Rightarrow> Method" where
  "IdleAfter limit m = m\<lparr>m_IdleLimit := limit\<rparr>"

definition CallerItemID :: "Method \<Rightarrow> u32" where
  "CallerItemID m = (if m_HasRequestItem m then m_RequestItemID m else m_RequestID m)"

definition MessageIDs :: "Method \<Rightarrow> u32 list" where
  "MessageIDs m =
    (let ids = [m_RequestID m, m_ReplyID m] in
     if m_HasRequestItem m then ids @ [m_RequestItemID m] else ids)"

subsection \<open>Registry and builder\<close>

text \<open>A factory returns \<open>(Handler, error)\<close>; the handler may be nil.\<close>

type_synonym 'w HandlerFactory =
  "Method \<Rightarrow> bytes \<Rightarrow> 'w \<Rightarrow> ('w Handler option \<times> go_error option) attempt \<times> 'w"

record 'w Entry =
  e_Method :: Method
  e_Factory :: "'w HandlerFactory option"

datatype RegistryError = RegistryError (RegistryError_Reason: string)

definition MaxMethods :: nat where
  "MaxMethods = 65536"

record 'w Registry =
  rg_voidID :: u32
  rg_errorID :: u32
  rg_creditID :: u32
  rg_hasCredit :: bool
  rg_entries :: "'w Entry list"
  rg_byRequest :: "'w Entry gomap"
  rg_idSet :: "u32 set"
  rg_plainIDs :: "u32 set"

definition CreditID :: "'w Registry \<Rightarrow> u32 option" where
  "CreditID r = (if rg_hasCredit r then Some (rg_creditID r) else None)"

definition Methods :: "'w Registry \<Rightarrow> Method list" where
  "Methods r = map e_Method (rg_entries r)"

definition Owns :: "u32 \<Rightarrow> 'w Registry \<Rightarrow> bool" where
  "Owns messageID r \<longleftrightarrow> messageID \<in> rg_idSet r"

definition IsPlain :: "u32 \<Rightarrow> 'w Registry \<Rightarrow> bool" where
  "IsPlain messageID r \<longleftrightarrow> messageID \<in> rg_plainIDs r"

definition EntryFor :: "u32 \<Rightarrow> 'w Registry \<Rightarrow> 'w Entry option" where
  "EntryFor requestID r = fmlookup (rg_byRequest r) requestID"

definition MethodFor :: "u32 \<Rightarrow> 'w Registry \<Rightarrow> Method option" where
  "MethodFor requestID r = map_option e_Method (fmlookup (rg_byRequest r) requestID)"

fun undeclared_id :: "(u32 \<Rightarrow> bool) \<Rightarrow> u32 list \<Rightarrow> u32 option" where
  "undeclared_id schemaDeclares [] = None"
| "undeclared_id schemaDeclares (messageID # ids) =
    (if \<not> schemaDeclares messageID then Some messageID else undeclared_id schemaDeclares ids)"

fun require_declared :: "(u32 \<Rightarrow> bool) \<Rightarrow> 'w Entry list \<Rightarrow> RegistryError option" where
  "require_declared schemaDeclares [] = None"
| "require_declared schemaDeclares (entry # entries) =
    (case undeclared_id schemaDeclares (MessageIDs (e_Method entry)) of
       Some messageID \<Rightarrow> Some (RegistryError (''method '' @ m_Name (e_Method entry) @ '' uses 0x''
         @ fmt_08X messageID @ '', which the schema does not declare''))
     | None \<Rightarrow> require_declared schemaDeclares entries)"

definition RequireDeclaredIn :: "(u32 \<Rightarrow> bool) \<Rightarrow> 'w Registry \<Rightarrow> RegistryError option" where
  "RequireDeclaredIn schemaDeclares r = require_declared schemaDeclares (rg_entries r)"

record Reflection =
  rf_RequestID :: u32
  rf_ResponseID :: u32
  rf_SchemaJSON :: bytes

record 'w RegistryBuilder =
  b_voidID :: u32
  b_errorID :: u32
  b_creditID :: u32
  b_hasCredit :: bool
  b_entries :: "'w Entry list"
  b_plainIDs :: "u32 set"
  b_reflection :: "Reflection option"

definition NewRegistry :: "u32 \<Rightarrow> u32 \<Rightarrow> 'w RegistryBuilder" where
  "NewRegistry voidID errorID =
    \<lparr>b_voidID = voidID, b_errorID = errorID, b_creditID = 0, b_hasCredit = False, b_entries = [],
     b_plainIDs = {}, b_reflection = None\<rparr>"

definition RegistryBuilder_Credit :: "u32 \<Rightarrow> 'w RegistryBuilder \<Rightarrow> 'w RegistryBuilder" where
  "RegistryBuilder_Credit messageID b = b\<lparr>b_creditID := messageID, b_hasCredit := True\<rparr>"

definition RegistryBuilder_Reflection ::
  "u32 \<Rightarrow> u32 \<Rightarrow> bytes \<Rightarrow> 'w RegistryBuilder \<Rightarrow> 'w RegistryBuilder" where
  "RegistryBuilder_Reflection requestID responseID schemaJSON b =
    b\<lparr>b_reflection := Some \<lparr>rf_RequestID = requestID, rf_ResponseID = responseID,
        rf_SchemaJSON = schemaJSON\<rparr>\<rparr>"

definition Declare :: "Method \<Rightarrow> 'w RegistryBuilder \<Rightarrow> 'w RegistryBuilder" where
  "Declare m b = b\<lparr>b_entries := b_entries b @ [\<lparr>e_Method = m, e_Factory = None\<rparr>]\<rparr>"

definition Serve :: "Method \<Rightarrow> 'w HandlerFactory \<Rightarrow> 'w RegistryBuilder \<Rightarrow> 'w RegistryBuilder" where
  "Serve m factory b = b\<lparr>b_entries := b_entries b @ [\<lparr>e_Method = m, e_Factory = Some factory\<rparr>]\<rparr>"

definition PlainMessage :: "u32 \<Rightarrow> 'w RegistryBuilder \<Rightarrow> 'w RegistryBuilder" where
  "PlainMessage messageID b = b\<lparr>b_plainIDs := insert messageID (b_plainIDs b)\<rparr>"

subsection \<open>Reflection\<close>

definition ReflectMethodName :: string where
  "ReflectMethodName = ''FRpc.Reflect''"

definition Reflection_Method :: "Reflection \<Rightarrow> Method" where
  "Reflection_Method r = Idempotent (Unary ReflectMethodName (rf_RequestID r) (rf_ResponseID r))"

definition put_method :: "Method \<Rightarrow> BodyWriter \<Rightarrow> BodyWriter" where
  "put_method m w =
    PutU32 (safety_code (m_RetrySafety m))
      (PutU32 (m_ReplyID m)
        (PutU32 (CallerItemID m)
          (PutU32 (m_RequestID m)
            (PutU32 (shape_code (m_Shape m))
              (PutString (m_Name m) w)))))"

definition EncodeReflectResponse :: "Method list \<Rightarrow> bytes \<Rightarrow> bytes" where
  "EncodeReflectResponse methods schemaJSON =
    (let writer = PutU32 (word_of_nat (length methods)) NewBodyWriter;
         writer = fold put_method methods writer
     in Bytes (PutBytes schemaJSON writer))"

subsection \<open>Build\<close>

text \<open>The loop over the ids of one method: the first id that is refused, or the grown id set.\<close>

fun claim_ids :: "'w RegistryBuilder \<Rightarrow> Method \<Rightarrow> u32 list \<Rightarrow> u32 set \<Rightarrow> RegistryError + u32 set" where
  "claim_ids b m [] idSet = Inr idSet"
| "claim_ids b m (messageID # ids) idSet =
    (if messageID \<in> b_plainIDs b then
       Inl (RegistryError (''method '' @ m_Name m @ '' uses 0x'' @ fmt_08X messageID
         @ '', which is also a plain message id''))
     else if messageID = b_voidID b \<or> messageID = b_errorID b
         \<or> (b_hasCredit b \<and> messageID = b_creditID b) then
       Inl (RegistryError (''method '' @ m_Name m @ '' uses 0x'' @ fmt_08X messageID
         @ '', reserved for a system model''))
     else claim_ids b m ids (insert messageID idSet))"

fun claim_entries :: "'w RegistryBuilder \<Rightarrow> 'w Entry list \<Rightarrow> 'w Entry gomap \<Rightarrow> u32 set
    \<Rightarrow> RegistryError + 'w Entry gomap \<times> u32 set" where
  "claim_entries b [] byRequest idSet = Inr (byRequest, idSet)"
| "claim_entries b (entry # entries) byRequest idSet =
    (let m = e_Method entry in
     case fmlookup byRequest (m_RequestID m) of
       Some previous \<Rightarrow>
         Inl (RegistryError (''methods '' @ m_Name (e_Method previous) @ '' and '' @ m_Name m
           @ '' share request type 0x'' @ fmt_08X (m_RequestID m)))
     | None \<Rightarrow>
         (case claim_ids b m (MessageIDs m) idSet of
            Inl err \<Rightarrow> Inl err
          | Inr idSet \<Rightarrow>
              claim_entries b entries (fmupd (m_RequestID m) entry byRequest) idSet))"

definition system_ids :: "'w RegistryBuilder \<Rightarrow> u32 set" where
  "system_ids b =
    (let idSet = {b_voidID b, b_errorID b} in
     if b_hasCredit b then insert (b_creditID b) idSet else idSet)"

text \<open>The entry that the builder adds for a reflection: its factory answers with the list of
  the served methods.\<close>

definition reflection_entry :: "Reflection \<Rightarrow> 'a world Entry list \<Rightarrow> 'a world Entry" where
  "reflection_entry r all =
    (let m = Reflection_Method r;
         served = map e_Method (filter (\<lambda>entry. e_Factory entry \<noteq> None) all) @ [m];
         answer = EncodeReflectResponse served (rf_SchemaJSON r)
     in \<lparr>e_Method = m, e_Factory = Some (\<lambda>_ _ w.
          case RespondNow answer w of (handler, w) \<Rightarrow> (Returned (Some handler, None), w))\<rparr>)"

definition Build :: "'a world RegistryBuilder \<Rightarrow> RegistryError + 'a world Registry" where
  "Build b =
    (let all = b_entries b;
         all = (case b_reflection b of None \<Rightarrow> all | Some r \<Rightarrow> all @ [reflection_entry r all])
     in if length all > MaxMethods then
       Inl (RegistryError (fmt_d (length all) @ '' methods exceeds the '' @ fmt_d MaxMethods
         @ '' ceiling''))
     else case claim_entries b all fmempty (system_ids b) of
       Inl err \<Rightarrow> Inl err
     | Inr (byRequest, idSet) \<Rightarrow>
         Inr \<lparr>rg_voidID = b_voidID b, rg_errorID = b_errorID b, rg_creditID = b_creditID b,
           rg_hasCredit = b_hasCredit b, rg_entries = all, rg_byRequest = byRequest,
           rg_idSet = idSet, rg_plainIDs = b_plainIDs b\<rparr>)"

subsection \<open>What \<open>Build\<close> checks\<close>

lemma system_ids_iff:
  "i \<in> system_ids b \<longleftrightarrow> i = b_voidID b \<or> i = b_errorID b \<or> (b_hasCredit b \<and> i = b_creditID b)"
  by (auto simp: system_ids_def Let_def)

lemma claim_ids_Inr_iff:
  "claim_ids b m ids S = Inr S' \<longleftrightarrow>
    S' = S \<union> set ids \<and> set ids \<inter> b_plainIDs b = {} \<and> set ids \<inter> system_ids b = {}"
  by (induction ids arbitrary: S) (auto simp: system_ids_iff)

text \<open>The entry of a request id in a list, the first one if there are several.\<close>

definition request_id :: "'w Entry \<Rightarrow> u32" where
  "request_id entry = m_RequestID (e_Method entry)"

definition entry_ids :: "'w Entry \<Rightarrow> u32 set" where
  "entry_ids entry = set (MessageIDs (e_Method entry))"

definition ids_free :: "'w RegistryBuilder \<Rightarrow> 'w Entry list \<Rightarrow> bool" where
  "ids_free b es \<longleftrightarrow>
    (\<forall>e \<in> set es. entry_ids e \<inter> b_plainIDs b = {} \<and> entry_ids e \<inter> system_ids b = {})"

definition table_of :: "'w Entry list \<Rightarrow> 'w Entry gomap \<Rightarrow> 'w Entry gomap" where
  "table_of es m = fold (\<lambda>e. fmupd (request_id e) e) es m"

lemma lookup_table_of:
  assumes "distinct (map request_id es)"
  shows "fmlookup (table_of es m) k = Some e \<longleftrightarrow>
    (e \<in> set es \<and> request_id e = k) \<or> (k \<notin> request_id ` set es \<and> fmlookup m k = Some e)"
  using assms
proof (induction es arbitrary: m)
  case (Cons e0 es)
  then show ?case by (auto simp: table_of_def split: if_splits)
qed (simp add: table_of_def)

lemma claim_entries_Inr_iff:
  "claim_entries b es byRequest S = Inr (m, S') \<longleftrightarrow>
    distinct (map request_id es) \<and> (\<forall>e \<in> set es. fmlookup byRequest (request_id e) = None)
    \<and> ids_free b es \<and> m = table_of es byRequest \<and> S' = S \<union> (\<Union>e \<in> set es. entry_ids e)"
proof (induction es arbitrary: byRequest S)
  case Nil
  then show ?case by (auto simp: table_of_def ids_free_def)
next
  case (Cons e es)
  show ?case
  proof (cases "fmlookup byRequest (request_id e) = None
      \<and> entry_ids e \<inter> b_plainIDs b = {} \<and> entry_ids e \<inter> system_ids b = {}")
    case True
    then have "claim_ids b (e_Method e) (MessageIDs (e_Method e)) S = Inr (S \<union> entry_ids e)"
      by (simp add: claim_ids_Inr_iff entry_ids_def)
    then have "claim_entries b (e # es) byRequest S
        = claim_entries b es (fmupd (request_id e) e byRequest) (S \<union> entry_ids e)"
      using True by (simp add: Let_def request_id_def)
    then have step: "claim_entries b (e # es) byRequest S = Inr (m, S') \<longleftrightarrow>
        distinct (map request_id es)
        \<and> (\<forall>x \<in> set es. fmlookup (fmupd (request_id e) e byRequest) (request_id x) = None)
        \<and> ids_free b es \<and> m = table_of es (fmupd (request_id e) e byRequest)
        \<and> S' = S \<union> entry_ids e \<union> (\<Union>x \<in> set es. entry_ids x)"
      using Cons.IH by simp
    have free: "ids_free b (e # es) \<longleftrightarrow> ids_free b es" using True by (simp add: ids_free_def)
    have table: "table_of (e # es) byRequest = table_of es (fmupd (request_id e) e byRequest)"
      by (simp add: table_of_def)
    show ?thesis unfolding step free table using True by (auto split: if_splits)
  next
    case False
    have "claim_entries b (e # es) byRequest S \<noteq> Inr (m, S')"
    proof
      assume a: "claim_entries b (e # es) byRequest S = Inr (m, S')"
      then have n: "fmlookup byRequest (request_id e) = None"
        by (auto simp: Let_def request_id_def split: option.splits)
      with a obtain T where "claim_ids b (e_Method e) (MessageIDs (e_Method e)) S = Inr T"
        by (auto simp: Let_def request_id_def split: sum.splits)
      with n False show False by (simp add: claim_ids_Inr_iff entry_ids_def)
    qed
    with False show ?thesis by (auto simp: ids_free_def)
  qed
qed

definition all_entries :: "'a world RegistryBuilder \<Rightarrow> 'a world Entry list" where
  "all_entries b = b_entries b
     @ (case b_reflection b of None \<Rightarrow> [] | Some r \<Rightarrow> [reflection_entry r (b_entries b)])"

lemma Build_eq:
  "Build b =
    (if length (all_entries b) > MaxMethods then
       Inl (RegistryError (fmt_d (length (all_entries b)) @ '' methods exceeds the ''
         @ fmt_d MaxMethods @ '' ceiling''))
     else case claim_entries b (all_entries b) fmempty (system_ids b) of
       Inl err \<Rightarrow> Inl err
     | Inr (byRequest, idSet) \<Rightarrow>
         Inr \<lparr>rg_voidID = b_voidID b, rg_errorID = b_errorID b, rg_creditID = b_creditID b,
           rg_hasCredit = b_hasCredit b, rg_entries = all_entries b, rg_byRequest = byRequest,
           rg_idSet = idSet, rg_plainIDs = b_plainIDs b\<rparr>)"
  by (cases "b_reflection b") (simp_all add: Build_def all_entries_def Let_def cong: sum.case_cong)

text \<open>\<open>Build\<close> succeeds exactly when the list is within the ceiling, no two methods share a request
  id, and no id of a method is plain or belongs to a system model.\<close>

lemma Build_Inr_iff:
  "(\<exists>r. Build b = Inr r) \<longleftrightarrow> length (all_entries b) \<le> MaxMethods
     \<and> distinct (map request_id (all_entries b)) \<and> ids_free b (all_entries b)"
proof -
  let ?S = "system_ids b \<union> (\<Union>e \<in> set (all_entries b). entry_ids e)"
  have "(\<exists>q. claim_entries b (all_entries b) fmempty (system_ids b) = Inr q) \<longleftrightarrow>
      distinct (map request_id (all_entries b)) \<and> ids_free b (all_entries b)"
    using claim_entries_Inr_iff [of b "all_entries b" fmempty "system_ids b"] by auto
  then show ?thesis unfolding Build_eq by (auto split: sum.splits)
qed

subsection \<open>What a registry guarantees\<close>

definition registry_system_ids :: "'w Registry \<Rightarrow> u32 set" where
  "registry_system_ids r =
    {rg_voidID r, rg_errorID r} \<union> (if rg_hasCredit r then {rg_creditID r} else {})"

definition registry_ok :: "'w Registry \<Rightarrow> bool" where
  "registry_ok r \<longleftrightarrow>
    distinct (map request_id (rg_entries r))
    \<and> (\<forall>k e. fmlookup (rg_byRequest r) k = Some e \<longleftrightarrow> e \<in> set (rg_entries r) \<and> request_id e = k)
    \<and> rg_idSet r = registry_system_ids r \<union> (\<Union>e \<in> set (rg_entries r). entry_ids e)
    \<and> (\<forall>e \<in> set (rg_entries r). entry_ids e \<inter> rg_plainIDs r = {}
         \<and> entry_ids e \<inter> registry_system_ids r = {})"

lemma Build_registry_ok:
  assumes "Build b = Inr r"
  shows "registry_ok r"
proof -
  from assms obtain m S where c: "claim_entries b (all_entries b) fmempty (system_ids b) = Inr (m, S)"
    and r: "rg_entries r = all_entries b" "rg_byRequest r = m" "rg_idSet r = S"
      "rg_plainIDs r = b_plainIDs b" and f: "rg_voidID r = b_voidID b" "rg_errorID r = b_errorID b"
      "rg_creditID r = b_creditID b" "rg_hasCredit r = b_hasCredit b"
    unfolding Build_eq by (auto split: if_splits sum.splits)
  have sys: "registry_system_ids r = system_ids b"
    using f by (auto simp: registry_system_ids_def system_ids_def Let_def)
  from c have d: "distinct (map request_id (all_entries b))" "ids_free b (all_entries b)"
    "m = table_of (all_entries b) fmempty" "S = system_ids b \<union> (\<Union>e \<in> set (all_entries b). entry_ids e)"
    unfolding claim_entries_Inr_iff by blast+
  then show ?thesis
    unfolding registry_ok_def sys r by (simp add: lookup_table_of ids_free_def)
qed

text \<open>What the core asks of a method table: the method of a request id has that request id, and
  its ids are owned and not plain, so that their frames reach the core.\<close>

locale method_table =
  fixes ok :: "'r \<Rightarrow> bool"
    and method_for :: "u32 \<Rightarrow> 'r \<Rightarrow> Method option"
    and owns :: "u32 \<Rightarrow> 'r \<Rightarrow> bool"
    and plain :: "u32 \<Rightarrow> 'r \<Rightarrow> bool"
  assumes found_id: "ok r \<Longrightarrow> method_for k r = Some m \<Longrightarrow> m_RequestID m = k"
    and found_owned: "ok r \<Longrightarrow> method_for k r = Some m \<Longrightarrow> i \<in> set (MessageIDs m) \<Longrightarrow> owns i r"
    and found_not_plain:
      "ok r \<Longrightarrow> method_for k r = Some m \<Longrightarrow> i \<in> set (MessageIDs m) \<Longrightarrow> \<not> plain i r"
begin

lemma reply_reaches_core:
  "ok r \<Longrightarrow> method_for k r = Some m \<Longrightarrow> owns (m_ReplyID m) r \<and> \<not> plain (m_ReplyID m) r"
  using found_owned found_not_plain by (auto simp: MessageIDs_def Let_def)

lemma caller_item_reaches_core:
  "ok r \<Longrightarrow> method_for k r = Some m \<Longrightarrow> owns (CallerItemID m) r \<and> \<not> plain (CallerItemID m) r"
  using found_owned [of r k m] found_not_plain [of r k m]
  by (auto simp: MessageIDs_def CallerItemID_def Let_def)

lemma request_not_plain: "ok r \<Longrightarrow> method_for k r = Some m \<Longrightarrow> \<not> plain k r"
  using found_id found_not_plain by (fastforce simp: MessageIDs_def Let_def)

end

interpretation methods: method_table registry_ok MethodFor Owns IsPlain
proof unfold_locales
  fix r :: "'w Registry" and k m i
  assume r: "registry_ok r" and "MethodFor k r = Some m"
  then obtain e where e: "e \<in> set (rg_entries r)" "request_id e = k" "e_Method e = m"
    by (auto simp: MethodFor_def registry_ok_def)
  then show "m_RequestID m = k" by (auto simp: request_id_def)
  assume "i \<in> set (MessageIDs m)"
  then have "i \<in> entry_ids e" using e by (simp add: entry_ids_def)
  then show "Owns i r" "\<not> IsPlain i r"
    using r e(1) by (auto simp: registry_ok_def Owns_def IsPlain_def)
qed

lemma EntryFor_ok:
  "registry_ok r \<Longrightarrow> EntryFor k r = Some e \<Longrightarrow> e \<in> set (rg_entries r) \<and> m_RequestID (e_Method e) = k"
  by (auto simp: EntryFor_def registry_ok_def request_id_def)

lemma RequireDeclaredIn_None_iff:
  "RequireDeclaredIn declares r = None \<longleftrightarrow>
    (\<forall>m \<in> set (Methods r). \<forall>i \<in> set (MessageIDs m). declares i)"
proof -
  have u: "undeclared_id declares ids = None \<longleftrightarrow> (\<forall>i \<in> set ids. declares i)" for ids
    by (induction ids) auto
  have "require_declared declares es = None \<longleftrightarrow>
      (\<forall>m \<in> set (map e_Method es). \<forall>i \<in> set (MessageIDs m). declares i)" for es :: "'a Entry list"
  proof (induction es)
    case (Cons e es)
    then show ?case
      by (cases "undeclared_id declares (MessageIDs (e_Method e))") (auto simp flip: u)
  qed simp
  then show ?thesis by (simp add: RequireDeclaredIn_def Methods_def)
qed

end
