(* ===== verification/Keys.thy ===== *)
theory Keys
  imports Ctx Registry
begin

text \<open>
  Idempotency keys (the rest of \<open>ctx.go\<close>): a keyed method's call carries the SHA-256 sum of its
  body.  \<open>Sum256\<close> is the hash of \<open>crypto/sha256\<close> (FIPS 180-4) on byte lists: padding, a message
  schedule of 64 words per block and 64 rounds over eight words.
\<close>

subsection \<open>\<open>crypto/sha256\<close>\<close>

text \<open>The constants are the first 32 bits of the fractional parts of the square roots of the first 8
  primes and of the cube roots of the first 64.  \<open>root_from k m n r\<close> finds the \<open>n\<close> last binary digits of
  the \<open>k\<close>-th root of \<open>m\<close> after the digits \<open>r\<close>.\<close>

primrec root_from :: "nat \<Rightarrow> int \<Rightarrow> nat \<Rightarrow> int \<Rightarrow> int" where
  "root_from k m 0 r = r"
| "root_from k m (Suc n) r = (let t = r + 2 ^ n in root_from k m n (if t ^ k \<le> m then t else r))"

definition root_fraction :: "nat \<Rightarrow> int \<Rightarrow> u32" where
  "root_fraction k p = word_of_int (root_from k (p * 2 ^ (32 * k)) 37 0)"

definition small_primes :: "int list" where
  "small_primes = filter (\<lambda>p. list_all (\<lambda>d. p mod d \<noteq> 0) [2..p - 1]) [2..311]"

definition sha256_K :: "u32 list" where
  "sha256_K = map (root_fraction 3) small_primes"

definition sha256_init :: "u32 list" where
  "sha256_init = map (root_fraction 2) [2, 3, 5, 7, 11, 13, 17, 19]"

definition be32 :: "u32 \<Rightarrow> bytes" where
  "be32 w = rev (PutUint32 w)"

fun be_words :: "bytes \<Rightarrow> u32 list" where
  "be_words (a # b # c # d # r) = Uint32 [d, c, b, a] # be_words r"
| "be_words _ = []"

definition sha256_pad :: "bytes \<Rightarrow> bytes" where
  "sha256_pad m =
    (let bits = 8 * word_of_nat (length m) :: u64 in
     m @ 0x80 # replicate ((119 - length m mod 64) mod 64) 0
       @ be32 (ucast (drop_bit 32 bits)) @ be32 (ucast bits))"

definition rotr :: "nat \<Rightarrow> u32 \<Rightarrow> u32" where
  "rotr n w = drop_bit n w OR push_bit (32 - n) w"

text \<open>The schedule, newest word first: each word from those 2, 7, 15 and 16 places back.\<close>

definition schedule_word :: "u32 list \<Rightarrow> u32" where
  "schedule_word ws =
    (let w2 = ws ! 1; w7 = ws ! 6; w15 = ws ! 14; w16 = ws ! 15;
         s0 = rotr 7 w15 XOR rotr 18 w15 XOR drop_bit 3 w15;
         s1 = rotr 17 w2 XOR rotr 19 w2 XOR drop_bit 10 w2
     in w16 + s0 + w7 + s1)"

definition schedule :: "u32 list \<Rightarrow> u32 list" where
  "schedule ws = rev (((\<lambda>ws. schedule_word ws # ws) ^^ 48) (rev ws))"

definition sha256_round :: "u32 \<times> u32 \<Rightarrow> u32 list \<Rightarrow> u32 list" where
  "sha256_round kw v =
    (let a = v ! 0; b = v ! 1; c = v ! 2; d = v ! 3; e = v ! 4; f = v ! 5; g = v ! 6; h = v ! 7;
         s1 = rotr 6 e XOR rotr 11 e XOR rotr 25 e;
         ch = (e AND f) XOR (NOT e AND g);
         t1 = h + s1 + ch + fst kw + snd kw;
         s0 = rotr 2 a XOR rotr 13 a XOR rotr 22 a;
         maj = (a AND b) XOR (a AND c) XOR (b AND c);
         t2 = s0 + maj
     in [t1 + t2, a, b, c, d + t1, e, f, g])"

definition sha256_block :: "bytes \<Rightarrow> u32 list \<Rightarrow> u32 list" where
  "sha256_block block hs =
    map2 (+) hs (fold sha256_round (zip sha256_K (schedule (be_words block))) hs)"

fun sha256_blocks :: "bytes \<Rightarrow> u32 list \<Rightarrow> u32 list" where
  "sha256_blocks m hs =
    (if m = [] then hs else sha256_blocks (drop 64 m) (sha256_block (take 64 m) hs))"

declare sha256_blocks.simps [simp del]

definition Sum256 :: "bytes \<Rightarrow> bytes" where
  "Sum256 m = concat (map be32 (sha256_blocks (sha256_pad m) sha256_init))"

subsection \<open>Keys\<close>

definition KeyOf :: "bytes \<Rightarrow> bytes" where
  "KeyOf body = Sum256 body"

definition KeyedByContent :: "bytes \<Rightarrow> Ctx" where
  "KeyedByContent body = zero_Ctx\<lparr>IdempotencyKey := KeyOf body\<rparr>"

definition CtxForMethod :: "Method \<Rightarrow> bytes \<Rightarrow> Ctx" where
  "CtxForMethod m body = (if m_RetrySafety m = RetryKeyed then KeyedByContent body else zero_Ctx)"

subsection \<open>The length of a sum\<close>

lemma length_be32 [simp]: "length (be32 w) = 4"
  by (simp add: be32_def)

lemma length_rounds: "length v = 8 \<Longrightarrow> length (fold sha256_round ks v) = 8"
  by (induction ks arbitrary: v) (simp_all add: sha256_round_def Let_def)

lemma length_sha256_blocks: "length hs = 8 \<Longrightarrow> length (sha256_blocks m hs) = 8"
proof (induction m hs rule: sha256_blocks.induct)
  case (1 m hs)
  have "length (sha256_block (take 64 m) hs) = 8"
    using "1.prems" by (simp add: sha256_block_def length_rounds)
  with 1 show ?case by (subst sha256_blocks.simps) simp
qed

lemma length_concat_be32: "length (concat (map be32 ws)) = 4 * length ws"
  by (induction ws) simp_all

lemma length_KeyOf [simp]: "length (KeyOf body) = 32"
  by (simp add: KeyOf_def Sum256_def length_concat_be32 length_sha256_blocks sha256_init_def)

text \<open>The padded message is a whole number of blocks.\<close>

lemma pad_count: "r < 64 \<Longrightarrow> (119 - r) mod 64 = (if r \<le> 55 then 55 - r else 119 - r)" for r :: nat
proof (cases "r \<le> 55")
  case True
  then have "119 - r = 64 + (55 - r)" by simp
  then have "(119 - r) mod 64 = (55 - r) mod 64" by (metis mod_add_self1)
  with True show ?thesis by simp
qed simp

lemma length_sha256_pad: "64 dvd length (sha256_pad m)"
proof -
  define q r where "q = length m div 64" and "r = length m mod 64"
  have "length m = 64 * q + r" and "r < 64" by (simp_all add: q_def r_def)
  moreover have "length (sha256_pad m) = length m + 9 + (119 - r) mod 64"
    by (simp add: sha256_pad_def Let_def r_def)
  ultimately have "length (sha256_pad m) = 64 * q + (if r \<le> 55 then 64 else 128)"
    by (simp add: pad_count)
  then show ?thesis by simp
qed

lemma ctx_ok_CtxForMethod: "ctx_ok (CtxForMethod m body)"
  by (simp add: CtxForMethod_def KeyedByContent_def ctx_ok_def zero_Ctx_def fits_u32_def string_ok_def)

text \<open>The ctx a method's call starts from survives the wire, and is sent only for a keyed method.\<close>

lemma DecodeCtx_CtxForMethod: "DecodeCtx (Ctx_Encode (CtxForMethod m body)) = (CtxForMethod m body, None)"
  by (rule DecodeCtx_Encode [OF ctx_ok_CtxForMethod])

lemma Ctx_IsEmpty_CtxForMethod: "Ctx_IsEmpty (CtxForMethod m body) \<longleftrightarrow> m_RetrySafety m \<noteq> RetryKeyed"
proof -
  have "KeyOf body \<noteq> []" using length_KeyOf [of body] by (metis list.size(3) zero_neq_numeral)
  then show ?thesis
    by (auto simp: CtxForMethod_def KeyedByContent_def Ctx_IsEmpty_def zero_Ctx_def)
qed

end
