(* ===== verification/Interceptor.thy ===== *)
theory Interceptor
  imports Wire Identity Registry Ctx
begin

text \<open>
  Interceptors and authorization (\<open>interceptor.go\<close>).  A call context is shared by pointer: an
  interceptor that changes it returns the changed one, and the chain hands that to the next.
  An interceptor is a record of its three methods over the shared world; interceptors do not
  panic.  The lemmas say that a chain runs \<open>Outbound\<close> for exactly the links that were entered,
  in reverse order, that authorization admits a call only with a permission its session
  holds, and that delegation never widens what a session may do.
\<close>

subsection \<open>Call contexts\<close>

record CallContext =
  cc_Call :: CallID
  cc_Method :: Method
  cc_Now :: gotime
  cc_Deadline :: gotime
  cc_Ctx :: Ctx
  cc_Session :: "Identity option"
  cc_OnBehalfOf :: "Identity option"
  cc_Permissions :: "string list"
  cc_Side :: Sender

definition newCallContext ::
  "CallID \<Rightarrow> Method \<Rightarrow> gotime \<Rightarrow> Ctx \<Rightarrow> Identity option \<Rightarrow> Sender \<Rightarrow> CallContext" where
  "newCallContext call m now ctx session side =
    (let context = \<lparr>cc_Call = call, cc_Method = m, cc_Now = now, cc_Deadline = 0, cc_Ctx = ctx,
           cc_Session = session, cc_OnBehalfOf = None, cc_Permissions = [], cc_Side = side\<rparr>
     in case session of
          None \<Rightarrow> context
        | Some s \<Rightarrow> context\<lparr>cc_Permissions := id_Permissions s\<rparr>)"

definition CallContext_HasDeadline :: "CallContext \<Rightarrow> bool" where
  "CallContext_HasDeadline c \<longleftrightarrow> \<not> IsZero (cc_Deadline c)"

definition CallContext_Permits :: "CallContext \<Rightarrow> string \<Rightarrow> bool" where
  "CallContext_Permits c permission = snd (BinarySearch (cc_Permissions c) permission)"

definition RemainingMs :: "CallContext \<Rightarrow> gotime \<Rightarrow> u32 \<times> bool" where
  "RemainingMs c now =
    (if \<not> CallContext_HasDeadline c then (0, False)
     else let left = Time_Sub (cc_Deadline c) now in
       if left \<le> 0 then (0, True)
       else (word_of_int (min (Milliseconds left) max_u32), True))"

definition OnwardCtx :: "CallContext \<Rightarrow> gotime \<Rightarrow> Ctx option" where
  "OnwardCtx c now =
    (case RemainingMs c now of (remaining, bounded) \<Rightarrow>
       if bounded \<and> remaining = 0 then None
       else Some (zero_Ctx\<lparr>DeadlineMs := remaining, TraceID := TraceID (cc_Ctx c),
                    SpanID := SpanID (cc_Ctx c), Tenant := Tenant (cc_Ctx c)\<rparr>))"

subsection \<open>Chains\<close>

record 'w Interceptor =
  ic_Outgoing :: "CallContext \<Rightarrow> 'w \<Rightarrow> Status option \<times> CallContext \<times> 'w"
  ic_Inbound :: "CallContext \<Rightarrow> 'w \<Rightarrow> Status option \<times> CallContext \<times> 'w"
  ic_Outbound :: "CallContext \<Rightarrow> Status option \<Rightarrow> 'w \<Rightarrow> CallContext \<times> 'w"

definition PassThrough :: "'w Interceptor" where
  "PassThrough = \<lparr>ic_Outgoing = (\<lambda>context w. (None, context, w)),
     ic_Inbound = (\<lambda>context w. (None, context, w)), ic_Outbound = (\<lambda>context _ w. (context, w))\<rparr>"

type_synonym 'w Chain = "'w Interceptor list"

definition Chain_Add :: "'w Interceptor \<Rightarrow> 'w Chain \<Rightarrow> 'w Chain" where
  "Chain_Add link links = links @ [link]"

definition Chain_Len :: "'w Chain \<Rightarrow> nat" where
  "Chain_Len links = length links"

text \<open>The loop of \<open>Outgoing\<close> and \<open>Inbound\<close>: the index of the link that rejects, or the length.\<close>

fun enter_links :: "('w Interceptor \<Rightarrow> CallContext \<Rightarrow> 'w \<Rightarrow> Status option \<times> CallContext \<times> 'w)
    \<Rightarrow> 'w Chain \<Rightarrow> nat \<Rightarrow> CallContext \<Rightarrow> 'w \<Rightarrow> nat \<times> Status option \<times> CallContext \<times> 'w" where
  "enter_links hook [] index context w = (index, None, context, w)"
| "enter_links hook (link # links) index context w =
    (case hook link context w of
       (Some rejection, context, w) \<Rightarrow> (index, Some rejection, context, w)
     | (None, context, w) \<Rightarrow> enter_links hook links (index + 1) context w)"

definition Chain_Outgoing ::
  "'w Chain \<Rightarrow> CallContext \<Rightarrow> 'w \<Rightarrow> nat \<times> Status option \<times> CallContext \<times> 'w" where
  "Chain_Outgoing links context w = enter_links ic_Outgoing links 0 context w"

definition Chain_Inbound ::
  "'w Chain \<Rightarrow> CallContext \<Rightarrow> 'w \<Rightarrow> nat \<times> Status option \<times> CallContext \<times> 'w" where
  "Chain_Inbound links context w = enter_links ic_Inbound links 0 context w"

text \<open>The loop of \<open>Outbound\<close>, from position \<open>n - 1\<close> down to \<open>0\<close>.\<close>

fun leave_links :: "'w Chain \<Rightarrow> nat \<Rightarrow> Status option \<Rightarrow> CallContext \<Rightarrow> 'w \<Rightarrow> CallContext \<times> 'w" where
  "leave_links links 0 status context w = (context, w)"
| "leave_links links (Suc index) status context w =
    (case ic_Outbound (links ! index) context status w of
       (context, w) \<Rightarrow> leave_links links index status context w)"

definition Chain_Outbound ::
  "'w Chain \<Rightarrow> nat \<Rightarrow> CallContext \<Rightarrow> Status option \<Rightarrow> 'w \<Rightarrow> 'w" where
  "Chain_Outbound links entered context status w =
    snd (leave_links links (min entered (length links)) status context w)"

subsection \<open>Authorization\<close>

type_synonym TokenVerifier = "string \<Rightarrow> Identity option"

record Authorization =
  au_exempt :: "u32 set"
  au_verifier :: "TokenVerifier option"
  au_allowDelegation :: bool

definition NewAuthorization :: Authorization where
  "NewAuthorization = \<lparr>au_exempt = {}, au_verifier = None, au_allowDelegation = False\<rparr>"

definition Exempting :: "u32 \<Rightarrow> Authorization \<Rightarrow> Authorization" where
  "Exempting requestID a = a\<lparr>au_exempt := insert requestID (au_exempt a)\<rparr>"

definition Verifying :: "TokenVerifier \<Rightarrow> Authorization \<Rightarrow> Authorization" where
  "Verifying verifier a = a\<lparr>au_verifier := Some verifier\<rparr>"

definition AllowingDelegation :: "Authorization \<Rightarrow> Authorization" where
  "AllowingDelegation a = a\<lparr>au_allowDelegation := True\<rparr>"

text \<open>The check that follows the credential: the permission of the method.\<close>

definition require_permission :: "CallContext \<Rightarrow> Status option" where
  "require_permission context =
    (let required = m_Permission (cc_Method context) in
     if required \<noteq> [] \<and> \<not> CallContext_Permits context required
     then Some (PermissionDenied (m_Name (cc_Method context) @ '' requires '' @ required))
     else None)"

definition Authorization_Inbound :: "Authorization \<Rightarrow> CallContext \<Rightarrow> Status option \<times> CallContext" where
  "Authorization_Inbound a context =
    (case cc_Session context of
       None \<Rightarrow>
         if m_RequestID (cc_Method context) \<in> au_exempt a then (None, context)
         else (Some (Unauthenticated ''the session has no identity''), context)
     | Some session \<Rightarrow>
         let context = context\<lparr>cc_Permissions := id_Permissions session\<rparr> in
         if Token (cc_Ctx context) \<noteq> [] then
           (case au_verifier a of
              None \<Rightarrow> (Some (Unauthenticated
                ''a per-call credential was presented but no verifier is installed''), context)
            | Some verifier \<Rightarrow>
                (case verifier (Token (cc_Ctx context)) of
                   None \<Rightarrow> (Some (Unauthenticated ''the per-call credential did not verify''), context)
                 | Some presented \<Rightarrow>
                     if id_Principal presented \<noteq> id_Principal session then
                       if \<not> au_allowDelegation a then
                         (Some (PermissionDenied
                           ''a per-call credential may not replace the session identity''), context)
                       else let context = context\<lparr>cc_Permissions := NarrowedBy session presented,
                                  cc_OnBehalfOf := Some presented\<rparr> in
                         (require_permission context, context)
                     else (require_permission context, context)))
         else (require_permission context, context))"

definition Authorization_link :: "Authorization \<Rightarrow> 'w Interceptor" where
  "Authorization_link a = PassThrough\<lparr>ic_Inbound := \<lambda>context w.
     (case Authorization_Inbound a context of (status, context) \<Rightarrow> (status, context, w))\<rparr>"

subsection \<open>Contexts\<close>

lemma Milliseconds_le: "0 \<le> d \<Longrightarrow> 0 \<le> Milliseconds d \<and> Milliseconds d * 1000000 \<le> d"
  using div_mult_mod_eq [of d 1000000] pos_mod_sign [of 1000000 d]
  by (simp add: Milliseconds_def pos_imp_zdiv_nonneg_iff)

text \<open>What is left of a deadline, in milliseconds, never exceeds it.\<close>

lemma RemainingMs_bound:
  assumes "RemainingMs c now = (ms, True)" and "now \<le> cc_Deadline c"
  shows "int (unat ms) * 1000000 \<le> cc_Deadline c - now"
proof (cases "0 < Time_Sub (cc_Deadline c) now")
  case True
  let ?m = "min (Milliseconds (Time_Sub (cc_Deadline c) now)) max_u32"
  have ms: "ms = word_of_int ?m" using assms(1) True
    by (auto simp: RemainingMs_def Let_def split: if_splits)
  have b: "0 \<le> ?m" "?m < 2 ^ 32" using Milliseconds_le True by auto
  then have "int (unat ms) = ?m"
    unfolding ms by (simp add: uint_word_of_int_eq take_bit_int_eq_self)
  moreover have "?m * 1000000 \<le> Time_Sub (cc_Deadline c) now"
    using Milliseconds_le [of "Time_Sub (cc_Deadline c) now"] True by linarith
  moreover have "Time_Sub (cc_Deadline c) now \<le> cc_Deadline c - now"
    using assms(2) by (simp add: Time_Sub_def min_i64_def)
  ultimately show ?thesis by linarith
next
  case False
  then have "ms = 0" using assms(1) by (auto simp: RemainingMs_def Let_def split: if_splits)
  with assms(2) show ?thesis by simp
qed

text \<open>An onward call carries no credential and no key of its origin, and a deadline that is not
  later.\<close>

lemma OnwardCtx_carries:
  assumes "OnwardCtx c now = Some ctx"
  shows "Token ctx = [] \<and> IdempotencyKey ctx = [] \<and> InitialCredit ctx = 0
    \<and> TraceID ctx = TraceID (cc_Ctx c) \<and> SpanID ctx = SpanID (cc_Ctx c) \<and> Tenant ctx = Tenant (cc_Ctx c)
    \<and> (CallContext_HasDeadline c \<longleftrightarrow> Ctx_HasDeadline ctx)"
  using assms
  by (auto simp: OnwardCtx_def zero_Ctx_def Ctx_HasDeadline_def RemainingMs_def Let_def
      split: if_splits prod.splits)

subsection \<open>Chains enter and leave in order\<close>

text \<open>Links that only count: each records the position at which it is entered or left.\<close>

definition tracing :: "nat \<Rightarrow> Status option \<Rightarrow> (nat list \<times> nat list) Interceptor" where
  "tracing n answer =
    \<lparr>ic_Outgoing = (\<lambda>context (i, out). (answer, context, i @ [n], out)),
     ic_Inbound = (\<lambda>context (i, out). (answer, context, i @ [n], out)),
     ic_Outbound = (\<lambda>context _ (i, out). (context, i, out @ [n]))\<rparr>"

lemma enter_links_entered:
  assumes "enter_links hook links index context w = (entered, r, context', w')"
  shows "index \<le> entered \<and> entered \<le> index + length links
    \<and> (r = None \<longleftrightarrow> entered = index + length links)"
  using assms
proof (induction links arbitrary: index "context" w)
  case (Cons l ls)
  obtain x c v where h: "hook l context w = (x, c, v)" by (cases "hook l context w") auto
  show ?case
  proof (cases x)
    case None
    with Cons.prems h have "enter_links hook ls (index + 1) c v = (entered, r, context', w')" by simp
    from Cons.IH [OF this] show ?thesis by auto
  next
    case (Some s)
    with Cons.prems h show ?thesis by auto
  qed
qed auto

lemma Chain_Inbound_entered:
  "Chain_Inbound links context w = (entered, r, context', w') \<Longrightarrow>
    entered \<le> length links \<and> (r = None \<longleftrightarrow> entered = length links)"
  unfolding Chain_Inbound_def by (drule enter_links_entered) simp

lemma Chain_Outgoing_entered:
  "Chain_Outgoing links context w = (entered, r, context', w') \<Longrightarrow>
    entered \<le> length links \<and> (r = None \<longleftrightarrow> entered = length links)"
  unfolding Chain_Outgoing_def by (drule enter_links_entered) simp

text \<open>\<open>Outbound\<close> is the composition of the entered links' hooks, last entered first.\<close>

lemma leave_links_fold:
  "n \<le> length links \<Longrightarrow> leave_links links n status context w =
    fold (\<lambda>link (context, w). ic_Outbound link context status w) (rev (take n links)) (context, w)"
proof (induction n arbitrary: "context" w)
  case (Suc n)
  then have "rev (take (Suc n) links) = links ! n # rev (take n links)"
    by (simp add: take_Suc_conv_app_nth)
  with Suc show ?case by (simp split: prod.splits)
qed simp

lemma Chain_Outbound_fold:
  "Chain_Outbound links entered context status w =
    snd (fold (\<lambda>link (context, w). ic_Outbound link context status w)
      (rev (take entered links)) (context, w))"
  by (simp add: Chain_Outbound_def leave_links_fold min_def)

subsection \<open>Authorization\<close>

lemma Permits_sorted:
  "sorted (cc_Permissions c) \<Longrightarrow> CallContext_Permits c p \<longleftrightarrow> p \<in> set (cc_Permissions c)"
  by (simp add: CallContext_Permits_def perms.find_iff)

lemma Authorization_admits:
  assumes "Authorization_Inbound a context = (None, context')"
    and "cc_Session context = Some session"
  shows "cc_Permissions context' = id_Permissions session \<and> cc_OnBehalfOf context' = cc_OnBehalfOf context
      \<or> (\<exists>presented. au_allowDelegation a \<and> cc_OnBehalfOf context' = Some presented
          \<and> cc_Permissions context' = NarrowedBy session presented)"
    and "m_Permission (cc_Method context) \<noteq> [] \<Longrightarrow>
      CallContext_Permits context' (m_Permission (cc_Method context))"
    and "cc_Method context' = cc_Method context"
  using assms
  by (auto simp: Authorization_Inbound_def Let_def require_permission_def
      split: if_splits option.splits)

text \<open>The identity a call acts for: the verifier gave it for the token of the call, it is another than
  the session's and delegation is allowed, and the call runs with the permissions that both have,
  the required one among them.\<close>

lemma Authorization_delegates:
  assumes "Authorization_Inbound a context = (None, context')"
    and "cc_Session context = Some session" and "cc_OnBehalfOf context = None"
  shows "case cc_OnBehalfOf context' of
      None \<Rightarrow> cc_Permissions context' = id_Permissions session
    | Some presented \<Rightarrow> au_allowDelegation a
        \<and> (\<exists>verifier. au_verifier a = Some verifier \<and> verifier (Token (cc_Ctx context)) = Some presented)
        \<and> id_Principal presented \<noteq> id_Principal session
        \<and> cc_Permissions context' = NarrowedBy session presented"
  using assms
  by (auto simp: Authorization_Inbound_def Let_def require_permission_def
      split: if_splits option.splits)

text \<open>An admitted call holds the permission its method requires, the session has that permission
  too, and the permissions it runs with are among the session's.\<close>

lemma Authorization_sound:
  assumes "Authorization_Inbound a context = (None, context')"
    and "cc_Session context = Some session" and "identity_ok session"
  shows "set (cc_Permissions context') \<subseteq> set (id_Permissions session)"
    and "m_Permission (cc_Method context) \<noteq> [] \<Longrightarrow>
      m_Permission (cc_Method context) \<in> set (cc_Permissions context')"
proof -
  note admits = Authorization_admits [OF assms(1,2)]
  show "set (cc_Permissions context') \<subseteq> set (id_Permissions session)"
    using admits(1) by (auto simp: NarrowedBy_def)
  have "sorted (cc_Permissions context')"
    using admits(1) assms(3) NarrowedBy_sorted by (auto simp: identity_ok_def)
  with admits(2) show "m_Permission (cc_Method context) \<noteq> [] \<Longrightarrow>
      m_Permission (cc_Method context) \<in> set (cc_Permissions context')"
    by (simp add: Permits_sorted)
qed

end
