(* ===== verification/Retry.thy ===== *)
theory Retry
  imports Registry
begin

text \<open>
  Retry decisions (\<open>retry.go\<close>).  A duration is a 64-bit count of nanoseconds, so the scaling of
  the backoff wraps around; \<open>BackoffFor\<close> keeps that.  The lemmas say that a retry is offered
  only where repeating the call is safe and there is time and an attempt left, that the
  number of attempts is bounded, and that the backoff is exact and within its ceiling unless
  the initial backoff is so long that the scaling overflows.
\<close>

record RetryPolicy =
  rp_MaxAttempts :: int
  rp_InitialBackoff :: duration
  rp_MaxBackoff :: duration
  rp_Retryable :: "bool gomap"

text \<open>A look-up in \<open>map[uint32]bool\<close>: false if the key is missing.\<close>

definition retryable_code :: "RetryPolicy \<Rightarrow> u32 \<Rightarrow> bool" where
  "retryable_code p code = (case fmlookup (rp_Retryable p) code of None \<Rightarrow> False | Some v \<Rightarrow> v)"

definition DefaultRetryPolicy :: RetryPolicy where
  "DefaultRetryPolicy = \<lparr>rp_MaxAttempts = 3, rp_InitialBackoff = 50 * Millisecond,
     rp_MaxBackoff = 2 * Second,
     rp_Retryable = fmupd CodeUnavailable True (fmupd CodeResourceExhausted True fmempty)\<rparr>"

definition NeverRetry :: RetryPolicy where
  "NeverRetry = \<lparr>rp_MaxAttempts = 1, rp_InitialBackoff = 0, rp_MaxBackoff = 0,
     rp_Retryable = fmempty\<rparr>"

definition BackoffFor :: "RetryPolicy \<Rightarrow> int \<Rightarrow> duration" where
  "BackoffFor p attempt =
    (let doubling = min (max (attempt - 1) 0) 16;
         scaled = wrap_i64 (rp_InitialBackoff p * 2 ^ nat doubling)
     in min scaled (rp_MaxBackoff p))"

datatype GiveUp = GiveUpNotRetryable | GiveUpUnsafeToRepeat | GiveUpAttemptsExhausted
  | GiveUpBudgetExhausted | GiveUpStreamingCall

record RetryDecision =
  rd_Retry :: bool
  rd_RetryAt :: gotime
  rd_Reason :: GiveUp

text \<open>\<open>RetryDecision{Reason: r}\<close>, and the decision to retry, whose reason is the zero value.\<close>

definition give_up :: "GiveUp \<Rightarrow> RetryDecision" where
  "give_up r = \<lparr>rd_Retry = False, rd_RetryAt = 0, rd_Reason = r\<rparr>"

definition retry_at :: "gotime \<Rightarrow> RetryDecision" where
  "retry_at t = \<lparr>rd_Retry = True, rd_RetryAt = t, rd_Reason = GiveUpNotRetryable\<rparr>"

record RetryState =
  rs_attempt :: int
  rs_deadline :: gotime

definition NewRetryState :: "gotime \<Rightarrow> duration \<Rightarrow> RetryState" where
  "NewRetryState now budget =
    (let state = \<lparr>rs_attempt = 1, rs_deadline = 0\<rparr> in
     if budget > 0 then state\<lparr>rs_deadline := Time_Add now budget\<rparr> else state)"

definition RetryState_Deadline :: "RetryState \<Rightarrow> gotime \<times> bool" where
  "RetryState_Deadline s = (rs_deadline s, \<not> IsZero (rs_deadline s))"

definition Remaining :: "RetryState \<Rightarrow> gotime \<Rightarrow> duration \<times> bool" where
  "Remaining s now =
    (if IsZero (rs_deadline s) then (0, False)
     else (max (Time_Sub (rs_deadline s) now) 0, True))"

definition OnFailure ::
  "RetryPolicy \<Rightarrow> Status \<Rightarrow> Method \<Rightarrow> gotime \<Rightarrow> RetryState \<Rightarrow> RetryDecision \<times> RetryState" where
  "OnFailure policy status m now s =
    (if m_Shape m \<noteq> ShapeUnary then (give_up GiveUpStreamingCall, s)
     else if \<not> retryable_code policy (st_Code status) then (give_up GiveUpNotRetryable, s)
     else if st_Code status = CodeUnavailable \<and> \<not> SurvivesUnknownOutcome (m_RetrySafety m)
     then (give_up GiveUpUnsafeToRepeat, s)
     else if rs_attempt s \<ge> rp_MaxAttempts policy then (give_up GiveUpAttemptsExhausted, s)
     else let backoff = BackoffFor policy (rs_attempt s) in
       if \<not> IsZero (rs_deadline s) \<and> \<not> Before (Time_Add now backoff) (rs_deadline s)
       then (give_up GiveUpBudgetExhausted, s)
       else (retry_at (Time_Add now backoff), s\<lparr>rs_attempt := rs_attempt s + 1\<rparr>))"

subsection \<open>The backoff\<close>

lemma wrap_i64_id: "min_i64 \<le> x \<Longrightarrow> x \<le> max_i64 \<Longrightarrow> wrap_i64 x = x"
  by (simp add: wrap_i64_def min_i64_def max_i64_def)

lemma BackoffFor_le: "BackoffFor p n \<le> rp_MaxBackoff p"
  by (simp add: BackoffFor_def Let_def)

text \<open>Below about 39 hours the initial backoff doubles exactly, sixteen times at most.\<close>

lemma BackoffFor_exact:
  assumes "0 \<le> rp_InitialBackoff p" and "rp_InitialBackoff p \<le> max_i64 div 65536"
  shows "BackoffFor p n = min (rp_InitialBackoff p * 2 ^ nat (min (max (n - 1) 0) 16)) (rp_MaxBackoff p)"
proof -
  define k where "k = nat (min (max (n - 1) 0) 16)"
  have "(2 :: int) ^ k \<le> 2 ^ 16" unfolding k_def by (rule power_increasing) auto
  then have "rp_InitialBackoff p * 2 ^ k \<le> rp_InitialBackoff p * 65536"
    using assms(1) by (intro mult_left_mono) simp_all
  also have "\<dots> \<le> max_i64" using assms(2) by (simp add: max_i64_def)
  finally have "wrap_i64 (rp_InitialBackoff p * 2 ^ k) = rp_InitialBackoff p * 2 ^ k"
    using assms(1) by (intro wrap_i64_id) (auto simp: min_i64_def intro: order_trans [of _ 0])
  then show ?thesis by (simp add: BackoffFor_def Let_def k_def)
qed

text \<open>Beyond that the product wraps around: after sixteen failures an initial backoff of 40 hours
  is a negative duration, which makes the retry due at once.\<close>

lemma BackoffFor_wraps:
  "BackoffFor \<lparr>rp_MaxAttempts = 100, rp_InitialBackoff = 40 * 3600 * Second,
     rp_MaxBackoff = 48 * 3600 * Second, rp_Retryable = fmempty\<rparr> 17 < 0"
  by (simp add: BackoffFor_def Let_def wrap_i64_def)

lemma BackoffFor_nonneg:
  assumes "0 \<le> rp_InitialBackoff p" and "rp_InitialBackoff p \<le> max_i64 div 65536"
    and "0 \<le> rp_MaxBackoff p"
  shows "0 \<le> BackoffFor p n"
  using assms by (simp add: BackoffFor_exact)

subsection \<open>Decisions\<close>

lemma OnFailure_retry_iff:
  "rd_Retry (fst (OnFailure policy status m now s)) \<longleftrightarrow>
    m_Shape m = ShapeUnary \<and> retryable_code policy (st_Code status)
    \<and> (st_Code status = CodeUnavailable \<longrightarrow> SurvivesUnknownOutcome (m_RetrySafety m))
    \<and> rs_attempt s < rp_MaxAttempts policy
    \<and> (rs_deadline s = 0 \<or> now + BackoffFor policy (rs_attempt s) < rs_deadline s)"
  by (auto simp: OnFailure_def give_up_def retry_at_def Let_def)

lemma OnFailure_effect:
  assumes "OnFailure policy status m now s = (d, s')"
  shows "rs_deadline s' = rs_deadline s"
    and "rd_Retry d \<Longrightarrow> rs_attempt s' = rs_attempt s + 1
      \<and> rd_RetryAt d = now + BackoffFor policy (rs_attempt s)"
    and "\<not> rd_Retry d \<Longrightarrow> s' = s"
  using assms by (auto simp: OnFailure_def give_up_def retry_at_def Let_def split: if_splits)

text \<open>The whole life of a retry state: the failures it hears, and how many retries it grants.\<close>

fun retries :: "RetryPolicy \<Rightarrow> Method \<Rightarrow> (Status \<times> gotime) list \<Rightarrow> RetryState \<Rightarrow> nat" where
  "retries policy m [] s = 0"
| "retries policy m ((status, now) # failures) s =
    (case OnFailure policy status m now s of (d, s) \<Rightarrow>
       (if rd_Retry d then 1 else 0) + retries policy m failures s)"

lemma retries_bound:
  "rs_attempt s + int (retries policy m failures s) \<le> max (rs_attempt s) (rp_MaxAttempts policy)"
proof (induction failures arbitrary: s)
  case (Cons f failures)
  obtain status now where f: "f = (status, now)" by fastforce
  obtain d s' where d: "OnFailure policy status m now s = (d, s')" by fastforce
  show ?case
  proof (cases "rd_Retry d")
    case True
    then have "rs_attempt s < rp_MaxAttempts policy"
      using OnFailure_retry_iff [of policy status m now s] d by simp
    then show ?thesis
      using Cons.IH [of s'] OnFailure_effect(2) [OF d True] True f d by simp
  next
    case False
    then show ?thesis using Cons.IH [of s'] OnFailure_effect(3) [OF d False] f d by simp
  qed
qed simp

end
