(* ===== verification/Compression.thy ===== *)
theory Compression
  imports Prelude
begin

text \<open>
  Compression (\<open>compression.go\<close>).  The \<open>Compressor\<close> interface is a record of its two methods.  The
  inflater of the standard library is a parameter: a reader state, and one \<open>Read\<close> that gives
  the bytes it put into the chunk, what ended the read, and the next state.  \<open>Decompress\<close> is
  the loop of the source over it; it is a partial function, because a reader that never ends
  keeps it running.  The writer of the library is a parameter too: a state that can be made,
  written to and closed, each with an error or without, and the bytes it has put into the buffer.
  The lemmas bound what it returns and what it ever holds, and give its
  termination for a reader that makes progress.
\<close>

datatype CompressError = ErrMalformedBody | ErrExceedsLimit

record Compressor =
  co_Compress :: "bytes \<Rightarrow> bytes option"
  co_Decompress :: "bytes \<Rightarrow> int \<Rightarrow> CompressError + bytes"

text \<open>The error of a \<open>Read\<close>: none, \<open>io.EOF\<close>, or another.\<close>

datatype ReadError = ReadOK | ReadEOF | ReadFailed

definition inflateChunk :: nat where
  "inflateChunk = 16 * 1024"

type_synonym 'r inflater = "'r \<Rightarrow> bytes \<times> ReadError \<times> 'r"

partial_function (option) inflate_loop ::
  "'r inflater \<Rightarrow> int \<Rightarrow> bytes \<Rightarrow> 'r \<Rightarrow> (CompressError + bytes) option" where
  "inflate_loop Read limit out reader =
    (case Read reader of (chunk, err, reader) \<Rightarrow>
       if int (length out) + int (length chunk) > limit then Some (Inl ErrExceedsLimit)
       else if err = ReadEOF then Some (Inr (out @ chunk))
       else if err = ReadFailed then Some (Inl ErrMalformedBody)
       else inflate_loop Read limit (out @ chunk) reader)"

definition Deflate_Decompress ::
  "(bytes \<Rightarrow> 'r) \<Rightarrow> 'r inflater \<Rightarrow> bytes \<Rightarrow> int \<Rightarrow> (CompressError + bytes) option" where
  "Deflate_Decompress NewReader Read body limit = inflate_loop Read limit [] (NewReader body)"

record 'z Deflater =
  fl_NewWriter :: "'z option"
  fl_Write :: "bytes \<Rightarrow> 'z \<Rightarrow> bool \<times> 'z"
  fl_Close :: "'z \<Rightarrow> bool \<times> 'z"
  fl_Out :: "'z \<Rightarrow> bytes"

definition Deflate_Compress :: "'z Deflater \<Rightarrow> bytes \<Rightarrow> bytes option" where
  "Deflate_Compress lib body =
    (case fl_NewWriter lib of
       None \<Rightarrow> None
     | Some writer \<Rightarrow>
         (case fl_Write lib body writer of (ok, writer) \<Rightarrow>
            if \<not> ok then None
            else (case fl_Close lib writer of (ok, writer) \<Rightarrow>
              if \<not> ok then None else Some (fl_Out lib writer))))"

text \<open>Whatever the reader does, what comes out is within the limit.\<close>

lemma inflate_loop_within:
  assumes "inflate_loop Read limit out reader = Some (Inr b)"
  shows "int (length b) \<le> limit"
proof -
  have "\<forall>b. x = Inr b \<longrightarrow> int (length b) \<le> limit"
    if "inflate_loop Read limit out reader = Some x" for x
    using that
  proof (rule inflate_loop.raw_induct [rotated])
    fix f :: "'a inflater \<Rightarrow> int \<Rightarrow> bytes \<Rightarrow> 'a \<Rightarrow> (CompressError + bytes) option"
    fix Read limit out reader x
    assume IH: "\<And>Read limit out reader x. f Read limit out reader = Some x \<Longrightarrow>
        \<forall>b. x = Inr b \<longrightarrow> int (length b) \<le> limit"
      and eq: "(case Read reader of (chunk, err, reader) \<Rightarrow>
         if int (length out) + int (length chunk) > limit then Some (Inl ErrExceedsLimit)
         else if err = ReadEOF then Some (Inr (out @ chunk))
         else if err = ReadFailed then Some (Inl ErrMalformedBody)
         else f Read limit (out @ chunk) reader) = Some x"
    obtain chunk err reader' where "Read reader = (chunk, err, reader')" by (cases "Read reader") auto
    with eq IH show "\<forall>b. x = Inr b \<longrightarrow> int (length b) \<le> limit"
      by (auto split: if_splits)
  qed
  with assms show ?thesis by blast
qed

text \<open>A reader with a measure that falls as long as it goes on: the loop returns.\<close>

lemma inflate_loop_returns:
  assumes "\<And>r chunk r'. Read r = (chunk, ReadOK, r') \<Longrightarrow> (m r' :: nat) < m r"
  shows "\<exists>x. inflate_loop Read limit out reader = Some x"
proof (induction "m reader" arbitrary: out reader rule: less_induct)
  case less
  obtain chunk err reader' where r: "Read reader = (chunk, err, reader')" by (cases "Read reader") auto
  show ?case
  proof (cases err)
    case ReadOK
    with r assms have "m reader' < m reader" by blast
    from less [OF this, of "out @ chunk"] r ReadOK show ?thesis by (subst inflate_loop.simps) auto
  qed (use r in \<open>subst inflate_loop.simps; simp\<close>)+
qed

text \<open>What a reader gives until its end, which may come with the last bytes.\<close>

inductive reads_to :: "'r inflater \<Rightarrow> 'r \<Rightarrow> bytes \<Rightarrow> bool" for Read where
  last: "Read r = (chunk, ReadEOF, r') \<Longrightarrow> reads_to Read r chunk"
| more: "Read r = (chunk, ReadOK, r') \<Longrightarrow> reads_to Read r' rest \<Longrightarrow> reads_to Read r (chunk @ rest)"

text \<open>The loop gives what the reader gives if that is within the limit, and fails else.\<close>

lemma inflate_loop_reads:
  assumes "reads_to Read reader b"
  shows "inflate_loop Read limit out reader =
    Some (if int (length out + length b) \<le> limit then Inr (out @ b) else Inl ErrExceedsLimit)"
  using assms
proof (induction arbitrary: out rule: reads_to.induct)
  case (last r chunk r')
  then show ?case by (subst inflate_loop.simps) simp
next
  case (more r chunk r' rest)
  show ?case
  proof (cases "int (length out) + int (length chunk) > limit")
    case True
    with more.hyps(1) show ?thesis by (subst inflate_loop.simps) auto
  next
    case False
    with more.IH [of "out @ chunk"] more.hyps(1) show ?thesis
      by (subst inflate_loop.simps) (auto simp: add.assoc)
  qed
qed

text \<open>The library is lossless: what its writer makes of a body, its reader gives back.\<close>

definition lossless :: "'z Deflater \<Rightarrow> (bytes \<Rightarrow> 'r) \<Rightarrow> 'r inflater \<Rightarrow> bool" where
  "lossless lib NewReader Read \<longleftrightarrow>
    (\<forall>body squeezed. Deflate_Compress lib body = Some squeezed \<longrightarrow> reads_to Read (NewReader squeezed) body)"

text \<open>A compressor whose methods are those of \<open>DeflateCompressor\<close> over the library.\<close>

definition deflates :: "'z Deflater \<Rightarrow> (bytes \<Rightarrow> 'r) \<Rightarrow> 'r inflater \<Rightarrow> Compressor \<Rightarrow> bool" where
  "deflates lib NewReader Read compressor \<longleftrightarrow> co_Compress compressor = Deflate_Compress lib
    \<and> (\<forall>body limit result. Deflate_Decompress NewReader Read body limit = Some result
         \<longrightarrow> co_Decompress compressor body limit = result)"

lemma decompress_compressed:
  assumes "lossless lib NewReader Read" and "deflates lib NewReader Read compressor"
    and "co_Compress compressor body = Some squeezed"
  shows "co_Decompress compressor squeezed limit
    = (if int (length body) \<le> limit then Inr body else Inl ErrExceedsLimit)"
proof -
  have "reads_to Read (NewReader squeezed) body" using assms by (auto simp: lossless_def deflates_def)
  from inflate_loop_reads [OF this, of limit "[]"] assms(2) show ?thesis
    by (auto simp: deflates_def Deflate_Decompress_def split: if_splits)
qed

text \<open>A reader over a list of chunks.\<close>

definition list_reader :: "bytes list inflater" where
  "list_reader cs = (case cs of [] \<Rightarrow> ([], ReadEOF, []) | c # cs \<Rightarrow> (c, ReadOK, cs))"

lemma list_reader_simps: "list_reader [] = ([], ReadEOF, [])" "list_reader (c # cs) = (c, ReadOK, cs)"
  by (simp_all add: list_reader_def)

lemma list_reader_reads: "reads_to list_reader cs (concat cs)"
proof (induction cs)
  case Nil
  show ?case using reads_to.last [of list_reader "[]" "[]" "[]"] by (simp add: list_reader_simps)
next
  case (Cons c cs)
  from reads_to.more [of list_reader "c # cs" c cs, OF _ this] show ?case by (simp add: list_reader_simps)
qed

end
