(* ===== verification/Core.thy ===== *)
theory Core
  imports Outbox CallIds Interceptor Compression
begin

text \<open>
  The core (\<open>core.go\<close>): one end of a session, with the calls it has made (\<open>pending\<close>), the calls it
  serves (\<open>inflight\<close>), the outbox, the outcomes it has to report, and the chain of interceptors.
  Every method of \<open>Core\<close> is a function from the core to the core, with the state of the world
  that handlers and interceptors share in the field \<open>c_world\<close>.  A record reached through a map
  of pointers is read, changed and put back at its key.  Loops over the keys of a map run over
  \<open>sortedKeys\<close>, as in the source.  Handlers and interceptors do not call back into the core.
\<close>

subsection \<open>Configuration\<close>

definition MaxBodyCeiling :: int where
  "MaxBodyCeiling = 16 * 1024 * 1024 - int HeaderLen"

record Config =
  MaxPending :: int
  MaxCallQueue :: int
  MaxConnectionQueue :: int
  SchedulerQuantum :: int
  MaxCtxLen :: int
  MaxBodyLen :: int
  HandlerLimit :: duration
  QueueFullLimit :: duration
  CompressAbove :: int

definition DefaultConfig :: Config where
  "DefaultConfig = \<lparr>MaxPending = 65536, MaxCallQueue = 64, MaxConnectionQueue = 1024,
     SchedulerQuantum = 64 * 1024, MaxCtxLen = 64 * 1024, MaxBodyLen = MaxBodyCeiling,
     HandlerLimit = 30 * Second, QueueFullLimit = 5 * Second, CompressAbove = 1024\<rparr>"

text \<open>Each \<open>if c.X <= 0 { c.X = defaults.X }\<close> of the source is the update of the field \<open>X\<close>.\<close>

definition normalized :: "Config \<Rightarrow> Config" where
  "normalized c =
    (let defaults = DefaultConfig in
     c\<lparr>MaxPending := (if MaxPending c \<le> 0 then MaxPending defaults else MaxPending c),
       MaxCallQueue := (if MaxCallQueue c \<le> 0 then MaxCallQueue defaults
          else MaxCallQueue c),
       MaxConnectionQueue := (if MaxConnectionQueue c \<le> 0 then MaxConnectionQueue defaults
          else MaxConnectionQueue c),
       SchedulerQuantum := (if SchedulerQuantum c \<le> 0 then SchedulerQuantum defaults
          else SchedulerQuantum c),
       MaxCtxLen := (if MaxCtxLen c \<le> 0 then MaxCtxLen defaults else MaxCtxLen c),
       MaxBodyLen := (if MaxBodyLen c \<le> 0 \<or> MaxBodyLen c > MaxBodyCeiling then MaxBodyLen defaults
          else MaxBodyLen c),
       HandlerLimit := (if HandlerLimit c \<le> 0 then HandlerLimit defaults
          else HandlerLimit c),
       QueueFullLimit := (if QueueFullLimit c \<le> 0 then QueueFullLimit defaults
          else QueueFullLimit c),
       CompressAbove := (if CompressAbove c \<le> 0 then CompressAbove defaults
          else CompressAbove c)\<rparr>)"

text \<open>The errors a caller sees; \<open>ErrStatus\<close> is the status of an interceptor that rejects a call.\<close>

datatype CallError = ErrNotReady | ErrUnknownMethod | ErrUnknownCall | ErrWrongShape
  | ErrSendClosed | ErrNoCredit | ErrCreditUnsupported | ErrTooManyPending | ErrCongested
  | ErrBodyTooLarge | ErrCtxTooLarge | ErrCallIDExhausted | ErrStatus Status

subsection \<open>Outcomes and call options\<close>

datatype OutcomeKind = OutcomeResponse | OutcomeItem | OutcomeEnd | OutcomeFailed

fun OutcomeKind_String :: "OutcomeKind \<Rightarrow> string" where
  "OutcomeKind_String OutcomeResponse = ''response''"
| "OutcomeKind_String OutcomeItem = ''item''"
| "OutcomeKind_String OutcomeEnd = ''end''"
| "OutcomeKind_String OutcomeFailed = ''failed''"

record Outcome =
  o_Kind :: OutcomeKind
  o_Call :: CallID
  o_Body :: bytes
  o_Status :: "Status option"

definition Outcome_Terminates :: "Outcome \<Rightarrow> bool" where
  "Outcome_Terminates out \<longleftrightarrow> o_Kind out \<noteq> OutcomeItem"

text \<open>\<open>fmt\<close> prints a nil status as \<open><nil>\<close>.\<close>

definition Outcome_String :: "Outcome \<Rightarrow> string" where
  "Outcome_String out =
    (case o_Kind out of
       OutcomeFailed \<Rightarrow> CallID_String (o_Call out) @ '' failed: ''
         @ (case o_Status out of None \<Rightarrow> ''<nil>'' | Some status \<Rightarrow> Status_Error status)
     | OutcomeEnd \<Rightarrow> CallID_String (o_Call out) @ '' ended''
     | _ \<Rightarrow> CallID_String (o_Call out) @ '' '' @ OutcomeKind_String (o_Kind out) @ '' of ''
         @ fmt_d (length (o_Body out)) @ '' bytes'')"

definition failed :: "CallID \<Rightarrow> Status \<Rightarrow> Outcome" where
  "failed call status = \<lparr>o_Kind = OutcomeFailed, o_Call = call, o_Body = [], o_Status = Some status\<rparr>"

record CallOptions =
  Deadline :: duration

definition DefaultCallOptions :: CallOptions where
  "DefaultCallOptions = \<lparr>Deadline = 5 * Second\<rparr>"

definition Within :: "duration \<Rightarrow> CallOptions" where
  "Within deadline = \<lparr>Deadline = deadline\<rparr>"

definition WithoutDeadline :: CallOptions where
  "WithoutDeadline = \<lparr>Deadline = 0\<rparr>"

subsection \<open>State\<close>

record waiting =
  w_context :: CallContext
  w_entered :: nat
  w_requestID :: u32
  w_itemID :: u32
  w_replyID :: u32
  w_shape :: Shape
  w_deadline :: gotime
  w_sendClosed :: bool
  w_credit :: u32
  w_established :: bool

record 'w running =
  r_handler :: "'w Handler"
  r_itemID :: u32
  r_replyID :: u32
  r_shape :: Shape
  r_limit :: gotime
  r_idleLimit :: duration
  r_lastHeard :: gotime
  r_inboundClosed :: bool
  r_credit :: u32
  r_established :: bool
  r_fullSince :: gotime
  r_context :: CallContext
  r_entered :: nat

definition starved :: "'w running \<Rightarrow> bool" where
  "starved r \<longleftrightarrow> r_established r \<and> r_credit r = 0"

definition earlier :: "gotime \<Rightarrow> gotime \<Rightarrow> gotime" where
  "earlier current candidate =
    (if IsZero candidate then current
     else if IsZero current \<or> Before candidate current then candidate
     else current)"

definition nextExpiry :: "'w running \<Rightarrow> gotime" where
  "nextExpiry r =
    (let idle = (if r_idleLimit r > 0 then Time_Add (r_lastHeard r) (r_idleLimit r) else 0)
     in earlier (r_limit r) idle)"

record 'w Core =
  c_registry :: "'w Registry"
  c_config :: Config
  c_ids :: CallIDAllocator
  c_pending :: "waiting gomap"
  c_inflight :: "'w running gomap"
  c_outbox :: Outbox
  c_outcomes :: "Outcome list"
  c_chain :: "'w Chain"
  c_compressor :: "Compressor option"
  c_identity :: "Identity option"
  c_ready :: bool
  c_finished :: bool
  c_world :: 'w

definition NewCore :: "'w Registry \<Rightarrow> Role \<Rightarrow> Config \<Rightarrow> 'w \<Rightarrow> 'w Core" where
  "NewCore registry role config w =
    (let config = normalized config in
     \<lparr>c_registry = registry, c_config = config, c_ids = NewCallIDAllocator role,
      c_pending = fmempty, c_inflight = fmempty,
      c_outbox = NewOutbox (MaxCallQueue config) (MaxConnectionQueue config) (SchedulerQuantum config),
      c_outcomes = [], c_chain = [], c_compressor = None, c_identity = None, c_ready = False,
      c_finished = False, c_world = w\<rparr>)"

definition Core_Role :: "'w Core \<Rightarrow> Role" where
  "Core_Role c = al_role (c_ids c)"

definition PendingCount :: "'w Core \<Rightarrow> nat" where
  "PendingCount c = map_len (c_pending c)"

definition InflightCount :: "'w Core \<Rightarrow> nat" where
  "InflightCount c = map_len (c_inflight c)"

definition QueuedFrames :: "'w Core \<Rightarrow> int" where
  "QueuedFrames c = Outbox_Len (c_outbox c)"

definition HasUnsentFrames :: "'w Core \<Rightarrow> bool" where
  "HasUnsentFrames c \<longleftrightarrow> \<not> Outbox_Empty (c_outbox c)"

definition SetCompressor :: "Compressor option \<Rightarrow> 'w Core \<Rightarrow> 'w Core" where
  "SetCompressor compressor c = c\<lparr>c_compressor := compressor\<rparr>"

definition AddInterceptor :: "'w Interceptor \<Rightarrow> 'w Core \<Rightarrow> 'w Core" where
  "AddInterceptor link c = c\<lparr>c_chain := Chain_Add link (c_chain c)\<rparr>"

definition Authenticate :: "Identity option \<Rightarrow> 'w Core \<Rightarrow> 'w Core" where
  "Authenticate identity c = c\<lparr>c_identity := identity\<rparr>"

definition ClearIdentity :: "'w Core \<Rightarrow> 'w Core" where
  "ClearIdentity c = c\<lparr>c_identity := None\<rparr>"

definition PendingRequestID :: "CallID \<Rightarrow> 'w Core \<Rightarrow> u32 option" where
  "PendingRequestID call c = map_option w_requestID (fmlookup (c_pending c) call)"

definition WaitingCredit :: "CallID \<Rightarrow> 'w Core \<Rightarrow> u32 option" where
  "WaitingCredit call c = Outbox_WaitingCredit call (c_outbox c)"

definition sortedKeys :: "'v gomap \<Rightarrow> u32 list" where
  "sortedKeys table = sorted_list_of_fset (fmdom table)"

text \<open>\<open>NextDeadline\<close> ranges over the maps in no particular order; \<open>earlier\<close> does not depend on it.\<close>

definition NextDeadline :: "'w Core \<Rightarrow> gotime \<times> bool" where
  "NextDeadline c =
    (let nearest = fold (\<lambda>call nearest. case fmlookup (c_pending c) call of
             None \<Rightarrow> nearest | Some record \<Rightarrow> earlier nearest (w_deadline record))
           (sortedKeys (c_pending c)) 0;
         nearest = fold (\<lambda>call nearest. case fmlookup (c_inflight c) call of
             None \<Rightarrow> nearest | Some record \<Rightarrow> earlier nearest (nextExpiry record))
           (sortedKeys (c_inflight c)) nearest
     in (nearest, \<not> IsZero nearest))"

definition HasRunnableWork :: "'w Core \<Rightarrow> bool" where
  "HasRunnableWork c \<longleftrightarrow>
    list_ex (\<lambda>call. case fmlookup (c_inflight c) call of
        None \<Rightarrow> False
      | Some record \<Rightarrow> \<not> (CalleeStreams (r_shape record) \<and> starved record)
          \<and> HasRoom call (c_outbox c))
      (sortedKeys (c_inflight c))"

definition OnReady :: "'w Core \<Rightarrow> 'w Core" where
  "OnReady c = c\<lparr>c_ready := True\<rparr>"

definition millisOf :: "duration \<Rightarrow> u32" where
  "millisOf budget = word_of_int (min (max (Milliseconds budget) 1) max_u32)"

definition readCredit :: "bytes \<Rightarrow> u32" where
  "readCredit body = (case fst (ReadU32 (NewBodyReader body)) of Value items \<Rightarrow> items | _ \<Rightarrow> 0)"

subsection \<open>Frames and compression\<close>

definition maybeCompress :: "bytes \<Rightarrow> Header \<Rightarrow> 'w Core \<Rightarrow> bytes \<times> Header" where
  "maybeCompress body header c =
    (case c_compressor c of
       None \<Rightarrow> (body, header)
     | Some compressor \<Rightarrow>
         if int (length body) < CompressAbove (c_config c) then (body, header)
         else (case co_Compress compressor body of
                 None \<Rightarrow> (body, header)
               | Some squeezed \<Rightarrow>
                   if length squeezed \<ge> length body then (body, header)
                   else (squeezed, header\<lparr>hdr_Compressed := True\<rparr>)))"

definition inflate :: "Header \<Rightarrow> bytes \<Rightarrow> 'w Core \<Rightarrow> Status + bytes" where
  "inflate header body c =
    (if \<not> hdr_Compressed header then Inr body
     else (case c_compressor c of
       None \<Rightarrow> Inl (Internal ''a compressed body arrived but no compressor is installed'')
     | Some compressor \<Rightarrow>
         (case co_Decompress compressor body (MaxBodyLen (c_config c)) of
            Inr inflated \<Rightarrow> Inr inflated
          | Inl ErrExceedsLimit \<Rightarrow> Inl (ResourceExhausted ''the body expands past the ceiling'')
          | Inl ErrMalformedBody \<Rightarrow> Inl (Internal ''the compressed body is malformed''))))"

text \<open>\<open>Header{Kind: kind, Call: call}\<close>.\<close>

definition plain_header :: "Kind \<Rightarrow> CallID \<Rightarrow> Header" where
  "plain_header kind call =
    \<lparr>hdr_Kind = kind, hdr_Call = call, hdr_Compressed = False, hdr_HasCtx = False\<rparr>"

definition bodyFrame :: "CallID \<Rightarrow> Kind \<Rightarrow> u32 \<Rightarrow> bytes \<Rightarrow> 'w Core \<Rightarrow> Outgoing" where
  "bodyFrame call kind messageID body c =
    (case maybeCompress body (plain_header kind call) c of (sent, header) \<Rightarrow>
       \<lparr>og_MessageID = messageID, og_Payload = Encode header [] sent\<rparr>)"

definition controlFrame :: "CallID \<Rightarrow> Kind \<Rightarrow> 'w Core \<Rightarrow> Outgoing" where
  "controlFrame call kind c =
    \<lparr>og_MessageID = rg_voidID (c_registry c), og_Payload = Encode (plain_header kind call) [] []\<rparr>"

subsection \<open>Steps shared by the operations\<close>

definition on_outbox :: "(Outbox \<Rightarrow> Outbox) \<Rightarrow> 'w Core \<Rightarrow> 'w Core" where
  "on_outbox f c = c\<lparr>c_outbox := f (c_outbox c)\<rparr>"

definition run_outbound :: "nat \<Rightarrow> CallContext \<Rightarrow> Status option \<Rightarrow> 'w Core \<Rightarrow> 'w Core" where
  "run_outbound entered context status c =
    c\<lparr>c_world := Chain_Outbound (c_chain c) entered context status (c_world c)\<rparr>"

definition run_cancel :: "'w Handler \<Rightarrow> 'w Core \<Rightarrow> 'w Core" where
  "run_cancel handler c = c\<lparr>c_world := safeCancel handler (c_world c)\<rparr>"

definition put_pending :: "CallID \<Rightarrow> waiting \<Rightarrow> 'w Core \<Rightarrow> 'w Core" where
  "put_pending call record c = c\<lparr>c_pending := fmupd call record (c_pending c)\<rparr>"

definition put_inflight :: "CallID \<Rightarrow> 'w running \<Rightarrow> 'w Core \<Rightarrow> 'w Core" where
  "put_inflight call record c = c\<lparr>c_inflight := fmupd call record (c_inflight c)\<rparr>"

definition drop_inflight :: "CallID \<Rightarrow> 'w Core \<Rightarrow> 'w Core" where
  "drop_inflight call c = c\<lparr>c_inflight := fmdrop call (c_inflight c)\<rparr>"

definition failCall :: "CallID \<Rightarrow> Status \<Rightarrow> 'w Core \<Rightarrow> 'w Core" where
  "failCall call status c =
    on_outbox (PushTerminal call
      (bodyFrame call KindError (rg_errorID (c_registry c)) (Status_Encode status) c)) c"

definition finishInflight :: "CallID \<Rightarrow> Status \<Rightarrow> 'w Core \<Rightarrow> 'w Core" where
  "finishInflight call status c =
    (let found = fmlookup (c_inflight c) call;
         c = drop_inflight call c;
         c = on_outbox (Discard call) c;
         c = on_outbox (PushTerminal call
               (bodyFrame call KindError (rg_errorID (c_registry c)) (Status_Encode status) c)) c
     in case found of
          None \<Rightarrow> c
        | Some record \<Rightarrow> run_outbound (r_entered record) (r_context record) (Some status) c)"

definition settlePending :: "CallID \<Rightarrow> Outcome \<Rightarrow> 'w Core \<Rightarrow> 'w Core" where
  "settlePending call outcome c =
    (case fmlookup (c_pending c) call of
       None \<Rightarrow> c
     | Some record \<Rightarrow>
         let c = c\<lparr>c_pending := fmdrop call (c_pending c)\<rparr>;
             c = on_outbox (Discard call) c;
             c = run_outbound (w_entered record) (w_context record) (o_Status outcome) c
         in c\<lparr>c_outcomes := c_outcomes c @ [outcome]\<rparr>)"

definition abandonPending :: "CallID \<Rightarrow> Status \<Rightarrow> 'w Core \<Rightarrow> 'w Core" where
  "abandonPending call status c =
    (let requestQueued = RequestStillQueued call (c_outbox c);
         c = settlePending call (failed call status) c
     in if \<not> requestQueued then on_outbox (PushTerminal call (controlFrame call KindCancel c)) c
        else c)"

definition failReceived :: "CallID \<Rightarrow> Status \<Rightarrow> 'w Core \<Rightarrow> 'w Core" where
  "failReceived call status c =
    (if has_key (c_inflight c) call then finishInflight call status c
     else if has_key (c_pending c) call then abandonPending call status c
     else failCall call status c)"

subsection \<open>Polling a handler\<close>

definition collectGrant :: "CallID \<Rightarrow> 'w Core \<Rightarrow> 'w Core" where
  "collectGrant call c =
    (case (CreditID (c_registry c), fmlookup (c_inflight c) call) of
       (Some creditID, Some record) \<Rightarrow>
         if \<not> CallerStreams (r_shape record) \<or> r_inboundClosed record then c
         else (case h_Grant (r_handler record) of
             None \<Rightarrow> c
           | Some grant \<Rightarrow>
               (case grant (c_world c) of
                  (Panicked p, w) \<Rightarrow> finishInflight call (recovered p) (c\<lparr>c_world := w\<rparr>)
                | (Returned items, w) \<Rightarrow>
                    let c = c\<lparr>c_world := w\<rparr> in
                    if items > 0 then on_outbox (Outbox_Grant call creditID items) c else c))
     | _ \<Rightarrow> c)"

text \<open>A round of the loop of \<open>pollOne\<close>: whether it goes on, and the core after it.\<close>

definition poll_step :: "CallID \<Rightarrow> gotime \<Rightarrow> 'w Core \<Rightarrow> bool \<times> 'w Core" where
  "poll_step call now c =
    (case fmlookup (c_inflight c) call of
       None \<Rightarrow> (False, c)
     | Some record \<Rightarrow>
         if \<not> HasRoom call (c_outbox c) then
           (if \<not> FullFor call (c_outbox c) then (False, c)
            else let record = (if IsZero (r_fullSince record) then record\<lparr>r_fullSince := now\<rparr>
                               else record);
                     c = put_inflight call record c
                 in if Time_Sub now (r_fullSince record) \<ge> QueueFullLimit (c_config c)
                    then (False, finishInflight call
                      (ResourceExhausted ''the peer stopped consuming this call'') c)
                    else (False, c))
         else let record = record\<lparr>r_fullSince := 0\<rparr>; c = put_inflight call record c in
           if CalleeStreams (r_shape record) \<and> starved record then (False, c)
           else (case safePoll (r_handler record) now (c_world c) of (progress, w) \<Rightarrow>
             let c = c\<lparr>c_world := w\<rparr> in
             (case pr_Kind progress of
                ProgressPending \<Rightarrow> (False, c)
              | ProgressRespond \<Rightarrow>
                  if CalleeStreams (r_shape record)
                  then (False, finishInflight call
                    (Internal ''streaming handler returned a unary response'') c)
                  else let c = drop_inflight call c;
                           c = on_outbox (PushTerminal call
                             (bodyFrame call KindResponse (r_replyID record) (pr_Body progress) c)) c
                       in (False, run_outbound (r_entered record) (r_context record) None c)
              | ProgressItem \<Rightarrow>
                  if \<not> CalleeStreams (r_shape record)
                  then (False, finishInflight call
                    (Internal ''unary handler returned a stream item'') c)
                  else let c = on_outbox (\<lambda>b. snd (Push call
                             (bodyFrame call KindItem (r_replyID record) (pr_Body progress) c) b)) c;
                           record = (if r_established record
                                     then record\<lparr>r_credit := r_credit record - 1\<rparr> else record)
                       in (True, put_inflight call record c)
              | ProgressEnd \<Rightarrow>
                  if \<not> CalleeStreams (r_shape record)
                  then (False, finishInflight call
                    (Internal ''unary handler ended without a response'') c)
                  else let c = drop_inflight call c;
                           c = on_outbox (PushTerminal call (controlFrame call KindEnd c)) c
                       in (False, run_outbound (r_entered record) (r_context record) None c)
              | ProgressFail \<Rightarrow>
                  (False, finishInflight call
                    (case pr_Status progress of None \<Rightarrow> Internal ''handler failed''
                     | Some status \<Rightarrow> status) c))))"

text \<open>The room left in the outbox falls with every round that goes on.\<close>

lemma poll_step_again:
  assumes "poll_step call now c = (True, c')"
  shows "ob_maxTotal (c_outbox c') = ob_maxTotal (c_outbox c)
    \<and> ob_total (c_outbox c') = ob_total (c_outbox c) + 1
    \<and> ob_total (c_outbox c) < ob_maxTotal (c_outbox c)"
  using assms
  by (auto simp: poll_step_def Let_def on_outbox_def put_inflight_def Push_def HasRoom_def queue_simps
      split: option.splits if_splits prod.splits ProgressKind.splits)

function poll_loop :: "CallID \<Rightarrow> gotime \<Rightarrow> 'w Core \<Rightarrow> 'w Core" where
  "poll_loop call now c =
    (case poll_step call now c of (again, c) \<Rightarrow> if again then poll_loop call now c else c)"
  by pat_completeness auto
termination
  by (relation "measure (\<lambda>(call, now, c). nat (ob_maxTotal (c_outbox c) - ob_total (c_outbox c)))")
    (auto dest!: poll_step_again [OF sym])

declare poll_loop.simps [simp del]

definition pollOne :: "CallID \<Rightarrow> gotime \<Rightarrow> 'w Core \<Rightarrow> 'w Core" where
  "pollOne call now c = poll_loop call now (collectGrant call c)"

end
