(* ===== verification/CoreOps.thy ===== *)
theory CoreOps
  imports Core
begin

text \<open>
  The operations of the core (\<open>core.go\<close>): what a caller does (\<open>Call\<close>, \<open>SendItem\<close>, \<open>CloseSend\<close>,
  \<open>Grant\<close>, \<open>Cancel\<close>), what a received frame does (\<open>OnMessage\<close> and one function per kind), and
  what the session does (\<open>Tick\<close>, \<open>Drain\<close>, \<open>OnSessionEnd\<close>, \<open>TakeOutcomes\<close>).
\<close>

subsection \<open>The caller's side\<close>

text \<open>The last parts of \<open>Call\<close>: from the deadline on, and from the interceptors on.\<close>

definition request_header :: "CallID \<Rightarrow> Ctx \<Rightarrow> Header" where
  "request_header call ctx = \<lparr>hdr_Kind = KindRequest, hdr_Call = call, hdr_Compressed = False,
     hdr_HasCtx = (\<not> Ctx_IsEmpty ctx)\<rparr>"

definition encoded_ctx :: "Header \<Rightarrow> Ctx \<Rightarrow> bytes" where
  "encoded_ctx header ctx = (if hdr_HasCtx header then Ctx_Encode ctx else [])"

definition deadline_of :: "Ctx \<Rightarrow> gotime \<Rightarrow> gotime" where
  "deadline_of ctx now =
    (if Ctx_HasDeadline ctx then Time_Add now (int (unat (DeadlineMs ctx)) * Millisecond) else 0)"

definition queue_request ::
  "u32 \<Rightarrow> bytes \<Rightarrow> Method \<Rightarrow> CallID \<Rightarrow> nat \<Rightarrow> CallContext \<Rightarrow> gotime \<Rightarrow> 'w Core
    \<Rightarrow> (CallError + CallID) \<times> 'w Core" where
  "queue_request requestID body m call entered context now c =
    (let deadline = deadline_of (cc_Ctx context) now;
         context = context\<lparr>cc_Deadline := deadline\<rparr>;
         header = request_header call (cc_Ctx context);
         encodedCtx = encoded_ctx header (cc_Ctx context)
     in if hdr_HasCtx header \<and> int (length encodedCtx) > MaxCtxLen (c_config c) then
          (Inl ErrCtxTooLarge, run_outbound entered context
            (Some (InvalidArgument ''the ctx block exceeds the ceiling'')) c)
        else (case maybeCompress body header c of (sent, header) \<Rightarrow>
          (case Push call \<lparr>og_MessageID = requestID, og_Payload = Encode header encodedCtx sent\<rparr>
              (c_outbox c) of
             (False, b) \<Rightarrow> (Inl ErrCongested, run_outbound entered context
               (Some (ResourceExhausted ''the send queue is full'')) (c\<lparr>c_outbox := b\<rparr>))
           | (True, b) \<Rightarrow> (Inr call, put_pending call
               \<lparr>w_context = context, w_entered = entered, w_requestID = m_RequestID m,
                w_itemID = CallerItemID m, w_replyID = m_ReplyID m, w_shape = m_Shape m,
                w_deadline = deadline, w_sendClosed = False, w_credit = 0,
                w_established = False\<rparr> (c\<lparr>c_outbox := b\<rparr>)))))"

definition send_request ::
  "u32 \<Rightarrow> bytes \<Rightarrow> Method \<Rightarrow> CallID \<Rightarrow> Ctx \<Rightarrow> gotime \<Rightarrow> 'w Core \<Rightarrow> (CallError + CallID) \<times> 'w Core" where
  "send_request requestID body m call outgoing now c =
    (case Chain_Outgoing (c_chain c)
        (newCallContext call m now outgoing (c_identity c) SenderCaller) (c_world c) of
       (entered, Some rejection, context, w) \<Rightarrow>
         (Inl (ErrStatus rejection), run_outbound entered context (Some rejection) (c\<lparr>c_world := w\<rparr>))
     | (entered, None, context, w) \<Rightarrow>
         queue_request requestID body m call entered context now (c\<lparr>c_world := w\<rparr>))"

text \<open>The ctx a call starts from: the caller's, with the deadline of the options if that is earlier.\<close>

definition call_ctx :: "Ctx option \<Rightarrow> CallOptions \<Rightarrow> Ctx" where
  "call_ctx ctx options =
    (let outgoing = (case ctx of None \<Rightarrow> zero_Ctx | Some ctx \<Rightarrow> ctx) in
     if Deadline options > 0 then
       let budget = millisOf (Deadline options) in
       if \<not> Ctx_HasDeadline outgoing \<or> budget < DeadlineMs outgoing
       then outgoing\<lparr>DeadlineMs := budget\<rparr> else outgoing
     else outgoing)"

definition Core_Call ::
  "u32 \<Rightarrow> bytes \<Rightarrow> Ctx option \<Rightarrow> CallOptions \<Rightarrow> gotime \<Rightarrow> 'w Core \<Rightarrow> (CallError + CallID) \<times> 'w Core" where
  "Core_Call requestID body ctx options now c =
    (if \<not> c_ready c then (Inl ErrNotReady, c)
     else (case MethodFor requestID (c_registry c) of
       None \<Rightarrow> (Inl ErrUnknownMethod, c)
     | Some m \<Rightarrow>
         if int (length body) > MaxBodyLen (c_config c) then (Inl ErrBodyTooLarge, c)
         else if int (map_len (c_pending c)) \<ge> MaxPending (c_config c) then (Inl ErrTooManyPending, c)
         else (case Allocate (has_key (c_pending c)) (c_ids c) of
             (None, ids) \<Rightarrow> (Inl ErrCallIDExhausted, c\<lparr>c_ids := ids\<rparr>)
           | (Some call, ids) \<Rightarrow>
               send_request requestID body m call (call_ctx ctx options) now (c\<lparr>c_ids := ids\<rparr>))))"

definition SendItem :: "CallID \<Rightarrow> bytes \<Rightarrow> 'w Core \<Rightarrow> CallError option \<times> 'w Core" where
  "SendItem call body c =
    (case fmlookup (c_pending c) call of
       None \<Rightarrow> (Some ErrUnknownCall, c)
     | Some record \<Rightarrow>
         if \<not> CallerStreams (w_shape record) then (Some ErrWrongShape, c)
         else if w_sendClosed record then (Some ErrSendClosed, c)
         else if w_established record \<and> w_credit record = 0 then (Some ErrNoCredit, c)
         else if int (length body) > MaxBodyLen (c_config c) then (Some ErrBodyTooLarge, c)
         else (case Push call (bodyFrame call KindItem (w_itemID record) body c) (c_outbox c) of
             (False, b) \<Rightarrow> (Some ErrCongested, c\<lparr>c_outbox := b\<rparr>)
           | (True, b) \<Rightarrow>
               let c = c\<lparr>c_outbox := b\<rparr> in
               (None, if w_established record
                      then put_pending call (record\<lparr>w_credit := w_credit record - 1\<rparr>) c else c)))"

definition CloseSend :: "CallID \<Rightarrow> 'w Core \<Rightarrow> CallError option \<times> 'w Core" where
  "CloseSend call c =
    (case fmlookup (c_pending c) call of
       None \<Rightarrow> (Some ErrUnknownCall, c)
     | Some record \<Rightarrow>
         if \<not> CallerStreams (w_shape record) then (Some ErrWrongShape, c)
         else if w_sendClosed record then (Some ErrSendClosed, c)
         else (case Push call (controlFrame call KindEnd c) (c_outbox c) of
             (False, b) \<Rightarrow> (Some ErrCongested, c\<lparr>c_outbox := b\<rparr>)
           | (True, b) \<Rightarrow>
               (None, put_pending call (record\<lparr>w_sendClosed := True\<rparr>) (c\<lparr>c_outbox := b\<rparr>))))"

definition Core_Grant :: "CallID \<Rightarrow> u32 \<Rightarrow> 'w Core \<Rightarrow> CallError option \<times> 'w Core" where
  "Core_Grant call items c =
    (case CreditID (c_registry c) of
       None \<Rightarrow> (Some ErrCreditUnsupported, c)
     | Some creditID \<Rightarrow>
         let granted = (None, on_outbox (Outbox_Grant call creditID items) c) in
         (case fmlookup (c_inflight c) call of
            Some record \<Rightarrow>
              if \<not> CallerStreams (r_shape record) then (Some ErrWrongShape, c) else granted
          | None \<Rightarrow>
              (case fmlookup (c_pending c) call of
                 Some record \<Rightarrow>
                   if \<not> CalleeStreams (w_shape record) then (Some ErrWrongShape, c) else granted
               | None \<Rightarrow> (Some ErrUnknownCall, c))))"

definition Core_Cancel :: "CallID \<Rightarrow> 'w Core \<Rightarrow> 'w Core" where
  "Core_Cancel call c =
    (if has_key (c_pending c) call then abandonPending call Cancelled c else c)"

subsection \<open>Received frames\<close>

text \<open>The end of \<open>onRequest\<close>: the factory, the record of the call, and its first poll.\<close>

definition start_call ::
  "CallID \<Rightarrow> Method \<Rightarrow> 'w HandlerFactory \<Rightarrow> Ctx \<Rightarrow> gotime \<Rightarrow> nat \<Rightarrow> CallContext \<Rightarrow> bytes \<Rightarrow> gotime
    \<Rightarrow> 'w Core \<Rightarrow> 'w Core" where
  "start_call call m factory ctx limit entered context body now c =
    (case factory m body (c_world c) of (result, w) \<Rightarrow>
       let c = c\<lparr>c_world := w\<rparr>;
           refuse = (\<lambda>failure. failCall call failure (run_outbound entered context (Some failure) c))
       in case result of
            Panicked p \<Rightarrow> refuse (recovered p)
          | Returned (_, Some err) \<Rightarrow> refuse (StatusOf err)
          | Returned (None, None) \<Rightarrow> refuse (Internal ''the handler factory returned no handler'')
          | Returned (Some handler, None) \<Rightarrow>
              let record = \<lparr>r_handler = handler, r_itemID = CallerItemID m, r_replyID = m_ReplyID m,
                    r_shape = m_Shape m, r_limit = limit, r_idleLimit = 0, r_lastHeard = now,
                    r_inboundClosed = (\<not> CallerStreams (m_Shape m)), r_credit = 0,
                    r_established = False, r_fullSince = 0, r_context = context,
                    r_entered = entered\<rparr>;
                  record = (if m_Shape m \<noteq> ShapeUnary
                    then record\<lparr>r_idleLimit := m_IdleLimit m\<rparr> else record);
                  record = (if InitialCredit ctx \<noteq> 0
                    then record\<lparr>r_credit := InitialCredit ctx, r_established := True\<rparr> else record)
              in pollOne call now (put_inflight call record c))"

text \<open>The limit of a call: its deadline, and for a unary call the handler limit if that is earlier.\<close>

definition call_limit :: "Method \<Rightarrow> Ctx \<Rightarrow> gotime \<Rightarrow> 'w Core \<Rightarrow> gotime" where
  "call_limit m ctx now c =
    (let limit = deadline_of ctx now
     in if m_Shape m = ShapeUnary then
          let own = Time_Add now (HandlerLimit (c_config c)) in
          if IsZero limit \<or> Before own limit then own else limit
        else limit)"

text \<open>The middle of \<open>onRequest\<close>: the interceptors, and the body.\<close>

definition admit_request ::
  "CallID \<Rightarrow> Method \<Rightarrow> 'w HandlerFactory \<Rightarrow> Ctx \<Rightarrow> Parsed \<Rightarrow> gotime \<Rightarrow> 'w Core \<Rightarrow> 'w Core" where
  "admit_request call m factory ctx parsed now c =
    (let limit = call_limit m ctx now c;
         context = (newCallContext call m now ctx (c_identity c) SenderCallee)\<lparr>cc_Deadline := limit\<rparr>
     in case Chain_Inbound (c_chain c) context (c_world c) of
          (entered, Some rejection, context, w) \<Rightarrow>
            failCall call rejection (run_outbound entered context (Some rejection) (c\<lparr>c_world := w\<rparr>))
        | (entered, None, context, w) \<Rightarrow>
            let c = c\<lparr>c_world := w\<rparr> in
            (case inflate (p_Header parsed) (p_Body parsed) c of
               Inl failure \<Rightarrow>
                 failCall call failure (run_outbound entered context (Some failure) c)
             | Inr body \<Rightarrow> start_call call m factory ctx limit entered context body now c))"

definition onRequest :: "u32 \<Rightarrow> Parsed \<Rightarrow> gotime \<Rightarrow> 'w Core \<Rightarrow> 'w Core" where
  "onRequest messageID parsed now c =
    (let call = hdr_Call (p_Header parsed) in
     if Role_Allocates (Core_Role c) call then
       failCall call (InvalidArgument ''call id parity belongs to the receiving side'') c
     else if has_key (c_inflight c) call then c
     else (case EntryFor messageID (c_registry c) of
       None \<Rightarrow> failCall call (Unimplemented messageID) c
     | Some entry \<Rightarrow>
         (case e_Factory entry of
            None \<Rightarrow> failCall call (Unimplemented messageID) c
          | Some factory \<Rightarrow>
              if int (map_len (c_inflight c)) \<ge> MaxPending (c_config c) then
                failCall call (ResourceExhausted ''too many calls in flight'') c
              else
                (case (if hdr_HasCtx (p_Header parsed) then DecodeCtx (p_Ctx parsed)
                       else (zero_Ctx, None)) of
                   (_, Some err) \<Rightarrow> failCall call (InvalidArgument ''ctx block failed to decode'') c
                 | (ctx, None) \<Rightarrow> admit_request call (e_Method entry) factory ctx parsed now c))))"

definition expected :: "string \<Rightarrow> u32 \<Rightarrow> u32 \<Rightarrow> Status" where
  "expected what wanted received =
    InvalidArgument (''expected '' @ what @ '' type 0x'' @ fmt_08X wanted @ '', received 0x''
      @ fmt_08X received)"

definition carried :: "string \<Rightarrow> u32 \<Rightarrow> string \<Rightarrow> Status" where
  "carried what messageID model =
    InvalidArgument (what @ '' frame carried 0x'' @ fmt_08X messageID @ '', which is not '' @ model)"

definition onResponse :: "u32 \<Rightarrow> CallID \<Rightarrow> bytes \<Rightarrow> 'w Core \<Rightarrow> 'w Core" where
  "onResponse messageID call body c =
    (case fmlookup (c_pending c) call of
       None \<Rightarrow> c
     | Some record \<Rightarrow>
         if CalleeStreams (w_shape record) \<or> messageID \<noteq> w_replyID record then
           settlePending call (failed call (expected ''response'' (w_replyID record) messageID)) c
         else settlePending call
           \<lparr>o_Kind = OutcomeResponse, o_Call = call, o_Body = body, o_Status = None\<rparr> c)"

definition onError :: "u32 \<Rightarrow> CallID \<Rightarrow> bytes \<Rightarrow> 'w Core \<Rightarrow> 'w Core" where
  "onError messageID call body c =
    (if \<not> has_key (c_pending c) call then c
     else let status = (if messageID = rg_errorID (c_registry c) then DecodeStatus body
                        else carried ''error'' messageID ''FRpcError'')
          in settlePending call (failed call status) c)"

definition onCallerItem :: "CallID \<Rightarrow> u32 \<Rightarrow> bytes \<Rightarrow> gotime \<Rightarrow> 'w running \<Rightarrow> 'w Core \<Rightarrow> 'w Core" where
  "onCallerItem call messageID body now record c =
    (let record = record\<lparr>r_lastHeard := now\<rparr>; c = put_inflight call record c in
     if \<not> CallerStreams (r_shape record) then
       finishInflight call (InvalidArgument ''this method accepts no caller items'') c
     else if r_inboundClosed record then c
     else if messageID \<noteq> r_itemID record then
       finishInflight call (expected ''item'' (r_itemID record) messageID) c
     else (case deliverItem (r_handler record) body (c_world c) of
         (Some refused, w) \<Rightarrow> finishInflight call refused (c\<lparr>c_world := w\<rparr>)
       | (None, w) \<Rightarrow> pollOne call now (c\<lparr>c_world := w\<rparr>)))"

definition onItem :: "u32 \<Rightarrow> CallID \<Rightarrow> bytes \<Rightarrow> gotime \<Rightarrow> 'w Core \<Rightarrow> 'w Core" where
  "onItem messageID call body now c =
    (case fmlookup (c_inflight c) call of
       Some record \<Rightarrow> onCallerItem call messageID body now record c
     | None \<Rightarrow>
         (case fmlookup (c_pending c) call of
            None \<Rightarrow> c
          | Some record \<Rightarrow>
              if \<not> CalleeStreams (w_shape record) \<or> messageID \<noteq> w_replyID record then
                abandonPending call (expected ''item'' (w_replyID record) messageID) c
              else c\<lparr>c_outcomes := c_outcomes c @
                [\<lparr>o_Kind = OutcomeItem, o_Call = call, o_Body = body, o_Status = None\<rparr>]\<rparr>))"

definition onCallerEnd :: "u32 \<Rightarrow> CallID \<Rightarrow> gotime \<Rightarrow> 'w running \<Rightarrow> 'w Core \<Rightarrow> 'w Core" where
  "onCallerEnd messageID call now record c =
    (let record = record\<lparr>r_lastHeard := now\<rparr>; c = put_inflight call record c in
     if messageID \<noteq> rg_voidID (c_registry c) then
       finishInflight call (carried ''end'' messageID ''FRpcVoid'') c
     else if \<not> CallerStreams (r_shape record) then
       finishInflight call (InvalidArgument ''this method accepts no caller stream'') c
     else if r_inboundClosed record then c
     else let c = put_inflight call (record\<lparr>r_inboundClosed := True\<rparr>) c in
       (case closeStream (r_handler record) (c_world c) of
          (Some refused, w) \<Rightarrow> finishInflight call refused (c\<lparr>c_world := w\<rparr>)
        | (None, w) \<Rightarrow> pollOne call now (c\<lparr>c_world := w\<rparr>)))"

definition onEnd :: "u32 \<Rightarrow> CallID \<Rightarrow> gotime \<Rightarrow> 'w Core \<Rightarrow> 'w Core" where
  "onEnd messageID call now c =
    (case fmlookup (c_inflight c) call of
       Some record \<Rightarrow> onCallerEnd messageID call now record c
     | None \<Rightarrow>
         (case fmlookup (c_pending c) call of
            None \<Rightarrow> c
          | Some record \<Rightarrow>
              if messageID \<noteq> rg_voidID (c_registry c) then
                abandonPending call (carried ''end'' messageID ''FRpcVoid'') c
              else if \<not> CalleeStreams (w_shape record) then
                abandonPending call
                  (InvalidArgument ''END arrived on a call that carries no reply stream'') c
              else settlePending call
                \<lparr>o_Kind = OutcomeEnd, o_Call = call, o_Body = [], o_Status = None\<rparr> c))"

definition onCancel :: "u32 \<Rightarrow> CallID \<Rightarrow> 'w Core \<Rightarrow> 'w Core" where
  "onCancel messageID call c =
    (case fmlookup (c_inflight c) call of
       None \<Rightarrow> c
     | Some record \<Rightarrow>
         let c = run_cancel (r_handler record) c in
         if messageID = rg_voidID (c_registry c) then finishInflight call Cancelled c
         else finishInflight call (carried ''cancel'' messageID ''FRpcVoid'') c)"

definition onCredit :: "u32 \<Rightarrow> CallID \<Rightarrow> bytes \<Rightarrow> gotime \<Rightarrow> 'w Core \<Rightarrow> 'w Core" where
  "onCredit messageID call body now c =
    (case CreditID (c_registry c) of
       None \<Rightarrow> c
     | Some creditID \<Rightarrow>
         if messageID \<noteq> creditID then
           let status = carried ''credit'' messageID ''FRpcCredit'' in
           (if has_key (c_inflight c) call then finishInflight call status c
            else if has_key (c_pending c) call then abandonPending call status c
            else c)
         else
           let items = readCredit body in
           (case fmlookup (c_inflight c) call of
              Some record \<Rightarrow> put_inflight call (record\<lparr>r_lastHeard := now,
                r_credit := saturatingAdd (r_credit record) items, r_established := True\<rparr>) c
            | None \<Rightarrow>
                (case fmlookup (c_pending c) call of
                   Some record \<Rightarrow> put_pending call
                     (record\<lparr>w_credit := saturatingAdd (w_credit record) items,
                        w_established := True\<rparr>) c
                 | None \<Rightarrow> c)))"

definition rejectUndecodable :: "bytes \<Rightarrow> WireError \<Rightarrow> 'w Core \<Rightarrow> 'w Core" where
  "rejectUndecodable payload wireErr c =
    (if length payload < HeaderLen then c
     else failReceived (ReadCallID payload) (Internal (Describe wireErr payload)) c)"

text \<open>The switch of \<open>OnMessage\<close> on the kind of a frame whose body is inflated.\<close>

definition dispatch :: "u32 \<Rightarrow> Parsed \<Rightarrow> gotime \<Rightarrow> 'w Core \<Rightarrow> 'w Core" where
  "dispatch messageID parsed now c =
    (let kind = hdr_Kind (p_Header parsed); call = hdr_Call (p_Header parsed);
         body = p_Body parsed
     in if kind = KindRequest then onRequest messageID parsed now c
        else if kind = KindResponse then onResponse messageID call body c
        else if kind = KindError then onError messageID call body c
        else if kind = KindItem then onItem messageID call body now c
        else if kind = KindEnd then onEnd messageID call now c
        else if kind = KindCancel then onCancel messageID call c
        else if kind = KindCredit then onCredit messageID call body now c
        else c)"

definition OnMessage :: "u32 \<Rightarrow> bytes \<Rightarrow> gotime \<Rightarrow> 'w Core \<Rightarrow> bool \<times> 'w Core" where
  "OnMessage messageID payload now c =
    (if IsPlain messageID (c_registry c) then (False, c)
     else (case Decode payload (MaxCtxLen (c_config c)) of
       Inl wireErr \<Rightarrow>
         (True, if Owns messageID (c_registry c) then rejectUndecodable payload wireErr c else c)
     | Inr parsed \<Rightarrow>
         if \<not> c_ready c then (True, c)
         else if hdr_Kind (p_Header parsed) \<noteq> KindRequest then
           (case inflate (p_Header parsed) (p_Body parsed) c of
              Inl failure \<Rightarrow> (True, failReceived (hdr_Call (p_Header parsed)) failure c)
            | Inr body \<Rightarrow> (True, dispatch messageID (parsed\<lparr>p_Body := body\<rparr>) now c))
         else (True, dispatch messageID parsed now c)))"

subsection \<open>The session's side\<close>

text \<open>The bodies of the two expiry loops.  No step of a loop removes another key of its table, so
  the look-up finds a record.\<close>

definition expire_pending_at :: "gotime \<Rightarrow> u32 \<Rightarrow> 'w Core \<Rightarrow> 'w Core" where
  "expire_pending_at now call c =
    (case fmlookup (c_pending c) call of
       None \<Rightarrow> c
     | Some record \<Rightarrow>
         if \<not> IsZero (w_deadline record) \<and> \<not> Before now (w_deadline record)
         then abandonPending call DeadlineExceeded c else c)"

definition expirePending :: "gotime \<Rightarrow> 'w Core \<Rightarrow> 'w Core" where
  "expirePending now c = fold (expire_pending_at now) (sortedKeys (c_pending c)) c"

definition expire_inflight_at :: "gotime \<Rightarrow> u32 \<Rightarrow> 'w Core \<Rightarrow> 'w Core" where
  "expire_inflight_at now call c =
    (case fmlookup (c_inflight c) call of
       None \<Rightarrow> c
     | Some record \<Rightarrow>
         if \<not> IsZero (nextExpiry record) \<and> \<not> Before now (nextExpiry record)
         then finishInflight call DeadlineExceeded (run_cancel (r_handler record) c) else c)"

definition expireInflight :: "gotime \<Rightarrow> 'w Core \<Rightarrow> 'w Core" where
  "expireInflight now c = fold (expire_inflight_at now) (sortedKeys (c_inflight c)) c"

definition Tick :: "gotime \<Rightarrow> 'w Core \<Rightarrow> 'w Core" where
  "Tick now c =
    (let c = expirePending now c;
         c = expireInflight now c
     in fold (\<lambda>call. pollOne call now) (sortedKeys (c_inflight c)) c)"

definition Core_Drain :: "'s Sink \<Rightarrow> 'w Core \<Rightarrow> 's \<Rightarrow> ('w Core \<times> 's) option" where
  "Core_Drain sink c s =
    (case Outbox_Drain sink (c_outbox c) s of
       None \<Rightarrow> None
     | Some (b, s) \<Rightarrow> Some (c\<lparr>c_outbox := b\<rparr>, s))"

definition settle_unavailable :: "u32 \<Rightarrow> 'w Core \<Rightarrow> 'w Core" where
  "settle_unavailable call c = settlePending call (failed call Unavailable) c"

definition abandon_inflight :: "'w running gomap \<Rightarrow> u32 \<Rightarrow> 'w Core \<Rightarrow> 'w Core" where
  "abandon_inflight abandoned call c =
    (case fmlookup abandoned call of
       None \<Rightarrow> c
     | Some record \<Rightarrow>
         run_outbound (r_entered record) (r_context record) (Some Unavailable)
           (run_cancel (r_handler record) c))"

definition OnSessionEnd :: "'w Core \<Rightarrow> 'w Core" where
  "OnSessionEnd c =
    (if c_finished c then c
     else let c = c\<lparr>c_finished := True, c_ready := False\<rparr>;
              c = fold settle_unavailable (sortedKeys (c_pending c)) c;
              abandoned = c_inflight c;
              c = c\<lparr>c_inflight := fmempty\<rparr>;
              c = fold (abandon_inflight abandoned) (sortedKeys abandoned) c
          in on_outbox Clear c)"

definition TakeOutcomes :: "'w Core \<Rightarrow> Outcome list \<times> 'w Core" where
  "TakeOutcomes c = (c_outcomes c, c\<lparr>c_outcomes := []\<rparr>)"

end
