(* ===== verification/CoreInv.thy ===== *)
theory CoreInv
  imports CoreOps "HOL-Library.Multiset"
begin

text \<open>
  The invariant of the core and how its steps keep it.  A step on behalf of a call is
  \<open>safe_step\<close>: it leaves the configuration and every other call alone, keeps the invariant, and
  reports of that call nothing after the outcome that completes it.  Safe steps compose, so
  each function of the core is handled by chaining the lemmas of the functions it calls.  A
  step on behalf of many calls is \<open>conserves\<close>: the calls that leave the pending table are exactly
  the calls of the completing outcomes that it adds.  Both are preorders, and the locale
  \<open>preorder_steps\<close> lifts them to the loops over the keys of a table.
\<close>

subsection \<open>The invariant\<close>

definition config_ok :: "Config \<Rightarrow> bool" where
  "config_ok g \<longleftrightarrow> 0 < MaxPending g \<and> 0 < MaxCallQueue g \<and> 0 < MaxConnectionQueue g
    \<and> 0 < SchedulerQuantum g \<and> 0 < MaxCtxLen g \<and> 0 < MaxBodyLen g \<and> MaxBodyLen g \<le> MaxBodyCeiling
    \<and> 0 < HandlerLimit g \<and> 0 < QueueFullLimit g \<and> 0 < CompressAbove g"

definition outbox_limits :: "Outbox \<Rightarrow> int \<times> int \<times> int" where
  "outbox_limits b = (ob_maxPerCall b, ob_maxTotal b, ob_quantum b)"

definition core_inv :: "'w Core \<Rightarrow> bool" where
  "core_inv c \<longleftrightarrow> outbox_inv (c_outbox c) \<and> tagged (c_outbox c)
    \<and> config_ok (c_config c)
    \<and> outbox_limits (c_outbox c) = (MaxCallQueue (c_config c), MaxConnectionQueue (c_config c),
        SchedulerQuantum (c_config c))
    \<and> allocator_ok (c_ids c)
    \<and> (\<forall>k. k |\<in>| fmdom (c_pending c) \<longrightarrow> Role_Allocates (Core_Role c) k)
    \<and> (\<forall>k. k |\<in>| fmdom (c_inflight c) \<longrightarrow> \<not> Role_Allocates (Core_Role c) k)
    \<and> int (map_len (c_pending c)) \<le> MaxPending (c_config c)
    \<and> int (map_len (c_inflight c)) \<le> MaxPending (c_config c)"

lemma normalized_fields:
  "MaxPending (normalized g) = (if MaxPending g \<le> 0 then 65536 else MaxPending g)"
  "MaxCallQueue (normalized g) = (if MaxCallQueue g \<le> 0 then 64 else MaxCallQueue g)"
  "MaxConnectionQueue (normalized g) =
    (if MaxConnectionQueue g \<le> 0 then 1024 else MaxConnectionQueue g)"
  "SchedulerQuantum (normalized g) = (if SchedulerQuantum g \<le> 0 then 65536 else SchedulerQuantum g)"
  "MaxCtxLen (normalized g) = (if MaxCtxLen g \<le> 0 then 65536 else MaxCtxLen g)"
  "MaxBodyLen (normalized g) =
    (if MaxBodyLen g \<le> 0 \<or> MaxBodyLen g > MaxBodyCeiling then MaxBodyCeiling else MaxBodyLen g)"
  "HandlerLimit (normalized g) = (if HandlerLimit g \<le> 0 then 30000000000 else HandlerLimit g)"
  "QueueFullLimit (normalized g) = (if QueueFullLimit g \<le> 0 then 5000000000 else QueueFullLimit g)"
  "CompressAbove (normalized g) = (if CompressAbove g \<le> 0 then 1024 else CompressAbove g)"
  by (simp_all add: normalized_def Let_def DefaultConfig_def)

lemma config_ok_normalized: "config_ok (normalized g)"
  by (auto simp: config_ok_def normalized_fields MaxBodyCeiling_def)

lemma normalized_config_ok: "config_ok g \<Longrightarrow> normalized g = g"
  by (simp add: normalized_def config_ok_def)

lemma core_inv_new [inv_intros]: "core_inv (NewCore registry role config w)"
  using config_ok_normalized [of config]
  by (simp add: core_inv_def NewCore_def Let_def outbox_inv_new tagged_def queue_NewOutbox
      allocator_ok_new outbox_limits_def config_ok_def) (simp add: NewOutbox_def)

subsection \<open>What a step on behalf of a call may do\<close>

definition same_static :: "'w Core \<Rightarrow> 'w Core \<Rightarrow> bool" where
  "same_static c c' \<longleftrightarrow> c_registry c' = c_registry c \<and> c_config c' = c_config c \<and> c_ids c' = c_ids c
    \<and> c_chain c' = c_chain c \<and> c_compressor c' = c_compressor c \<and> c_identity c' = c_identity c
    \<and> c_ready c' = c_ready c \<and> c_finished c' = c_finished c
    \<and> outbox_limits (c_outbox c') = outbox_limits (c_outbox c)"

text \<open>Everything the core holds of a call is as it was.\<close>

definition untouched :: "CallID \<Rightarrow> 'w Core \<Rightarrow> 'w Core \<Rightarrow> bool" where
  "untouched k c c' \<longleftrightarrow> fmlookup (c_pending c') k = fmlookup (c_pending c) k
    \<and> fmlookup (c_inflight c') k = fmlookup (c_inflight c) k
    \<and> queue (c_outbox c') k = queue (c_outbox c) k
    \<and> fmlookup (ob_credits (c_outbox c')) k = fmlookup (ob_credits (c_outbox c)) k"

text \<open>What a call that is pending before (and after) may report: items, then, if it is no longer
  pending, the one outcome that completes it.\<close>

definition outcomes_of :: "CallID \<Rightarrow> bool \<Rightarrow> bool \<Rightarrow> Outcome list \<Rightarrow> bool" where
  "outcomes_of call before after new \<longleftrightarrow> (after \<longrightarrow> before) \<and> (\<not> before \<longrightarrow> new = [])
    \<and> (\<exists>items last. new = items @ last
         \<and> (\<forall>x \<in> set items. o_Call x = call \<and> \<not> Outcome_Terminates x)
         \<and> (if before \<and> \<not> after then \<exists>x. last = [x] \<and> o_Call x = call \<and> Outcome_Terminates x
            else last = []))"

definition settles :: "CallID \<Rightarrow> 'w Core \<Rightarrow> 'w Core \<Rightarrow> bool" where
  "settles call c c' \<longleftrightarrow> (\<exists>new. c_outcomes c' = c_outcomes c @ new
    \<and> outcomes_of call (call |\<in>| fmdom (c_pending c)) (call |\<in>| fmdom (c_pending c')) new)"

definition safe_step :: "CallID \<Rightarrow> 'w Core \<Rightarrow> 'w Core \<Rightarrow> bool" where
  "safe_step call c c' \<longleftrightarrow> same_static c c' \<and> (\<forall>k. k \<noteq> call \<longrightarrow> untouched k c c')
    \<and> settles call c c' \<and> (core_inv c \<longrightarrow> core_inv c')"

lemma outcomes_of_append:
  assumes "outcomes_of k p q xs" and "outcomes_of k q r ys"
  shows "outcomes_of k p r (xs @ ys)"
proof (cases q)
  case True
  from assms(1) True have p: p and xs: "\<forall>x \<in> set xs. o_Call x = k \<and> \<not> Outcome_Terminates x"
    by (auto simp: outcomes_of_def)
  from assms(2) True obtain items rest where "ys = items @ rest"
    "\<forall>x \<in> set items. o_Call x = k \<and> \<not> Outcome_Terminates x"
    "if \<not> r then \<exists>x. rest = [x] \<and> o_Call x = k \<and> Outcome_Terminates x else rest = []"
    by (auto simp: outcomes_of_def)
  with xs p show ?thesis unfolding outcomes_of_def
    by (intro conjI exI [of _ "xs @ items"] exI [of _ rest]) auto
next
  case False
  with assms(2) have "ys = []" "\<not> r" by (auto simp: outcomes_of_def)
  with assms(1) False show ?thesis by simp
qed

lemma settles_refl: "settles call c c"
  by (auto simp: settles_def outcomes_of_def)

lemma settles_trans: "settles call c d \<Longrightarrow> settles call d e \<Longrightarrow> settles call c e"
  by (fastforce simp: settles_def intro: outcomes_of_append)

lemma safe_refl [intro, simp]: "safe_step call c c"
  by (simp add: safe_step_def same_static_def untouched_def settles_refl)

lemma safe_trans: "safe_step call c d \<Longrightarrow> safe_step call d e \<Longrightarrow> safe_step call c e"
  by (auto simp: safe_step_def same_static_def untouched_def intro: settles_trans)

subsection \<open>Elementary safe steps\<close>

lemma settles_same:
  "c_pending c' = c_pending c \<Longrightarrow> c_outcomes c' = c_outcomes c \<Longrightarrow> settles call c c'"
  by (simp add: settles_def outcomes_of_def)

lemma safe_world [intro, simp]: "safe_step call c (c\<lparr>c_world := w\<rparr>)"
  by (auto simp: safe_step_def same_static_def untouched_def core_inv_def Core_Role_def
      intro: settles_same)

lemma safe_run_outbound [intro, simp]: "safe_step call c (run_outbound entered context status c)"
  by (simp add: run_outbound_def)

lemma safe_run_cancel [intro, simp]: "safe_step call c (run_cancel handler c)"
  by (simp add: run_cancel_def)

text \<open>An outbox operation on behalf of a call.\<close>

definition outbox_step :: "CallID \<Rightarrow> (Outbox \<Rightarrow> Outbox) \<Rightarrow> bool" where
  "outbox_step call f \<longleftrightarrow> (\<forall>b. outbox_limits (f b) = outbox_limits b
    \<and> (\<forall>k. k \<noteq> call \<longrightarrow> queue (f b) k = queue b k
         \<and> fmlookup (ob_credits (f b)) k = fmlookup (ob_credits b) k)
    \<and> (outbox_inv b \<longrightarrow> outbox_inv (f b)) \<and> (tagged b \<longrightarrow> tagged (f b)))"

lemma safe_on_outbox: "outbox_step call f \<Longrightarrow> safe_step call c (on_outbox f c)"
  by (auto simp: safe_step_def same_static_def untouched_def core_inv_def Core_Role_def
      on_outbox_def outbox_step_def intro: settles_same)

lemma outbox_step_append: "frame_of call f \<Longrightarrow> outbox_step call (Outbox_append call f)"
  by (auto simp: outbox_step_def outbox_limits_def queue_simps outbox_inv_append tagged_def)

lemma outbox_step_PushTerminal: "frame_of call f \<Longrightarrow> outbox_step call (PushTerminal call f)"
  using outbox_step_append [of call f] by (simp add: outbox_step_def PushTerminal_def)

lemma outbox_step_Push: "frame_of call f \<Longrightarrow> outbox_step call (\<lambda>b. snd (Push call f b))"
  using outbox_step_append [of call f] by (simp add: outbox_step_def Push_def)

lemma outbox_step_Discard: "outbox_step call (Discard call)"
  by (auto simp: outbox_step_def outbox_limits_def queue_simps outbox_inv_Discard tagged_def)

lemma outbox_step_Grant: "outbox_step call (Outbox_Grant call m n)"
  by (auto simp: outbox_step_def outbox_limits_def queue_simps outbox_inv_Grant tagged_def)
    (simp add: Outbox_Grant_def Let_def)

lemmas outbox_steps = outbox_step_append outbox_step_PushTerminal outbox_step_Push
  outbox_step_Discard outbox_step_Grant

text \<open>The frames the core builds carry the call and are no CREDIT frames.\<close>

lemma maybeCompress_header:
  "maybeCompress body h c = (sent, h') \<Longrightarrow>
    hdr_Kind h' = hdr_Kind h \<and> hdr_Call h' = hdr_Call h \<and> hdr_HasCtx h' = hdr_HasCtx h"
  by (auto simp: maybeCompress_def split: option.splits if_splits)

lemma frame_of_Encode:
  "hdr_Kind h < KindCredit \<Longrightarrow>
    frame_of (hdr_Call h) \<lparr>og_MessageID = m, og_Payload = Encode h ctx body\<rparr>"
  by (simp add: frame_of_def codec_simps order_less_imp_le)

lemma frame_of_bodyFrame [simp, intro]: "kind < KindCredit \<Longrightarrow> frame_of call (bodyFrame call kind m body c)"
  using maybeCompress_header [of body "plain_header kind call" c] frame_of_Encode
  by (auto simp: bodyFrame_def plain_header_def split: prod.splits)

lemma frame_of_controlFrame [simp, intro]: "kind < KindCredit \<Longrightarrow> frame_of call (controlFrame call kind c)"
  using frame_of_Encode [of "plain_header kind call"] by (simp add: controlFrame_def plain_header_def)

text \<open>Changing the record of a call.\<close>

lemma map_len_upd_le_if: "k |\<in>| fmdom m \<Longrightarrow> map_len (fmupd k v m) = map_len m"
  by (rule map_len_upd_present)

lemma safe_put_inflight:
  "call |\<in>| fmdom (c_inflight c) \<Longrightarrow> safe_step call c (put_inflight call record c)"
  by (auto simp: safe_step_def same_static_def untouched_def core_inv_def Core_Role_def
      put_inflight_def map_len_upd_present intro: settles_same)

lemma safe_drop_inflight [intro, simp]: "safe_step call c (drop_inflight call c)"
  using map_len_drop_le [of call "c_inflight c"]
  by (auto simp: safe_step_def same_static_def untouched_def core_inv_def Core_Role_def
      drop_inflight_def intro: settles_same)

lemma settles_put_pending:
  "call |\<in>| fmdom (c_pending c) \<Longrightarrow> settles call c (put_pending call record c)"
  by (simp add: settles_def outcomes_of_def put_pending_def)

lemma safe_put_pending:
  "call |\<in>| fmdom (c_pending c) \<Longrightarrow> safe_step call c (put_pending call record c)"
  using settles_put_pending
  by (auto simp: safe_step_def same_static_def untouched_def core_inv_def Core_Role_def
      put_pending_def map_len_upd_present)

text \<open>Adding a call of the peer while there is room for it.\<close>

lemma safe_new_inflight:
  assumes "\<not> Role_Allocates (Core_Role c) call"
    and "int (map_len (c_inflight c)) < MaxPending (c_config c)"
  shows "safe_step call c (put_inflight call record c)"
  using assms map_len_upd_le [of call "record" "c_inflight c"]
  by (auto simp: safe_step_def same_static_def untouched_def core_inv_def Core_Role_def
      put_inflight_def intro: settles_same)

subsection \<open>The shared steps are safe\<close>

lemma safe_failCall [intro, simp]: "safe_step call c (failCall call status c)"
  unfolding failCall_def by (intro safe_on_outbox outbox_steps frame_of_bodyFrame) simp

lemma safe_PushTerminal_body:
  "kind < KindCredit \<Longrightarrow> safe_step call c (on_outbox (PushTerminal call (bodyFrame call kind m body d)) c)"
  by (intro safe_on_outbox outbox_steps frame_of_bodyFrame)

lemma safe_PushTerminal_control:
  "kind < KindCredit \<Longrightarrow> safe_step call c (on_outbox (PushTerminal call (controlFrame call kind d)) c)"
  by (intro safe_on_outbox outbox_steps frame_of_controlFrame)

lemma safe_Discard [intro, simp]: "safe_step call c (on_outbox (Discard call) c)"
  by (intro safe_on_outbox outbox_steps)

lemma safe_finishInflight [intro, simp]: "safe_step call c (finishInflight call status c)"
proof -
  let ?c2 = "on_outbox (Discard call) (drop_inflight call c)"
  let ?c3 = "on_outbox (PushTerminal call (bodyFrame call KindError (rg_errorID (c_registry ?c2))
    (Status_Encode status) ?c2)) ?c2"
  have "safe_step call c ?c2" by (rule safe_trans [OF safe_drop_inflight safe_Discard])
  moreover have "safe_step call ?c2 ?c3" by (rule safe_PushTerminal_body) simp
  ultimately have "safe_step call c ?c3" by (rule safe_trans)
  moreover have "finishInflight call status c = (case fmlookup (c_inflight c) call of None \<Rightarrow> ?c3
      | Some record \<Rightarrow> run_outbound (r_entered record) (r_context record) (Some status) ?c3)"
    by (simp only: finishInflight_def Let_def)
  ultimately show ?thesis
    by (cases "fmlookup (c_inflight c) call") (auto intro: safe_trans)
qed

text \<open>Settling is the one step that completes a call.\<close>

lemma settlePending_pending:
  "c_pending (settlePending call outcome c) = fmdrop call (c_pending c)"
  by (auto simp: settlePending_def Let_def on_outbox_def run_outbound_def fmdom_notI fmdrop_idle'
      split: option.splits intro!: fmap_ext)

lemma safe_settlePending:
  assumes "o_Call outcome = call" and "Outcome_Terminates outcome"
  shows "safe_step call c (settlePending call outcome c)"
proof (cases "fmlookup (c_pending c) call")
  case None
  then show ?thesis by (simp add: settlePending_def)
next
  case (Some r)
  let ?d = "run_outbound (w_entered r) (w_context r) (o_Status outcome)
    (on_outbox (Discard call) c)"
  have d: "safe_step call c ?d" by (rule safe_trans [OF safe_Discard safe_run_outbound])
  have p: "c_pending ?d = c_pending c" "c_outcomes ?d = c_outcomes c"
    by (simp_all add: run_outbound_def on_outbox_def)
  have eq: "settlePending call outcome c
      = ?d\<lparr>c_pending := fmdrop call (c_pending c), c_outcomes := c_outcomes c @ [outcome]\<rparr>"
    using Some by (simp add: settlePending_def Let_def run_outbound_def on_outbox_def)
  have "call |\<in>| fmdom (c_pending c)" using Some by (rule fmdomI)
  moreover have "outcomes_of call True False [outcome]"
    using assms unfolding outcomes_of_def
    by (intro conjI exI [of _ "[]"] exI [of _ "[outcome]"]) auto
  ultimately have "settles call c (settlePending call outcome c)"
    unfolding eq settles_def by (intro exI [of _ "[outcome]"]) simp
  moreover have "core_inv ?d \<Longrightarrow> core_inv (settlePending call outcome c)"
    using map_len_drop_le [of call "c_pending c"] unfolding eq core_inv_def p
    by (auto simp: Core_Role_def)
  ultimately show ?thesis using d
    by (auto simp: safe_step_def same_static_def untouched_def eq p)
qed

lemma safe_abandonPending [intro, simp]: "safe_step call c (abandonPending call status c)"
proof -
  let ?d = "settlePending call (failed call status) c"
  have d: "safe_step call c ?d"
    by (rule safe_settlePending) (simp_all add: failed_def Outcome_Terminates_def)
  then show ?thesis
    using safe_trans [OF d safe_PushTerminal_control [of KindCancel call ?d ?d]]
    by (auto simp: abandonPending_def Let_def)
qed

lemma safe_failReceived [intro, simp]: "safe_step call c (failReceived call status c)"
  by (simp add: failReceived_def)

subsection \<open>Polling is safe\<close>

lemma safe_collectGrant [intro, simp]: "safe_step call c (collectGrant call c)"
  by (auto simp: collectGrant_def Let_def split: option.splits prod.splits attempt.splits
      intro: safe_trans [OF safe_world safe_finishInflight]
        safe_trans [OF safe_world safe_on_outbox [OF outbox_step_Grant]])

end
