(* ===== verification/CoreSafe.thy ===== *)
theory CoreSafe
  imports CoreInv
begin

text \<open>
  Every received frame and every poll is a safe step of its call; a tick and the end of the
  session are conserving steps; the caller's operations keep the invariant.
\<close>

subsection \<open>Polling\<close>

lemma safe_put_found:
  "fmlookup (c_inflight c) call = Some r \<Longrightarrow> safe_step call c (put_inflight call r' c)"
  by (rule safe_put_inflight) (rule fmdomI)

lemma put_inflight_dom [simp]: "call |\<in>| fmdom (c_inflight (put_inflight call r c))"
  by (simp add: put_inflight_def)

lemma inflight_kept [simp]:
  "c_inflight (c\<lparr>c_world := w\<rparr>) = c_inflight c" "c_inflight (on_outbox f c) = c_inflight c"
  by (simp_all add: on_outbox_def)

lemma safe_settle_poll:
  assumes "kind < KindCredit"
  shows "safe_step call c (run_outbound entered context status
    (on_outbox (PushTerminal call (bodyFrame call kind m body d)) (drop_inflight call c)))"
    and "safe_step call c (run_outbound entered context status
    (on_outbox (PushTerminal call (controlFrame call kind d)) (drop_inflight call c)))"
  by (rule safe_trans [OF safe_trans [OF safe_drop_inflight safe_PushTerminal_body [OF assms]]
        safe_run_outbound],
      rule safe_trans [OF safe_trans [OF safe_drop_inflight safe_PushTerminal_control [OF assms]]
        safe_run_outbound])

lemma safe_push_item:
  assumes "kind < KindCredit" and "call |\<in>| fmdom (c_inflight c)"
  shows "safe_step call c (put_inflight call r
    (on_outbox (\<lambda>b. snd (Push call (bodyFrame call kind m body d) b)) c))"
  using assms by (intro safe_trans [OF safe_on_outbox [OF outbox_step_Push] safe_put_inflight]) auto

lemma safe_poll_step: "poll_step call now c = (again, c') \<Longrightarrow> safe_step call c c'"
proof (cases "fmlookup (c_inflight c) call")
  case None
  then show "poll_step call now c = (again, c') \<Longrightarrow> ?thesis" by (simp add: poll_step_def)
next
  case (Some r)
  assume step: "poll_step call now c = (again, c')"
  show ?thesis
  proof (cases "HasRoom call (c_outbox c)")
    case False
    then show ?thesis using step Some
      by (auto simp: poll_step_def Let_def split: if_splits
          intro: safe_put_found safe_trans [OF safe_put_found safe_finishInflight])
  next
    case True
    let ?r = "r\<lparr>r_fullSince := 0\<rparr>"
    let ?c = "put_inflight call ?r c"
    have 1: "safe_step call c ?c" using Some by (rule safe_put_found)
    obtain progress w where p: "safePoll (r_handler r) now (c_world c) = (progress, w)"
      by (cases "safePoll (r_handler r) now (c_world c)") auto
    have 2: "safe_step call c (?c\<lparr>c_world := w\<rparr>)" using safe_trans [OF 1 safe_world] .
    have d: "call |\<in>| fmdom (c_inflight (?c\<lparr>c_world := w\<rparr>))" by simp
    have w: "c_world ?c = c_world c" by (simp add: put_inflight_def)
    show ?thesis
    proof (cases "CalleeStreams (r_shape r) \<and> starved ?r")
      case True
      then show ?thesis using step Some \<open>HasRoom call (c_outbox c)\<close> 1
        by (simp add: poll_step_def Let_def)
    next
      case False
      then have s: "poll_step call now c = (again, c') \<Longrightarrow> safe_step call (?c\<lparr>c_world := w\<rparr>) c'"
        using Some \<open>HasRoom call (c_outbox c)\<close> p d
        by (auto simp: poll_step_def Let_def w split: if_splits ProgressKind.splits
            intro: safe_push_item safe_settle_poll)
      show ?thesis using safe_trans [OF 2 s [OF step]] .
    qed
  qed
qed

lemma safe_poll_loop [intro, simp]: "safe_step call c (poll_loop call now c)"
proof (induction call now c rule: poll_loop.induct)
  case (1 call now c)
  obtain again d where s: "poll_step call now c = (again, d)" by fastforce
  show ?case
  proof (cases again)
    case True
    then show ?thesis using "1.IH" [OF s [symmetric]] safe_poll_step [OF s] s
      by (subst poll_loop.simps) (auto intro: safe_trans)
  next
    case False
    then show ?thesis using safe_poll_step [OF s] s by (subst poll_loop.simps) auto
  qed
qed

lemma safe_pollOne [intro, simp]: "safe_step call c (pollOne call now c)"
  unfolding pollOne_def by (rule safe_trans [OF safe_collectGrant safe_poll_loop])

subsection \<open>Received frames\<close>

lemma safe_start_call:
  assumes "\<not> Role_Allocates (Core_Role c) call"
    and "int (map_len (c_inflight c)) < MaxPending (c_config c)"
  shows "safe_step call c (start_call call m factory ctx limit entered context body now c)"
proof -
  obtain result w where f: "factory m body (c_world c) = (result, w)"
    by (cases "factory m body (c_world c)") auto
  have n: "safe_step call (c\<lparr>c_world := w\<rparr>) (pollOne call now (put_inflight call r (c\<lparr>c_world := w\<rparr>)))" for r
    using assms by (intro safe_trans [OF safe_new_inflight safe_pollOne]) (simp_all add: Core_Role_def)
  have q: "safe_step call (c\<lparr>c_world := w\<rparr>) (failCall call s (run_outbound entered context t (c\<lparr>c_world := w\<rparr>)))" for s t
    by (rule safe_trans [OF safe_run_outbound safe_failCall])
  have "safe_step call (c\<lparr>c_world := w\<rparr>) (start_call call m factory ctx limit entered context body now c)"
    unfolding start_call_def f Let_def by (auto split: attempt.splits option.splits intro!: n q)
  then show ?thesis by (rule safe_trans [OF safe_world])
qed

lemma safe_admit_request:
  assumes "\<not> Role_Allocates (Core_Role c) call"
    and "int (map_len (c_inflight c)) < MaxPending (c_config c)"
  shows "safe_step call c (admit_request call m factory ctx parsed now c)"
proof -
  have r: "safe_step call c (failCall call s (run_outbound entered context t (c\<lparr>c_world := w\<rparr>)))"
    for s entered "context" t w
    by (rule safe_trans [OF safe_world safe_trans [OF safe_run_outbound safe_failCall]])
  have s: "safe_step call c (start_call call m factory ctx limit entered context body now (c\<lparr>c_world := w\<rparr>))"
    for limit entered "context" body w
    by (rule safe_trans [OF safe_world safe_start_call]) (use assms in \<open>simp_all add: Core_Role_def\<close>)
  show ?thesis unfolding admit_request_def Let_def
    by (auto split: prod.splits option.splits sum.splits intro!: r s)
qed

lemma safe_onRequest [intro, simp]:
  "safe_step (hdr_Call (p_Header parsed)) c (onRequest messageID parsed now c)"
  unfolding onRequest_def Let_def
  by (auto split: option.splits prod.splits intro!: safe_admit_request)

lemma safe_onResponse [intro, simp]: "safe_step call c (onResponse messageID call body c)"
  by (auto simp: onResponse_def failed_def Outcome_Terminates_def split: option.splits
      intro!: safe_settlePending)

lemma safe_onError [intro, simp]: "safe_step call c (onError messageID call body c)"
  by (auto simp: onError_def failed_def Outcome_Terminates_def Let_def intro!: safe_settlePending)

lemma safe_onCallerItem:
  "fmlookup (c_inflight c) call = Some r \<Longrightarrow>
    safe_step call c (onCallerItem call messageID body now r c)"
  by (auto simp: onCallerItem_def Let_def split: prod.splits option.splits
      intro: safe_put_found safe_trans [OF safe_put_found]
        safe_trans [OF safe_trans [OF safe_put_found safe_world]])

lemma safe_outcome_item:
  assumes "call |\<in>| fmdom (c_pending c)" and "o_Kind x = OutcomeItem" and "o_Call x = call"
  shows "safe_step call c (c\<lparr>c_outcomes := c_outcomes c @ [x]\<rparr>)"
proof -
  have "outcomes_of call True True [x]"
    using assms(2,3) unfolding outcomes_of_def Outcome_Terminates_def
    by (intro conjI exI [of _ "[x]"] exI [of _ "[]"]) auto
  then have "settles call c (c\<lparr>c_outcomes := c_outcomes c @ [x]\<rparr>)"
    using assms(1) by (simp add: settles_def)
  then show ?thesis
    by (simp add: safe_step_def same_static_def untouched_def core_inv_def Core_Role_def)
qed

lemma safe_onItem [intro, simp]: "safe_step call c (onItem messageID call body now c)"
  by (auto simp: onItem_def split: option.splits intro: safe_onCallerItem safe_outcome_item fmdomI)

lemma safe_onCallerEnd:
  assumes "fmlookup (c_inflight c) call = Some r"
  shows "safe_step call c (onCallerEnd messageID call now r c)"
proof -
  let ?c = "put_inflight call (r\<lparr>r_lastHeard := now\<rparr>) c"
  have 1: "safe_step call c ?c" using assms by (rule safe_put_found)
  have 2: "safe_step call ?c (put_inflight call r' ?c)" for r' by (rule safe_put_inflight) simp
  have 3: "safe_step call ?c ((put_inflight call r' ?c)\<lparr>c_world := w\<rparr>)" for r' w
    by (rule safe_trans [OF 2 safe_world])
  have "safe_step call ?c (onCallerEnd messageID call now r c)"
    unfolding onCallerEnd_def Let_def
    by (auto split: prod.splits option.splits intro: safe_trans [OF 3 safe_finishInflight]
        safe_trans [OF 3 safe_pollOne])
  with 1 show ?thesis by (rule safe_trans)
qed

lemma safe_onEnd [intro, simp]: "safe_step call c (onEnd messageID call now c)"
  by (auto simp: onEnd_def Outcome_Terminates_def split: option.splits
      intro: safe_onCallerEnd safe_settlePending)

lemma safe_onCancel [intro, simp]: "safe_step call c (onCancel messageID call c)"
  by (auto simp: onCancel_def Let_def split: option.splits
      intro: safe_trans [OF safe_run_cancel safe_finishInflight])

lemma safe_onCredit [intro, simp]: "safe_step call c (onCredit messageID call body now c)"
  by (auto simp: onCredit_def Let_def split: option.splits
      intro: safe_put_found safe_put_pending fmdomI)

lemma safe_dispatch:
  "safe_step (hdr_Call (p_Header parsed)) c (dispatch messageID parsed now c)"
  by (simp add: dispatch_def Let_def)

text \<open>The call a payload is about, by its header bytes.\<close>

lemma hdr_Call_Decode: "Decode payload limit = Inr q \<Longrightarrow> hdr_Call (p_Header q) = ReadCallID payload"
  by (auto simp: Decode_def Let_def split: if_splits)

lemma safe_OnMessage:
  assumes "OnMessage messageID payload now c = (mine, c')"
  shows "safe_step (ReadCallID payload) c c'"
proof (cases "Decode payload (MaxCtxLen (c_config c))")
  case (Inl e)
  with assms show ?thesis by (auto simp: OnMessage_def rejectUndecodable_def split: if_splits)
next
  case (Inr q)
  note call = hdr_Call_Decode [OF Inr]
  have d: "safe_step (ReadCallID payload) c (dispatch messageID q now c)"
    using safe_dispatch [of q c messageID now] call by simp
  have b: "safe_step (ReadCallID payload) c (dispatch messageID (q\<lparr>p_Body := body\<rparr>) now c)" for body
    using safe_dispatch [of "q\<lparr>p_Body := body\<rparr>" c messageID now] call by simp
  from assms Inr call d b show ?thesis
    by (auto simp: OnMessage_def split: if_splits sum.splits)
qed

end
