(* ===== verification/CoreRuns.thy ===== *)
theory CoreRuns
  imports CoreSafe
begin

text \<open>
  The operations of the core over its life.  The caller's operations keep the invariant; a tick
  completes exactly the pending calls whose deadline has passed; the end of the session
  completes every pending call once.  A run is an inductive relation over all operations that
  records the calls started and the outcomes taken: each started call is completed by exactly
  one outcome, or is still pending.
\<close>

subsection \<open>Steps for many calls\<close>

definition terminals :: "Outcome list \<Rightarrow> CallID list" where
  "terminals os = map o_Call (filter Outcome_Terminates os)"

definition pending_calls :: "'w Core \<Rightarrow> CallID multiset" where
  "pending_calls c = mset_set (fset (fmdom (c_pending c)))"

definition conserves :: "'w Core \<Rightarrow> 'w Core \<Rightarrow> bool" where
  "conserves c c' \<longleftrightarrow> (core_inv c \<longrightarrow> core_inv c')
    \<and> (\<exists>new. c_outcomes c' = c_outcomes c @ new
         \<and> mset (terminals new) + pending_calls c' = pending_calls c)"

lemma terminals_simps [simp]:
  "terminals [] = []" "terminals (xs @ ys) = terminals xs @ terminals ys"
  by (simp_all add: terminals_def)

locale preorder_steps =
  fixes R :: "'s \<Rightarrow> 's \<Rightarrow> bool"
  assumes step_refl: "R s s"
    and step_trans: "R s t \<Longrightarrow> R t u \<Longrightarrow> R s u"
begin

lemma step_fold: "(\<And>x s. R s (f x s)) \<Longrightarrow> R s (fold f xs s)"
  by (induction xs arbitrary: s) (auto intro: step_refl step_trans)

end

interpretation conserving: preorder_steps conserves
proof unfold_locales
  fix c d e :: "'w Core"
  show "conserves c c" by (simp add: conserves_def)
  assume cd: "conserves c d" and de: "conserves d e"
  then obtain xs ys where x: "c_outcomes d = c_outcomes c @ xs"
      "mset (terminals xs) + pending_calls d = pending_calls c"
    and y: "c_outcomes e = c_outcomes d @ ys" "mset (terminals ys) + pending_calls e = pending_calls d"
    unfolding conserves_def by blast
  have "mset (terminals (xs @ ys)) + pending_calls e = pending_calls c"
    unfolding x(2) [symmetric] y(2) [symmetric] by (simp add: ac_simps)
  moreover have "c_outcomes e = c_outcomes c @ xs @ ys" using x(1) y(1) by simp
  ultimately show "conserves c e" using cd de unfolding conserves_def by blast
qed

interpretation static: preorder_steps same_static
  by unfold_locales (auto simp: same_static_def)

lemma pending_calls_drop:
  "k |\<in>| fmdom m \<Longrightarrow> add_mset k (mset_set (fset (fmdom m) - {k})) = mset_set (fset (fmdom m))"
  by (metis finite_fset mset_set.remove)

lemma safe_conserves:
  assumes "safe_step call c c'"
  shows "conserves c c'"
proof -
  let ?p = "call |\<in>| fmdom (c_pending c)" and ?q = "call |\<in>| fmdom (c_pending c')"
  from assms obtain new where new: "c_outcomes c' = c_outcomes c @ new" "outcomes_of call ?p ?q new"
    by (auto simp: safe_step_def settles_def)
  have others: "k \<noteq> call \<Longrightarrow> k |\<in>| fmdom (c_pending c') \<longleftrightarrow> k |\<in>| fmdom (c_pending c)" for k
    using assms by (auto simp: safe_step_def untouched_def fmlookup_dom_iff)
  have "mset (terminals new) + pending_calls c' = pending_calls c"
  proof (cases "?p \<and> \<not> ?q")
    case True
    then obtain items x where "new = items @ [x]" "o_Call x = call" "Outcome_Terminates x"
      "\<forall>y \<in> set items. \<not> Outcome_Terminates y"
      using new(2) by (auto simp: outcomes_of_def)
    then have t: "terminals new = [call]" by (simp add: terminals_def)
    have "fset (fmdom (c_pending c')) = fset (fmdom (c_pending c)) - {call}"
      using others True by (auto; metis)
    then show ?thesis using t True pending_calls_drop [of call "c_pending c"]
      by (simp add: pending_calls_def)
  next
    case False
    then have "?q = ?p" and "\<forall>y \<in> set new. \<not> Outcome_Terminates y"
      using new(2) by (auto simp: outcomes_of_def)
    moreover then have "fset (fmdom (c_pending c')) = fset (fmdom (c_pending c))"
      using others by (metis (full_types) subsetI subset_antisym)
    ultimately show ?thesis by (simp add: terminals_def pending_calls_def)
  qed
  with new(1) assms show ?thesis by (auto simp: conserves_def safe_step_def)
qed

lemma safe_static: "safe_step call c c' \<Longrightarrow> same_static c c'"
  by (simp add: safe_step_def)

subsection \<open>The caller's operations\<close>

lemma safe_Push:
  assumes "Push call f (c_outbox c) = (ok, b)" and "frame_of call f"
  shows "safe_step call c (c\<lparr>c_outbox := b\<rparr>)"
proof -
  have "safe_step call c (on_outbox (\<lambda>b. snd (Push call f b)) c)"
    using assms(2) by (intro safe_on_outbox outbox_step_Push)
  then show ?thesis using assms(1) by (simp add: on_outbox_def)
qed

lemma safe_push_put_pending:
  assumes "Push call f (c_outbox c) = (ok, b)" and "frame_of call f" and "call |\<in>| fmdom (c_pending c)"
  shows "safe_step call c (put_pending call r (c\<lparr>c_outbox := b\<rparr>))"
  using assms(3) by (intro safe_trans [OF safe_Push [OF assms(1,2)] safe_put_pending]) simp

lemma safe_SendItem: "SendItem call body c = (r, c') \<Longrightarrow> safe_step call c c'"
  by (auto simp: SendItem_def Let_def split: option.splits if_splits prod.splits bool.splits
      intro: safe_Push safe_push_put_pending fmdomI)

lemma safe_CloseSend: "CloseSend call c = (r, c') \<Longrightarrow> safe_step call c c'"
  by (auto simp: CloseSend_def Let_def split: option.splits if_splits prod.splits bool.splits
      intro: safe_Push safe_push_put_pending fmdomI)

lemma safe_Core_Grant: "Core_Grant call items c = (r, c') \<Longrightarrow> safe_step call c c'"
  by (auto simp: Core_Grant_def Let_def split: option.splits if_splits
      intro: safe_on_outbox outbox_step_Grant)

lemma safe_Core_Cancel [intro, simp]: "safe_step call c (Core_Cancel call c)"
  by (simp add: Core_Cancel_def)

text \<open>What \<open>Call\<close> does: on an error no call is pending that was not, and no frame is queued; else a
  fresh id of the core's own parity is pending and its REQUEST is the last frame of its queue.\<close>

definition started :: "CallID \<Rightarrow> 'w Core \<Rightarrow> 'w Core \<Rightarrow> bool" where
  "started call c c' \<longleftrightarrow> call |\<notin>| fmdom (c_pending c) \<and> Role_Allocates (Core_Role c) call
    \<and> HasRoom call (c_outbox c)
    \<and> (\<exists>record. c_pending c' = fmupd call record (c_pending c))
    \<and> (\<exists>f. frame_of call f \<and> KindBits (og_Payload f ! 0) = KindRequest
         \<and> c_outbox c' = Outbox_append call f (c_outbox c))"

definition call_result :: "CallError + CallID \<Rightarrow> 'w Core \<Rightarrow> 'w Core \<Rightarrow> bool" where
  "call_result r c c' \<longleftrightarrow>
    (case r of Inl err \<Rightarrow> c_pending c' = c_pending c \<and> c_outbox c' = c_outbox c
     | Inr call \<Rightarrow> started call c c')
    \<and> c_inflight c' = c_inflight c \<and> c_outcomes c' = c_outcomes c \<and> c_registry c' = c_registry c
    \<and> c_config c' = c_config c \<and> c_chain c' = c_chain c \<and> c_ready c' = c_ready c
    \<and> c_finished c' = c_finished c"

lemma queue_request_result:
  assumes "queue_request requestID body m call entered context now c = (r, c')"
    and "call |\<notin>| fmdom (c_pending c)" and "Role_Allocates (Core_Role c) call"
  shows "call_result r c c' \<and> c_ids c' = c_ids c \<and> (\<forall>k. r = Inr k \<longrightarrow> k = call)"
proof -
  let ?ctx = "cc_Ctx context"
  define header where "header = request_header call ?ctx"
  define enc where "enc = encoded_ctx header ?ctx"
  obtain sent h where mc: "maybeCompress body header c = (sent, h)" by fastforce
  let ?f = "\<lparr>og_MessageID = requestID, og_Payload = Encode h enc sent\<rparr>"
  have h: "hdr_Kind h = KindRequest" "hdr_Call h = call"
    using maybeCompress_header [OF mc] by (simp_all add: header_def request_header_def)
  then have f: "frame_of call ?f" "KindBits (og_Payload ?f ! 0) = KindRequest"
    using frame_of_Encode [of h requestID enc sent] by (simp_all add: KindBits_Encode)
  show ?thesis
  proof (cases rule: Push_cases [of call "c_outbox c" ?f])
    case full
    with assms mc show ?thesis
      by (auto simp: queue_request_def Let_def call_result_def run_outbound_def
          header_def [symmetric] enc_def [symmetric] split: if_splits)
  next
    case room
    have "started call c (put_pending call rec (c\<lparr>c_outbox := Outbox_append call ?f (c_outbox c)\<rparr>))"
      for "rec"
      using assms(2,3) f room(1) unfolding started_def put_pending_def
      by (intro conjI exI [of _ ?f] exI [of _ "rec"]) simp_all
    then have "call_result (Inr call) c
        (put_pending call rec (c\<lparr>c_outbox := Outbox_append call ?f (c_outbox c)\<rparr>))" for "rec"
      by (simp add: call_result_def) (simp add: put_pending_def)
    with assms(1) mc room(2) show ?thesis
      by (auto simp: queue_request_def Let_def header_def [symmetric] enc_def [symmetric]
          split: if_splits) (simp_all add: call_result_def run_outbound_def put_pending_def)
  qed
qed

lemma send_request_result:
  assumes "send_request requestID body m call outgoing now c = (r, c')"
    and "call |\<notin>| fmdom (c_pending c)" and "Role_Allocates (Core_Role c) call"
  shows "call_result r c c' \<and> c_ids c' = c_ids c \<and> (\<forall>k. r = Inr k \<longrightarrow> k = call)"
proof -
  obtain entered x "context" w where i: "Chain_Outgoing (c_chain c)
      (newCallContext call m now outgoing (c_identity c) SenderCaller) (c_world c)
    = (entered, x, context, w)" by (metis prod_cases4)
  show ?thesis
  proof (cases x)
    case (Some rejection)
    with assms(1) i show ?thesis by (auto simp: send_request_def call_result_def run_outbound_def)
  next
    case None
    with assms(1) i have
      "queue_request requestID body m call entered context now (c\<lparr>c_world := w\<rparr>) = (r, c')"
      by (simp add: send_request_def)
    from queue_request_result [OF this] assms(2,3) show ?thesis
      by (auto simp: call_result_def started_def Core_Role_def split: sum.splits)
  qed
qed

lemma Core_Call_result:
  assumes "Core_Call requestID body ctx options now c = (r, c')" and "core_inv c"
  shows "call_result r c c' \<and> allocator_ok (c_ids c') \<and> Core_Role c' = Core_Role c
    \<and> (\<forall>call. r = Inr call \<longrightarrow> int (map_len (c_pending c)) < MaxPending (c_config c))"
proof -
  have ok: "allocator_ok (c_ids c)" using assms(2) by (simp add: core_inv_def)
  obtain a ids where a: "Allocate (has_key (c_pending c)) (c_ids c) = (a, ids)" by fastforce
  have ids: "allocator_ok ids \<and> al_role ids = al_role (c_ids c)"
    using Allocate_keeps [OF a ok] .
  show ?thesis
  proof (cases "\<exists>m call. MethodFor requestID (c_registry c) = Some m \<and> a = Some call \<and> c_ready c
      \<and> int (length body) \<le> MaxBodyLen (c_config c)
      \<and> int (map_len (c_pending c)) < MaxPending (c_config c)")
    case True
    then obtain m call where t: "MethodFor requestID (c_registry c) = Some m" "a = Some call" "c_ready c"
      "int (length body) \<le> MaxBodyLen (c_config c)"
      "int (map_len (c_pending c)) < MaxPending (c_config c)" by blast
    with assms(1) a have s: "send_request requestID body m call (call_ctx ctx options) now
      (c\<lparr>c_ids := ids\<rparr>) = (r, c')" by (simp add: Core_Call_def)
    have "call |\<notin>| fmdom (c_pending c)" "Role_Allocates (al_role (c_ids c)) call"
      using Allocate_Some [OF a [unfolded t(2)] ok] by simp_all
    with send_request_result [OF s] ids t(5) show ?thesis
      by (auto simp: call_result_def started_def Core_Role_def split: sum.splits)
  next
    case False
    then have "\<exists>e. r = Inl e \<and> (c' = c \<or> c' = c\<lparr>c_ids := ids\<rparr>)"
      using assms(1) a by (cases a) (auto simp: Core_Call_def split: if_splits option.splits)
    with ids ok show ?thesis by (auto simp: call_result_def Core_Role_def)
  qed
qed

end
