(* ===== verification/CoreLife.thy ===== *)
theory CoreLife
  imports CoreRuns
begin

text \<open>
  Runs of the core.  \<open>reaches\<close> is the relation of all operations of the core, with the calls that
  were started and the outcomes that were taken so far; the invariant and the accounting of
  calls hold in every core that is reached.  A tick completes exactly the pending calls whose
  deadline has passed, and the end of a session completes all of them.
\<close>

subsection \<open>Calls keep the invariant\<close>

lemma core_inv_call_result:
  assumes "core_inv c" and "call_result r c c'" and "allocator_ok (c_ids c')"
    and "Core_Role c' = Core_Role c"
    and "\<And>call. r = Inr call \<Longrightarrow> int (map_len (c_pending c)) < MaxPending (c_config c)"
  shows "core_inv c'"
proof (cases r)
  case (Inl e)
  with assms show ?thesis by (simp add: call_result_def core_inv_def)
next
  case (Inr call)
  with assms(2) obtain r' f where p: "c_pending c' = fmupd call r' (c_pending c)"
    and b: "frame_of call f" "c_outbox c' = Outbox_append call f (c_outbox c)"
    and a: "Role_Allocates (Core_Role c) call"
    and e: "c_inflight c' = c_inflight c" "c_config c' = c_config c"
    by (auto simp: call_result_def started_def)
  have "map_len (c_pending c') \<le> Suc (map_len (c_pending c))"
    unfolding p by (rule map_len_upd_le)
  with assms(1,3,4,5) Inr a outbox_step_append [OF b(1)] show ?thesis
    unfolding core_inv_def e b(2) outbox_step_def by (auto simp: p)
qed

lemma core_inv_Call:
  "Core_Call requestID body ctx options now c = (r, c') \<Longrightarrow> core_inv c \<Longrightarrow> core_inv c'"
  using Core_Call_result core_inv_call_result by metis

lemma pending_calls_Call:
  assumes "Core_Call requestID body ctx options now c = (r, c')" and "core_inv c"
  shows "c_outcomes c' = c_outcomes c"
    and "r = Inr call \<Longrightarrow> pending_calls c' = add_mset call (pending_calls c)"
    and "r = Inl e \<Longrightarrow> pending_calls c' = pending_calls c"
  using Core_Call_result [OF assms]
  by (auto simp: call_result_def started_def pending_calls_def)

text \<open>A free id always exists below two billion pending calls.\<close>

lemma card_parity:
  assumes "finite A" and "\<And>c. Role_Allocates role c \<Longrightarrow> c \<in> A"
  shows "2 ^ 31 \<le> card A"
proof -
  let ?c0 = "al_next (NewCallIDAllocator role)"
  let ?f = "\<lambda>i. ?c0 + 2 * of_nat i :: u32"
  have r: "Role_Allocates role (?f i)" for i
    using allocator_ok_new [of role] CallID_Even_step [of ?c0 i]
    by (auto simp: allocator_ok_def NewCallIDAllocator_def Role_Allocates_def Let_def split: if_splits)
  have "inj_on ?f {..< 2 ^ 31}"
  proof (rule inj_onI)
    fix i j :: nat assume ij: "i \<in> {..< 2 ^ 31}" "j \<in> {..< 2 ^ 31}" "?f i = ?f j"
    then have "(of_nat (2 * i) :: u32) = of_nat (2 * j)" by simp
    moreover have "unat (of_nat (2 * i) :: u32) = 2 * i" "unat (of_nat (2 * j) :: u32) = 2 * j"
      using ij(1,2) by (auto intro!: unat_of_length simp del: of_nat_mult)
    ultimately show "i = j" by simp
  qed
  then have "card (?f ` {..< 2 ^ 31}) = 2 ^ 31" by (simp add: card_image)
  moreover have "card (?f ` {..< 2 ^ 31}) \<le> card A"
    by (rule card_mono [OF assms(1)]) (use r assms(2) in blast)
  ultimately show ?thesis by simp
qed

lemma Core_Call_exhausted:
  assumes "Core_Call requestID body ctx options now c = (Inl ErrCallIDExhausted, c')"
    and "core_inv c"
  shows "2 ^ 31 < MaxPending (c_config c)"
proof -
  obtain a ids where a: "Allocate (has_key (c_pending c)) (c_ids c) = (a, ids)" by fastforce
  show ?thesis
  proof (cases a)
    case None
    have l: "int (map_len (c_pending c)) < MaxPending (c_config c)"
      using assms(1) by (auto simp: Core_Call_def split: if_splits option.splits)
    have "allocator_ok (c_ids c)" using assms(2) by (simp add: core_inv_def)
    from Allocate_None_iff [OF this, of "has_key (c_pending c)"] a None
    have "\<forall>k. Role_Allocates (al_role (c_ids c)) k \<longrightarrow> k |\<in>| fmdom (c_pending c)" by simp
    then have "2 ^ 31 \<le> card (fset (fmdom (c_pending c)))"
      by (intro card_parity [of _ "al_role (c_ids c)"]) auto
    then show ?thesis using l by (simp add: map_len_def fcard.rep_eq)
  next
    case (Some k)
    have "False" if s: "send_request requestID body m k ctx' now d = (Inl ErrCallIDExhausted, c')" for m ctx' d
      using s by (auto simp: send_request_def queue_request_def Let_def
          split: prod.splits option.splits if_splits bool.splits)
    with assms(1) a Some show ?thesis by (auto simp: Core_Call_def split: if_splits option.splits)
  qed
qed

subsection \<open>Which tables a step leaves alone\<close>

lemma kept_by_steps [core_frames]:
  "c_pending (run_outbound e x s c) = c_pending c" "c_outcomes (run_outbound e x s c) = c_outcomes c"
  "c_inflight (run_outbound e x s c) = c_inflight c"
  "c_pending (run_cancel h c) = c_pending c" "c_outcomes (run_cancel h c) = c_outcomes c"
  "c_inflight (run_cancel h c) = c_inflight c"
  "c_pending (on_outbox f c) = c_pending c" "c_outcomes (on_outbox f c) = c_outcomes c"
  "c_pending (put_inflight k r c) = c_pending c" "c_outcomes (put_inflight k r c) = c_outcomes c"
  "c_pending (drop_inflight k c) = c_pending c" "c_outcomes (drop_inflight k c) = c_outcomes c"
  by (simp_all add: run_outbound_def run_cancel_def on_outbox_def put_inflight_def drop_inflight_def)

lemma kept_by_finish [core_frames]:
  "c_pending (finishInflight k s c) = c_pending c" "c_outcomes (finishInflight k s c) = c_outcomes c"
  by (auto simp: finishInflight_def Let_def core_frames split: option.splits)

lemma kept_by_collectGrant [core_frames]:
  "c_pending (collectGrant k c) = c_pending c" "c_outcomes (collectGrant k c) = c_outcomes c"
  by (auto simp: collectGrant_def Let_def core_frames split: option.splits prod.splits attempt.splits)

lemma kept_by_poll_step:
  "poll_step k now c = (again, c') \<Longrightarrow> c_pending c' = c_pending c \<and> c_outcomes c' = c_outcomes c"
  by (auto simp: poll_step_def Let_def core_frames
      split: option.splits if_splits prod.splits ProgressKind.splits)

lemma kept_by_poll_loop:
  "c_pending (poll_loop k now c) = c_pending c \<and> c_outcomes (poll_loop k now c) = c_outcomes c"
proof (induction k now c rule: poll_loop.induct)
  case (1 k now c)
  obtain again d where s: "poll_step k now c = (again, d)" by fastforce
  with "1.IH" [OF s [symmetric]] kept_by_poll_step [OF s] show ?case
    by (subst (1 2) poll_loop.simps) simp
qed

lemma kept_by_pollOne [core_frames]:
  "c_pending (pollOne k now c) = c_pending c" "c_outcomes (pollOne k now c) = c_outcomes c"
  by (simp_all add: pollOne_def kept_by_poll_loop core_frames)

lemma inflight_kept_by_settle [core_frames]:
  "c_inflight (settlePending k x c) = c_inflight c"
  "c_inflight (abandonPending k s c) = c_inflight c"
  by (auto simp: settlePending_def abandonPending_def Let_def core_frames split: option.splits)

lemma outcomes_abandonPending:
  "k |\<in>| fmdom (c_pending c) \<Longrightarrow>
    c_outcomes (abandonPending k s c) = c_outcomes c @ [failed k s]
    \<and> c_pending (abandonPending k s c) = fmdrop k (c_pending c)"
  by (auto simp: settlePending_def abandonPending_def Let_def core_frames fmlookup_dom_iff)

subsection \<open>Ticks\<close>

text \<open>A pending call whose deadline has come.\<close>

definition overdue :: "gotime \<Rightarrow> 'w Core \<Rightarrow> CallID \<Rightarrow> bool" where
  "overdue now c k \<longleftrightarrow> (case fmlookup (c_pending c) k of None \<Rightarrow> False
     | Some record \<Rightarrow> w_deadline record \<noteq> 0 \<and> w_deadline record \<le> now)"

lemma overdue_drop: "k \<noteq> j \<Longrightarrow> c_pending d = fmdrop j (c_pending c) \<Longrightarrow> overdue now d k = overdue now c k"
  by (simp add: overdue_def)

lemma expire_pending_fold:
  assumes "distinct ks"
  shows "c_outcomes (fold (expire_pending_at now) ks c)
      = c_outcomes c @ map (\<lambda>k. failed k DeadlineExceeded) (filter (overdue now c) ks)
    \<and> c_pending (fold (expire_pending_at now) ks c)
      = fmfilter (\<lambda>k. \<not> (k \<in> set ks \<and> overdue now c k)) (c_pending c)"
  using assms
proof (induction ks arbitrary: c)
  case Nil
  then show ?case by (auto intro: fmap_ext)
next
  case (Cons k ks)
  let ?d = "expire_pending_at now k c"
  show ?case
  proof (cases "overdue now c k")
    case True
    then have "?d = abandonPending k DeadlineExceeded c" and "k |\<in>| fmdom (c_pending c)"
      by (auto simp: overdue_def expire_pending_at_def fmlookup_dom_iff split: option.splits)
    then have d: "c_outcomes ?d = c_outcomes c @ [failed k DeadlineExceeded]"
      "c_pending ?d = fmdrop k (c_pending c)" using outcomes_abandonPending by metis+
    have o: "\<forall>j \<in> set ks. overdue now ?d j = overdue now c j"
      using Cons.prems by (intro ballI overdue_drop [OF _ d(2)]) auto
    then have "filter (overdue now ?d) ks = filter (overdue now c) ks" by (simp cong: filter_cong)
    moreover have "fmfilter (\<lambda>j. \<not> (j \<in> set ks \<and> overdue now ?d j)) (c_pending ?d)
        = fmfilter (\<lambda>j. \<not> (j \<in> set (k # ks) \<and> overdue now c j)) (c_pending c)"
      using o True d(2) by (intro fmap_ext) auto
    moreover have "distinct ks" using Cons.prems by simp
    note IH = Cons.IH [OF this, of ?d]
    ultimately show ?thesis using IH d(1) True by (simp del: not_imp)
  next
    case False
    then have "?d = c"
      by (auto simp: overdue_def expire_pending_at_def split: option.splits)
    moreover have "fmfilter (\<lambda>j. \<not> (j \<in> set ks \<and> overdue now c j)) (c_pending c)
        = fmfilter (\<lambda>j. \<not> (j \<in> set (k # ks) \<and> overdue now c j)) (c_pending c)"
      using False by (intro fmap_ext) auto
    ultimately show ?thesis using Cons False by simp
  qed
qed

lemma sortedKeys_props [simp]:
  "distinct (sortedKeys m)" "set (sortedKeys m) = fset (fmdom m)" "sorted (sortedKeys m)"
  by (simp_all add: sortedKeys_def sorted_list_of_fset.rep_eq)

lemma Tick_pending:
  "c_outcomes (Tick now c) = c_outcomes c
      @ map (\<lambda>k. failed k DeadlineExceeded) (filter (overdue now c) (sortedKeys (c_pending c)))"
  "c_pending (Tick now c) = fmfilter (\<lambda>k. \<not> overdue now c k) (c_pending c)"
proof -
  have e: "c_pending (fold (expire_inflight_at now) ks d) = c_pending d
      \<and> c_outcomes (fold (expire_inflight_at now) ks d) = c_outcomes d" for ks and d :: "'a Core"
    by (induction ks arbitrary: d) (auto simp: expire_inflight_at_def core_frames split: option.splits)
  have p: "c_pending (fold (\<lambda>call. pollOne call now) ks d) = c_pending d
      \<and> c_outcomes (fold (\<lambda>call. pollOne call now) ks d) = c_outcomes d" for ks and d :: "'a Core"
    by (induction ks arbitrary: d) (auto simp: core_frames)
  have "fmfilter (\<lambda>k. \<not> (k \<in> set (sortedKeys (c_pending c)) \<and> overdue now c k)) (c_pending c)
      = fmfilter (\<lambda>k. \<not> overdue now c k) (c_pending c)"
    by (intro fmap_ext) (auto simp: overdue_def split: option.splits)
  then show "c_outcomes (Tick now c) = c_outcomes c
      @ map (\<lambda>k. failed k DeadlineExceeded) (filter (overdue now c) (sortedKeys (c_pending c)))"
    and "c_pending (Tick now c) = fmfilter (\<lambda>k. \<not> overdue now c k) (c_pending c)"
    using expire_pending_fold [of "sortedKeys (c_pending c)" now c]
    by (simp_all add: Tick_def Let_def e p expireInflight_def expirePending_def)
qed

text \<open>After a tick no pending call is overdue, and no running call has expired.\<close>

lemma Tick_not_overdue: "\<not> overdue now (Tick now c) k"
  by (auto simp: overdue_def Tick_pending split: option.splits)

definition expired :: "gotime \<Rightarrow> 'w Core \<Rightarrow> CallID \<Rightarrow> bool" where
  "expired now c k \<longleftrightarrow> (case fmlookup (c_inflight c) k of None \<Rightarrow> False
     | Some record \<Rightarrow> nextExpiry record \<noteq> 0 \<and> nextExpiry record \<le> now)"

text \<open>Steps that serve a call never bring its expiry nearer: they keep it or remove the call.\<close>

definition keeps_expiry :: "'w Core \<Rightarrow> 'w Core \<Rightarrow> bool" where
  "keeps_expiry c c' \<longleftrightarrow> (\<forall>k. case fmlookup (c_inflight c') k of None \<Rightarrow> True
     | Some r' \<Rightarrow> (\<exists>r. fmlookup (c_inflight c) k = Some r \<and> nextExpiry r' = nextExpiry r))"

interpretation expiry: preorder_steps keeps_expiry
  by unfold_locales (fastforce simp: keeps_expiry_def split: option.splits)+

lemma keeps_expiry_same: "c_inflight c' = c_inflight c \<Longrightarrow> keeps_expiry c c'"
  by (simp add: keeps_expiry_def split: option.splits)

lemma keeps_expiry_drop: "c_inflight c' = fmdrop k (c_inflight c) \<Longrightarrow> keeps_expiry c c'"
  by (simp add: keeps_expiry_def split: option.splits)

lemma keeps_expiry_put:
  "fmlookup (c_inflight c) k = Some r \<Longrightarrow> nextExpiry r' = nextExpiry r
    \<Longrightarrow> c_inflight c' = fmupd k r' (c_inflight c) \<Longrightarrow> keeps_expiry c c'"
  by (auto simp: keeps_expiry_def split: option.splits)

lemma inflight_finish: "c_inflight (finishInflight k s c) = fmdrop k (c_inflight c)"
  by (auto simp: finishInflight_def Let_def core_frames drop_inflight_def split: option.splits)

lemma keeps_expiry_finish: "keeps_expiry c (finishInflight k s c)"
  by (rule keeps_expiry_drop) (rule inflight_finish)

lemma nextExpiry_update [simp]:
  "nextExpiry (r\<lparr>r_fullSince := t\<rparr>) = nextExpiry r" "nextExpiry (r\<lparr>r_credit := n\<rparr>) = nextExpiry r"
  by (simp_all add: nextExpiry_def)

lemma keeps_expiry_collectGrant: "keeps_expiry c (collectGrant k c)"
  by (auto simp: collectGrant_def Let_def core_frames inflight_finish
      split: option.splits prod.splits attempt.splits
      intro: keeps_expiry_same keeps_expiry_drop [of _ k])

lemma fmdrop_upd [simp]: "fmdrop k (fmupd k v m) = fmdrop k m"
  by (intro fmap_ext) auto

lemma fmupd_upd [simp]: "fmupd k v (fmupd k w m) = fmupd k v m"
  by (intro fmap_ext) auto

lemma keeps_expiry_poll_step:
  assumes "poll_step k now c = (again, c')"
  shows "keeps_expiry c c'"
proof (cases "fmlookup (c_inflight c) k")
  case None
  with assms show ?thesis by (auto simp: poll_step_def intro: keeps_expiry_same)
next
  case (Some r)
  have "c_inflight c' = fmdrop k (c_inflight c)
      \<or> (\<exists>r'. c_inflight c' = fmupd k r' (c_inflight c) \<and> nextExpiry r' = nextExpiry r)
      \<or> c_inflight c' = c_inflight c"
    using assms Some
    by (auto simp: poll_step_def Let_def core_frames inflight_finish put_inflight_def drop_inflight_def
        run_outbound_def on_outbox_def
        split: if_splits prod.splits ProgressKind.splits intro: exI [of _ "r"])
  then show ?thesis using Some keeps_expiry_drop keeps_expiry_put keeps_expiry_same by metis
qed

lemma keeps_expiry_pollOne: "keeps_expiry c (pollOne k now c)"
proof -
  have "keeps_expiry d (poll_loop k now d)" for d
  proof (induction k now d rule: poll_loop.induct)
    case (1 k now d)
    obtain again e where s: "poll_step k now d = (again, e)" by fastforce
    with "1.IH" [OF s [symmetric]] keeps_expiry_poll_step [OF s] show ?case
      by (subst poll_loop.simps) (auto intro: expiry.step_trans)
  qed
  then show ?thesis unfolding pollOne_def by (rule expiry.step_trans [OF keeps_expiry_collectGrant])
qed

lemma expire_inflight_fold:
  "c_inflight (fold (expire_inflight_at now) ks c)
    = fmfilter (\<lambda>k. \<not> (k \<in> set ks \<and> expired now c k)) (c_inflight c)"
proof (induction ks arbitrary: c)
  case Nil
  then show ?case by (auto intro: fmap_ext)
next
  case (Cons k ks)
  let ?d = "expire_inflight_at now k c"
  have d: "c_inflight ?d = (if expired now c k then fmdrop k (c_inflight c) else c_inflight c)"
    by (auto simp: expire_inflight_at_def expired_def inflight_finish core_frames split: option.splits)
  then have "expired now ?d j = (expired now c j \<and> \<not> (expired now c k \<and> j = k))" for j
    by (auto simp: expired_def)
  then have "c_inflight (fold (expire_inflight_at now) ks ?d)
      = fmfilter (\<lambda>j. \<not> (j \<in> set ks \<and> expired now c j \<and> \<not> (expired now c k \<and> j = k)))
          (if expired now c k then fmdrop k (c_inflight c) else c_inflight c)"
    unfolding Cons.IH d by simp
  also have "\<dots> = fmfilter (\<lambda>j. \<not> (j \<in> set (k # ks) \<and> expired now c j)) (c_inflight c)"
    by (intro fmap_ext) auto
  finally show ?case by simp
qed

lemma Tick_not_expired: "\<not> expired now (Tick now c) k"
proof -
  let ?d = "expireInflight now (expirePending now c)"
  let ?e = "fold (\<lambda>call. pollOne call now) (sortedKeys (c_inflight ?d)) ?d"
  have "\<not> expired now ?d j" for j
    by (auto simp: expired_def expireInflight_def expire_inflight_fold split: option.splits)
  moreover have "keeps_expiry ?d ?e" by (rule expiry.step_fold) (rule keeps_expiry_pollOne)
  ultimately have "\<not> expired now ?e k"
    by (fastforce simp: expired_def keeps_expiry_def split: option.splits)
  then show ?thesis by (simp add: Tick_def Let_def)
qed

subsection \<open>The end of the session\<close>

lemma settle_unavailable_fold:
  assumes "distinct ks" and "set ks \<subseteq> fset (fmdom (c_pending c))"
  shows "c_outcomes (fold settle_unavailable ks c) = c_outcomes c @ map (\<lambda>k. failed k Unavailable) ks
    \<and> c_pending (fold settle_unavailable ks c) = fmdrop_set (set ks) (c_pending c)
    \<and> c_inflight (fold settle_unavailable ks c) = c_inflight c"
  using assms
proof (induction ks arbitrary: c)
  case (Cons k ks)
  let ?d = "settle_unavailable k c"
  have "k |\<in>| fmdom (c_pending c)" using Cons.prems by auto
  then have d: "c_outcomes ?d = c_outcomes c @ [failed k Unavailable]"
    "c_pending ?d = fmdrop k (c_pending c)" "c_inflight ?d = c_inflight c"
    by (auto simp: settle_unavailable_def settlePending_def Let_def core_frames fmlookup_dom_iff)
  have "distinct ks" "set ks \<subseteq> fset (fmdom (c_pending ?d))" using Cons.prems d by auto
  note IH = Cons.IH [OF this]
  have "fmdrop_set (set ks) (fmdrop k (c_pending c)) = fmdrop_set (set (k # ks)) (c_pending c)"
    by (intro fmap_ext) auto
  then show ?case using IH d by simp
qed simp

lemma OnSessionEnd_effect:
  assumes "\<not> c_finished c"
  shows "c_outcomes (OnSessionEnd c) = c_outcomes c
      @ map (\<lambda>k. failed k Unavailable) (sortedKeys (c_pending c))"
    and "c_pending (OnSessionEnd c) = fmempty" and "c_inflight (OnSessionEnd c) = fmempty"
    and "Outbox_Empty (c_outbox (OnSessionEnd c))" and "c_finished (OnSessionEnd c)"
    and "\<not> c_ready (OnSessionEnd c)"
proof -
  let ?c0 = "c\<lparr>c_finished := True, c_ready := False\<rparr>"
  let ?c1 = "fold settle_unavailable (sortedKeys (c_pending ?c0)) ?c0"
  let ?c2 = "?c1\<lparr>c_inflight := fmempty\<rparr>"
  let ?c3 = "fold (abandon_inflight (c_inflight ?c1)) (sortedKeys (c_inflight ?c1)) ?c2"
  have e: "OnSessionEnd c = on_outbox Clear ?c3"
    using assms by (simp add: OnSessionEnd_def Let_def)
  have a: "c_pending (fold (abandon_inflight m) ks d) = c_pending d
      \<and> c_outcomes (fold (abandon_inflight m) ks d) = c_outcomes d
      \<and> c_inflight (fold (abandon_inflight m) ks d) = c_inflight d
      \<and> c_finished (fold (abandon_inflight m) ks d) = c_finished d
      \<and> c_ready (fold (abandon_inflight m) ks d) = c_ready d" for m ks and d :: "'a Core"
    by (induction ks arbitrary: d)
      (auto simp: abandon_inflight_def run_outbound_def run_cancel_def split: option.splits)
  have "same_static d (settle_unavailable k d)" for k and d :: "'a Core"
    unfolding settle_unavailable_def
    by (rule safe_static, rule safe_settlePending) (simp_all add: failed_def Outcome_Terminates_def)
  then have "same_static ?c0 ?c1" by (rule static.step_fold)
  then have s: "c_finished ?c1" "\<not> c_ready ?c1" by (simp_all add: same_static_def)
  have p: "c_outcomes ?c1 = c_outcomes c @ map (\<lambda>k. failed k Unavailable) (sortedKeys (c_pending c))"
    "c_pending ?c1 = fmempty"
    using settle_unavailable_fold [of "sortedKeys (c_pending c)" ?c0]
    by (auto intro!: fmap_ext simp: fmdom_notD)
  show "c_outcomes (OnSessionEnd c) = c_outcomes c
      @ map (\<lambda>k. failed k Unavailable) (sortedKeys (c_pending c))"
    and "c_pending (OnSessionEnd c) = fmempty" and "c_inflight (OnSessionEnd c) = fmempty"
    and "Outbox_Empty (c_outbox (OnSessionEnd c))" and "c_finished (OnSessionEnd c)"
    and "\<not> c_ready (OnSessionEnd c)"
    unfolding e using a p s by (simp_all add: on_outbox_def Clear_def Outbox_Empty_def)
qed

subsection \<open>Ticks, drains and the end of a session keep the invariant\<close>

lemma conserves_expire_pending: "conserves c (expire_pending_at now k c)"
  by (rule safe_conserves [of k]) (auto simp: expire_pending_at_def split: option.splits)

lemma conserves_expire_inflight: "conserves c (expire_inflight_at now k c)"
  by (rule safe_conserves [of k]) (auto simp: expire_inflight_at_def split: option.splits
      intro: safe_trans [OF safe_run_cancel safe_finishInflight])

lemma conserves_Tick: "conserves c (Tick now c)"
proof -
  have 1: "conserves c (expirePending now c)"
    unfolding expirePending_def by (rule conserving.step_fold) (rule conserves_expire_pending)
  have 2: "conserves d (expireInflight now d)" for d :: "'a Core"
    unfolding expireInflight_def by (rule conserving.step_fold) (rule conserves_expire_inflight)
  have 3: "conserves d (fold (\<lambda>call. pollOne call now) ks d)" for ks and d :: "'a Core"
    by (rule conserving.step_fold) (rule safe_conserves [OF safe_pollOne])
  show ?thesis unfolding Tick_def Let_def
    by (rule conserving.step_trans [OF 1 conserving.step_trans [OF 2 3]])
qed

lemma static_Tick: "same_static c (Tick now c)"
proof -
  have "same_static d (expire_pending_at now k d)" for k and d :: "'a Core"
    by (rule safe_static [of k]) (auto simp: expire_pending_at_def split: option.splits)
  then have 1: "same_static c (expirePending now c)"
    unfolding expirePending_def by (rule static.step_fold)
  have "same_static d (expire_inflight_at now k d)" for k and d :: "'a Core"
    by (rule safe_static [of k]) (auto simp: expire_inflight_at_def split: option.splits
      intro: safe_trans [OF safe_run_cancel safe_finishInflight])
  then have 2: "same_static d (expireInflight now d)" for d :: "'a Core"
    unfolding expireInflight_def by (rule static.step_fold)
  have 3: "same_static d (fold (\<lambda>call. pollOne call now) ks d)" for ks and d :: "'a Core"
    by (rule static.step_fold) (rule safe_static [OF safe_pollOne])
  show ?thesis unfolding Tick_def Let_def
    by (rule static.step_trans [OF 1 static.step_trans [OF 2 3]])
qed

interpretation drain_keeps: drain_rule sink "\<lambda>b s. tagged b \<and> outbox_limits b = l" for sink l
proof unfold_locales
  fix b s call f rest s'
  assume "tagged b \<and> outbox_limits b = l" and q: "queue b call = f # rest"
  then have t: "\<And>k g. g \<in> set (queue b k) \<Longrightarrow> frame_of k g" and l: "outbox_limits b = l"
    by (auto simp: tagged_def)
  have "frame_of k g" if "g \<in> set (queue (pop_frame call b) k)" for k g
    using that t [of g k] q by (auto simp: queue_simps split: if_splits)
  with l show "tagged (pop_frame call b) \<and> outbox_limits (pop_frame call b) = l"
    by (simp add: tagged_def outbox_limits_def queue_simps)
qed (auto simp: tagged_def outbox_limits_def)

lemma Core_Drain_keeps:
  assumes "Core_Drain sink c s = Some (c', s')" and "core_inv c"
  shows "core_inv c' \<and> c_pending c' = c_pending c \<and> c_inflight c' = c_inflight c
    \<and> c_outcomes c' = c_outcomes c"
proof -
  obtain b where b: "Outbox_Drain sink (c_outbox c) s = Some (b, s')" "c' = c\<lparr>c_outbox := b\<rparr>"
    using assms(1) by (auto simp: Core_Drain_def split: option.splits)
  have i: "outbox_inv (c_outbox c)" "0 < ob_quantum (c_outbox c)"
    using assms(2) by (auto simp: core_inv_def config_ok_def outbox_limits_def)
  then have "outbox_inv b" using b(1) Drain_returns [OF i, of sink s] by (metis option.inject prod.inject)
  moreover have "tagged b \<and> outbox_limits b = outbox_limits (c_outbox c)"
    using drain_keeps.Drain_P [OF b(1)] assms(2) by (simp add: core_inv_def)
  ultimately show ?thesis using assms(2) b(2) by (simp add: core_inv_def Core_Role_def)
qed

lemma Core_Drain_settings:
  "Core_Drain sink c s = Some (c', s') \<Longrightarrow> c_finished c' = c_finished c \<and> c_ready c' = c_ready c
    \<and> c_pending c' = c_pending c \<and> c_registry c' = c_registry c \<and> c_world c' = c_world c"
  by (auto simp: Core_Drain_def split: option.splits)

text \<open>A drain returns, because the quantum of a core is positive.\<close>

lemma Core_Drain_returns:
  assumes "core_inv c"
  obtains c' s' where "Core_Drain sink c s = Some (c', s')"
proof -
  have "outbox_inv (c_outbox c)" "0 < ob_quantum (c_outbox c)"
    using assms by (auto simp: core_inv_def config_ok_def outbox_limits_def)
  from Drain_returns [OF this, of sink s] obtain b s' where
    "Outbox_Drain sink (c_outbox c) s = Some (b, s')" by metis
  with that show ?thesis by (simp add: Core_Drain_def)
qed

lemma core_inv_SessionEnd:
  assumes "core_inv c"
  shows "core_inv (OnSessionEnd c)"
proof (cases "c_finished c")
  case True
  with assms show ?thesis by (simp add: OnSessionEnd_def)
next
  case False
  have "core_inv (c\<lparr>c_finished := True, c_ready := False\<rparr>)" (is "core_inv ?c0")
    using assms by (simp add: core_inv_def Core_Role_def)
  moreover have "conserves ?c0 (fold settle_unavailable ks ?c0)" (is "conserves _ ?c1") for ks
    unfolding settle_unavailable_def
    by (rule conserving.step_fold, rule safe_conserves, rule safe_settlePending)
      (simp_all add: failed_def Outcome_Terminates_def)
  ultimately have 1: "core_inv (fold settle_unavailable ks ?c0)" for ks by (simp add: conserves_def)
  have 2: "core_inv (d\<lparr>c_inflight := fmempty\<rparr>)" if "core_inv d" for d :: "'a Core"
    using that by (simp add: core_inv_def Core_Role_def)
  have "conserves d (fold (abandon_inflight m) ks d)" for m ks and d :: "'a Core"
    by (rule conserving.step_fold, rule safe_conserves [of undefined])
      (auto simp: abandon_inflight_def split: option.splits
        intro: safe_trans [OF safe_run_cancel safe_run_outbound])
  then have 3: "core_inv (fold (abandon_inflight m) ks d)" if "core_inv d" for m ks and d :: "'a Core"
    using that by (simp add: conserves_def)
  have 4: "core_inv (on_outbox Clear d)" if "core_inv d" for d :: "'a Core"
    using that by (auto simp: core_inv_def on_outbox_def Core_Role_def outbox_inv_Clear tagged_def
        queue_simps outbox_limits_def)
  show ?thesis using False 4 3 2 1 by (simp add: OnSessionEnd_def Let_def)
qed

subsection \<open>Runs\<close>

text \<open>All operations of the core, in any order.  The sink of a drain is a part of the world.\<close>

inductive reaches :: "'w Core \<Rightarrow> CallID list \<Rightarrow> Outcome list \<Rightarrow> 'w Core \<Rightarrow> bool" for c0 where
  start: "reaches c0 [] [] c0"
| ready: "reaches c0 calls taken c \<Longrightarrow> reaches c0 calls taken (OnReady c)"
| call: "reaches c0 calls taken c \<Longrightarrow> Core_Call requestID body ctx options now c = (Inr k, c')
    \<Longrightarrow> reaches c0 (calls @ [k]) taken c'"
| call_refused: "reaches c0 calls taken c \<Longrightarrow> Core_Call requestID body ctx options now c = (Inl e, c')
    \<Longrightarrow> reaches c0 calls taken c'"
| send_item: "reaches c0 calls taken c \<Longrightarrow> SendItem k body c = (r, c') \<Longrightarrow> reaches c0 calls taken c'"
| close_send: "reaches c0 calls taken c \<Longrightarrow> CloseSend k c = (r, c') \<Longrightarrow> reaches c0 calls taken c'"
| grant: "reaches c0 calls taken c \<Longrightarrow> Core_Grant k items c = (r, c') \<Longrightarrow> reaches c0 calls taken c'"
| cancel: "reaches c0 calls taken c \<Longrightarrow> reaches c0 calls taken (Core_Cancel k c)"
| message: "reaches c0 calls taken c \<Longrightarrow> OnMessage messageID payload now c = (mine, c')
    \<Longrightarrow> reaches c0 calls taken c'"
| tick: "reaches c0 calls taken c \<Longrightarrow> reaches c0 calls taken (Tick now c)"
| drain: "reaches c0 calls taken c \<Longrightarrow> Core_Drain sink c (c_world c) = Some (c', w)
    \<Longrightarrow> reaches c0 calls taken (c'\<lparr>c_world := w\<rparr>)"
| session_end: "reaches c0 calls taken c \<Longrightarrow> reaches c0 calls taken (OnSessionEnd c)"
| take: "reaches c0 calls taken c \<Longrightarrow> TakeOutcomes c = (os, c') \<Longrightarrow> reaches c0 calls (taken @ os) c'"
| compressor: "reaches c0 calls taken c \<Longrightarrow> reaches c0 calls taken (SetCompressor z c)"
| interceptor: "reaches c0 calls taken c \<Longrightarrow> reaches c0 calls taken (AddInterceptor link c)"
| authenticate: "reaches c0 calls taken c \<Longrightarrow> reaches c0 calls taken (Authenticate i c)"
| clear_identity: "reaches c0 calls taken c \<Longrightarrow> reaches c0 calls taken (ClearIdentity c)"

text \<open>The invariant, and: calls started = calls completed + calls pending.\<close>

definition accounted :: "CallID list \<Rightarrow> Outcome list \<Rightarrow> 'w Core \<Rightarrow> bool" where
  "accounted calls taken c \<longleftrightarrow> core_inv c
    \<and> mset calls = mset (terminals (taken @ c_outcomes c)) + pending_calls c"

lemma accounted_conserves: "accounted calls taken c \<Longrightarrow> conserves c c' \<Longrightarrow> accounted calls taken c'"
  by (auto simp: accounted_def conserves_def ac_simps)

lemma accounted_safe: "accounted calls taken c \<Longrightarrow> safe_step k c c' \<Longrightarrow> accounted calls taken c'"
  by (blast intro: accounted_conserves safe_conserves)

lemma accounted_same:
  "accounted calls taken c \<Longrightarrow> core_inv c' \<Longrightarrow> c_pending c' = c_pending c
    \<Longrightarrow> c_outcomes c' = c_outcomes c \<Longrightarrow> accounted calls taken c'"
  by (simp add: accounted_def pending_calls_def)

lemma terminals_failed [simp]: "terminals (map (\<lambda>k. failed k s) ks) = ks"
  by (induction ks) (simp_all add: terminals_def failed_def Outcome_Terminates_def)

lemma mset_sortedKeys: "mset (sortedKeys m) = mset_set (fset (fmdom m))"
  by (metis mset_set_set sortedKeys_props(1,2))

lemma accounted_SessionEnd: "accounted calls taken c \<Longrightarrow> accounted calls taken (OnSessionEnd c)"
proof (cases "c_finished c")
  case False
  assume "accounted calls taken c"
  with core_inv_SessionEnd [of c] OnSessionEnd_effect(1,2) [OF False] show ?thesis
    by (simp add: accounted_def pending_calls_def mset_sortedKeys)
qed (simp add: OnSessionEnd_def)

lemma accounted_settings:
  "accounted calls taken (OnReady c) = accounted calls taken c"
  "accounted calls taken (SetCompressor z c) = accounted calls taken c"
  "accounted calls taken (AddInterceptor link c) = accounted calls taken c"
  "accounted calls taken (Authenticate i c) = accounted calls taken c"
  "accounted calls taken (ClearIdentity c) = accounted calls taken c"
  "accounted calls taken (c\<lparr>c_world := w\<rparr>) = accounted calls taken c"
  by (simp_all add: accounted_def core_inv_def Core_Role_def pending_calls_def OnReady_def
      SetCompressor_def AddInterceptor_def Authenticate_def ClearIdentity_def)

lemma accounted_Call:
  assumes "accounted calls taken c" and "Core_Call requestID body ctx options now c = (r, c')"
  shows "accounted (calls @ (case r of Inr k \<Rightarrow> [k] | Inl e \<Rightarrow> [])) taken c'"
  using assms pending_calls_Call [OF assms(2)] core_inv_Call [OF assms(2)]
  by (cases r) (auto simp: accounted_def)

lemma accounted_Drain:
  assumes "accounted calls taken c" and "Core_Drain sink c s = Some (c', s')"
  shows "accounted calls taken c'"
  using assms Core_Drain_keeps [OF assms(2)]
  by (intro accounted_same [OF assms(1)]) (auto simp: accounted_def)

lemma accounted_take:
  "accounted calls taken c \<Longrightarrow> TakeOutcomes c = (os, c') \<Longrightarrow> accounted calls (taken @ os) c'"
  by (auto simp: TakeOutcomes_def accounted_def pending_calls_def core_inv_def Core_Role_def)

lemma reaches_accounted:
  assumes "reaches c0 calls taken c" and "accounted [] [] c0"
  shows "accounted calls taken c"
  using assms
proof (induction rule: reaches.induct)
  case (call calls taken c requestID body ctx options now k c')
  with accounted_Call [of calls taken c requestID body ctx options now "Inr k" c'] show ?case by simp
next
  case (call_refused calls taken c requestID body ctx options now e c')
  with accounted_Call [of calls taken c requestID body ctx options now "Inl e" c'] show ?case by simp
next
  case (drain calls taken c sink c' w)
  then show ?case using accounted_Drain by (simp add: accounted_settings)
next
  case (take calls taken c os c')
  then show ?case using accounted_take by blast
next
  case (tick calls taken c now)
  then show ?case using accounted_conserves conserves_Tick by blast
next
  case (session_end calls taken c)
  then show ?case using accounted_SessionEnd by blast
next
  case (cancel calls taken c k)
  then show ?case using accounted_safe safe_Core_Cancel by blast
next
  case (send_item calls taken c k body r c')
  then show ?case using accounted_safe safe_SendItem by blast
next
  case (close_send calls taken c k r c')
  then show ?case using accounted_safe safe_CloseSend by blast
next
  case (grant calls taken c k items r c')
  then show ?case using accounted_safe safe_Core_Grant by blast
next
  case (message calls taken c messageID payload now mine c')
  then show ?case using accounted_safe safe_OnMessage by blast
qed (simp_all add: accounted_settings)

lemma accounted_new: "accounted [] [] (NewCore registry role config w)"
  by (simp add: accounted_def core_inv_new) (simp add: pending_calls_def NewCore_def Let_def terminals_def)

inductive_cases reaches_cases: "reaches c0 calls taken c"

end
