(* ===== verification/CoreService.thy ===== *)
theory CoreService
  imports CoreLife
begin

text \<open>
  What the core promises the peer and its own session.  A call of the peer that has been taken
  is \<open>served\<close> from then on: it is running, or the frame that answers it is the last one of its
  queue.  A stream sends no more items than the credit it was given.  A call that is given up
  before its REQUEST has left is never heard of by the peer.  The next deadline is the first
  moment at which a tick has something to do.
\<close>

subsection \<open>Served calls\<close>

definition answer_frame :: "Outgoing \<Rightarrow> bool" where
  "answer_frame f \<longleftrightarrow> KindBits (og_Payload f ! 0) \<in> {KindResponse, KindError, KindEnd}"

definition served :: "CallID \<Rightarrow> 'w Core \<Rightarrow> bool" where
  "served k c \<longleftrightarrow> k |\<in>| fmdom (c_inflight c)
    \<or> (queue (c_outbox c) k \<noteq> [] \<and> answer_frame (last (queue (c_outbox c) k)))"

lemma kind_bodyFrame:
  "kind \<le> KindCredit \<Longrightarrow> KindBits (og_Payload (bodyFrame call kind m body c) ! 0) = kind"
  using maybeCompress_header [of body "plain_header kind call" c]
  by (auto simp: bodyFrame_def plain_header_def KindBits_Encode split: prod.splits)

lemma kind_controlFrame:
  "kind \<le> KindCredit \<Longrightarrow> KindBits (og_Payload (controlFrame call kind c) ! 0) = kind"
  by (simp add: controlFrame_def plain_header_def KindBits_Encode)

lemma answer_frames [simp]:
  "answer_frame (bodyFrame call 1 m body c)" "answer_frame (bodyFrame call 2 m body c)"
  "answer_frame (controlFrame call 4 d)"
  by (simp_all add: answer_frame_def kind_bodyFrame kind_controlFrame)

lemma queue_steps [core_frames]:
  "queue (c_outbox (run_outbound e x s c)) = queue (c_outbox c)"
  "queue (c_outbox (run_cancel h c)) = queue (c_outbox c)"
  "queue (c_outbox (put_inflight k r c)) = queue (c_outbox c)"
  "queue (c_outbox (drop_inflight k c)) = queue (c_outbox c)"
  "c_outbox (on_outbox f c) = f (c_outbox c)"
  by (simp_all add: run_outbound_def run_cancel_def put_inflight_def drop_inflight_def on_outbox_def)

lemma served_same:
  "c_inflight c' = c_inflight c \<Longrightarrow> queue (c_outbox c') = queue (c_outbox c) \<Longrightarrow> served k c' = served k c"
  by (simp add: served_def)

lemma served_steps [simp]:
  "served k (run_outbound e x s c) = served k c" "served k (run_cancel h c) = served k c"
  "served k (c\<lparr>c_world := w\<rparr>) = served k c"
  by (rule served_same; simp add: core_frames)+

lemma served_push: "answer_frame f \<Longrightarrow> served k (on_outbox (PushTerminal k f) c)"
  by (simp add: served_def core_frames queue_simps)

lemma served_failCall [simp]: "served k (failCall k s c)"
  by (simp add: failCall_def served_push)

lemma served_finish [simp]: "served k (finishInflight k s c)"
  by (auto simp: finishInflight_def Let_def served_push split: option.splits)

lemma served_put [simp]: "served k (put_inflight k r c)"
  by (simp add: served_def)

lemma served_collectGrant: "served k c \<Longrightarrow> served k (collectGrant k c)"
  by (auto simp: collectGrant_def Let_def split: option.splits prod.splits attempt.splits)
    (simp_all add: served_def core_frames queue_simps)

lemma served_poll_step: "poll_step k now c = (again, c') \<Longrightarrow> served k c \<Longrightarrow> served k c'"
  by (auto simp: poll_step_def Let_def served_push split: option.splits if_splits prod.splits
      ProgressKind.splits)

lemma served_poll_loop: "served k c \<Longrightarrow> served k (poll_loop k now c)"
proof (induction k now c rule: poll_loop.induct)
  case (1 k now c)
  obtain again d where s: "poll_step k now c = (again, d)" by fastforce
  with "1.IH" [OF s [symmetric]] served_poll_step [OF s] "1.prems" show ?case
    by (subst poll_loop.simps) auto
qed

lemma served_pollOne: "served k c \<Longrightarrow> served k (pollOne k now c)"
  by (simp add: pollOne_def served_poll_loop served_collectGrant)

lemma served_pollOne_put [simp]: "served k (pollOne k now (put_inflight k r c))"
  by (rule served_pollOne) simp

text \<open>A REQUEST that reaches the core is served at once: nothing drops it.\<close>

lemma served_onRequest: "served (hdr_Call (p_Header parsed)) (onRequest messageID parsed now c)"
proof -
  have s: "served k (start_call k m factory ctx limit entered context body now d)"
    for k m factory ctx limit entered "context" body and d :: "'a Core"
    by (auto simp: start_call_def Let_def split: prod.splits attempt.splits option.splits)
  have "served k (admit_request k m factory ctx parsed now d)" for k m factory ctx and d :: "'a Core"
    by (auto simp: admit_request_def Let_def s split: prod.splits option.splits sum.splits)
  then show ?thesis
    by (auto simp: onRequest_def Let_def served_def [of _ c]
        split: option.splits prod.splits)
qed

lemma OnMessage_request_served:
  assumes "Decode payload (MaxCtxLen (c_config c)) = Inr q" and "hdr_Kind (p_Header q) = KindRequest"
    and "c_ready c" and "\<not> IsPlain messageID (c_registry c)"
    and "OnMessage messageID payload now c = (mine, c')"
  shows "mine \<and> served (hdr_Call (p_Header q)) c'"
  using assms served_onRequest [of q messageID now c]
  by (auto simp: OnMessage_def dispatch_def Let_def)

text \<open>Later frames of the same call, and ticks, leave it served.\<close>

lemma served_untouched: "untouched k c c' \<Longrightarrow> served k c \<Longrightarrow> served k c'"
  by (simp add: untouched_def served_def fmlookup_dom_iff)

lemma served_settle_absent:
  "k |\<notin>| fmdom (c_pending c) \<Longrightarrow> settlePending k x c = c"
  by (simp add: settlePending_def fmdom_notD)

lemma served_dispatch:
  assumes "served k c" and "k |\<notin>| fmdom (c_pending c)" and "hdr_Call (p_Header q) = k"
  shows "served k (dispatch messageID q now c)"
proof -
  have n: "fmlookup (c_pending c) k = None" using assms(2) by (rule fmdom_notD)
  have i: "served k (onCallerItem k mid body now r c)" for mid body r
    by (auto simp: onCallerItem_def Let_def intro!: served_pollOne split: prod.splits option.splits)
  have e: "served k (onCallerEnd mid k now r c)" for mid r
    by (auto simp: onCallerEnd_def Let_def intro!: served_pollOne split: prod.splits option.splits)
  show ?thesis
    using assms(1,2) served_onRequest [of q messageID now c] n unfolding assms(3)
    by (auto simp: dispatch_def Let_def onResponse_def onError_def onItem_def onEnd_def onCancel_def
        onCredit_def assms(3) i e split: option.splits)
qed

lemma served_failReceived: "k |\<notin>| fmdom (c_pending c) \<Longrightarrow> served k (failReceived k s c)"
  by (simp add: failReceived_def)

lemma OnMessage_keeps_served:
  assumes "OnMessage messageID payload now c = (mine, c')" and "core_inv c"
    and "\<not> Role_Allocates (Core_Role c) k" and "served k c"
  shows "served k c'"
proof (cases "ReadCallID payload = k")
  case False
  with safe_OnMessage [OF assms(1)] have "untouched k c c'" unfolding safe_step_def by metis
  then show ?thesis using assms(4) by (rule served_untouched)
next
  case True
  have p: "k |\<notin>| fmdom (c_pending c)" using assms(2,3) by (auto simp: core_inv_def)
  show ?thesis
  proof (cases "Decode payload (MaxCtxLen (c_config c))")
    case (Inl e)
    with assms True p show ?thesis
      by (auto simp: OnMessage_def rejectUndecodable_def served_failReceived split: if_splits)
  next
    case (Inr q)
    have q: "hdr_Call (p_Header q) = k" using hdr_Call_Decode [OF Inr] True by simp
    have "served k (dispatch messageID (q\<lparr>p_Body := body\<rparr>) now c)" for body
      using q by (intro served_dispatch assms(4) p) simp
    moreover have "served k (dispatch messageID q now c)" using q by (intro served_dispatch assms(4) p)
    ultimately show ?thesis using assms(1,4) Inr q p
      by (auto simp: OnMessage_def served_failReceived split: if_splits sum.splits)
  qed
qed

lemma served_expire_inflight: "served k c \<Longrightarrow> served k (expire_inflight_at now j c)"
proof (cases "j = k")
  case True
  then show "served k c \<Longrightarrow> ?thesis" by (auto simp: expire_inflight_at_def split: option.splits)
next
  case False
  have "safe_step j c (expire_inflight_at now j c)"
    by (auto simp: expire_inflight_at_def split: option.splits
        intro: safe_trans [OF safe_run_cancel safe_finishInflight])
  with False have "untouched k c (expire_inflight_at now j c)" by (auto simp: safe_step_def)
  then show "served k c \<Longrightarrow> ?thesis" by (rule served_untouched)
qed

lemma served_poll_other: "served k c \<Longrightarrow> served k (pollOne j now c)"
proof (cases "j = k")
  case False
  have "safe_step j c (pollOne j now c)" by simp
  with False have "untouched k c (pollOne j now c)" unfolding safe_step_def by metis
  then show "served k c \<Longrightarrow> ?thesis" by (rule served_untouched)
qed (simp add: served_pollOne)

lemma served_expire_pending:
  assumes "core_inv c" and "\<not> Role_Allocates (Core_Role c) k" and "served k c"
  shows "served k (expire_pending_at now j c)"
proof (cases "fmlookup (c_pending c) j")
  case None
  with assms show ?thesis by (simp add: expire_pending_at_def)
next
  case (Some r)
  then have "j \<noteq> k" using assms(1,2) by (auto simp: core_inv_def fmlookup_dom_iff)
  moreover have "safe_step j c (expire_pending_at now j c)"
    by (auto simp: expire_pending_at_def split: option.splits)
  ultimately have "untouched k c (expire_pending_at now j c)" unfolding safe_step_def by metis
  then show ?thesis using assms(3) by (rule served_untouched)
qed

lemma Tick_keeps_served:
  assumes "core_inv c" and "\<not> Role_Allocates (Core_Role c) k" and "served k c"
  shows "served k (Tick now c)"
proof -
  have "core_inv d \<and> Core_Role d = Core_Role c \<and> served k d"
    if "d = fold (expire_pending_at now) js c" for d js
    using that
  proof (induction js arbitrary: d rule: rev_induct)
    case (snoc j js)
    let ?e = "fold (expire_pending_at now) js c"
    have e: "core_inv ?e \<and> Core_Role ?e = Core_Role c \<and> served k ?e" by (rule snoc.IH) (rule refl)
    have d: "d = expire_pending_at now j ?e" using snoc.prems by simp
    have s: "safe_step j ?e d"
      unfolding d by (auto simp: expire_pending_at_def split: option.splits)
    then have "Core_Role d = Core_Role ?e" "core_inv ?e \<longrightarrow> core_inv d"
      by (auto simp: safe_step_def same_static_def Core_Role_def)
    moreover have "served k d" unfolding d using e assms(2) by (intro served_expire_pending) auto
    ultimately show ?case using e by simp
  qed (use assms in simp)
  then have 1: "served k (expirePending now c)" unfolding expirePending_def by blast
  have 2: "served k (fold (expire_inflight_at now) js d)" if "served k d" for js and d :: "'a Core"
    using that by (induction js arbitrary: d) (auto intro: served_expire_inflight)
  have 3: "served k (fold (\<lambda>j. pollOne j now) js d)" if "served k d" for js and d :: "'a Core"
    using that by (induction js arbitrary: d) (auto intro: served_poll_other)
  show ?thesis unfolding Tick_def Let_def expireInflight_def by (intro 3 2 1)
qed

subsection \<open>Duplicates\<close>

lemma OnMessage_duplicate:
  assumes "Decode payload (MaxCtxLen (c_config c)) = Inr q" and "hdr_Kind (p_Header q) = KindRequest"
    and "hdr_Call (p_Header q) |\<in>| fmdom (c_inflight c)" and "core_inv c"
  shows "snd (OnMessage messageID payload now c) = c"
proof -
  have "\<not> Role_Allocates (Core_Role c) (hdr_Call (p_Header q))"
    using assms(3,4) by (auto simp: core_inv_def)
  then show ?thesis using assms by (auto simp: OnMessage_def dispatch_def onRequest_def Let_def)
qed

subsection \<open>Credit\<close>

text \<open>Over one call of \<open>pollOne\<close>, every frame a limited stream queues is paid for by its credit.\<close>

definition paid :: "CallID \<Rightarrow> 'w Core \<Rightarrow> 'w Core \<Rightarrow> bool" where
  "paid k c c' \<longleftrightarrow>
    (case (fmlookup (c_inflight c) k, fmlookup (c_inflight c') k) of
       (Some r, Some r') \<Rightarrow> r_shape r' = r_shape r \<and> r_established r' = r_established r \<and>
         (r_established r \<longrightarrow>
            length (queue (c_outbox c') k) + unat (r_credit r')
              = length (queue (c_outbox c) k) + unat (r_credit r))
     | (None, Some r') \<Rightarrow> False
     | _ \<Rightarrow> True)"

lemma paid_refl: "paid k c c"
  by (simp add: paid_def split: option.splits)

lemma paid_trans: "paid k c d \<Longrightarrow> paid k d e \<Longrightarrow> paid k c e"
  by (auto simp: paid_def split: option.splits)

lemma unat_minus_1: "(n :: u32) \<noteq> 0 \<Longrightarrow> Suc (unat (n - 1)) = unat n"
  by (metis Suc_pred' unat_gt_0 unat_minus_one)

lemma length_queue_Push:
  "HasRoom k b \<Longrightarrow> length (queue (snd (Push k f b)) k) = Suc (length (queue b k))"
  by (cases rule: Push_cases [of k b f]) (auto simp: queue_simps)

lemma paid_poll_step:
  assumes "poll_step k now c = (again, c')"
  shows "paid k c c'"
proof (cases "fmlookup (c_inflight c) k")
  case None
  with assms show ?thesis by (auto simp: poll_step_def paid_refl)
next
  case (Some r)
  have gone: "paid k c d" if "c_inflight d = fmdrop k m" for d m
    using that Some by (simp add: paid_def)
  have f: "paid k c (finishInflight k s d)" for s d by (rule gone) (rule inflight_finish)
  have s: "paid k c (run_outbound e x s (on_outbox g (drop_inflight k d)))" for e x s g d
    by (rule gone [of _ "c_inflight d"]) (simp add: core_frames drop_inflight_def)
  have same: "paid k c d" if "c_inflight d = fmupd k r' (c_inflight c)"
    "queue (c_outbox d) = queue (c_outbox c)" "r_shape r' = r_shape r" "r_established r' = r_established r"
    "r_credit r' = r_credit r" for d r'
    using that Some by (simp add: paid_def)
  have item: "paid k c (put_inflight k r' (on_outbox (\<lambda>b. snd (Push k g b)) d))"
    if "r_shape r' = r_shape r" "r_established r' = r_established r" "HasRoom k (c_outbox c)"
      "queue (c_outbox d) = queue (c_outbox c)" "c_outbox d = c_outbox c"
      "r_established r \<Longrightarrow> Suc (unat (r_credit r')) = unat (r_credit r)" for r' g d
    using that Some by (auto simp: paid_def core_frames length_queue_Push put_inflight_def)
  show ?thesis
    using assms Some
    by (auto simp: poll_step_def Let_def f s starved_def unat_minus_1 paid_refl
        split: if_splits prod.splits ProgressKind.splits intro!: item)
      (auto simp: put_inflight_def intro!: same)
qed

lemma paid_collectGrant: "paid k c (collectGrant k c)"
proof -
  have f: "paid k c (finishInflight k s d)" if "fmlookup (c_inflight c) k = Some r" for s d r
    using that by (auto simp: paid_def inflight_finish split: option.splits)
  have g: "paid k c (on_outbox (Outbox_Grant k m n) (c\<lparr>c_world := w\<rparr>))" for m n w
    by (auto simp: paid_def core_frames queue_simps split: option.splits)
  have w: "paid k c (c\<lparr>c_world := w\<rparr>)" for w by (auto simp: paid_def split: option.splits)
  show ?thesis
    by (auto simp: collectGrant_def Let_def paid_refl split: option.splits prod.splits attempt.splits
        intro: f g w)
qed

lemma paid_pollOne: "paid k c (pollOne k now c)"
proof -
  have "paid k d (poll_loop k now d)" for d
  proof (induction k now d rule: poll_loop.induct)
    case (1 k now d)
    obtain again e where s: "poll_step k now d = (again, e)" by fastforce
    with "1.IH" [OF s [symmetric]] paid_poll_step [OF s] show ?case
      by (subst poll_loop.simps) (auto intro: paid_trans)
  qed
  then show ?thesis unfolding pollOne_def by (rule paid_trans [OF paid_collectGrant])
qed

text \<open>The caller's side: an item leaves only for credit, and costs one.\<close>

lemma SendItem_credit:
  assumes "SendItem k body c = (None, c')" and "fmlookup (c_pending c) k = Some r" and "w_established r"
  shows "0 < w_credit r \<and> (\<exists>r'. fmlookup (c_pending c') k = Some r'
      \<and> Suc (unat (w_credit r')) = unat (w_credit r))
    \<and> length (queue (c_outbox c') k) = Suc (length (queue (c_outbox c) k))"
proof -
  let ?f = "bodyFrame k KindItem (w_itemID r) body c"
  have n: "w_credit r \<noteq> 0" using assms by (auto simp: SendItem_def split: if_splits)
  have room: "HasRoom k (c_outbox c)"
    using assms by (cases rule: Push_cases [of k "c_outbox c" ?f])
      (auto simp: SendItem_def split: if_splits)
  then have "Push k ?f (c_outbox c) = (True, Outbox_append k ?f (c_outbox c))"
    by (cases rule: Push_cases [of k "c_outbox c" ?f]) auto
  with assms n show ?thesis
    by (auto simp: SendItem_def put_pending_def queue_simps unat_minus_1 word_neq_0_conv
        split: if_splits)
qed

subsection \<open>Giving up a call\<close>

text \<open>If the REQUEST is still queued, the peer never hears of the call; otherwise a CANCEL is all
  that is left of its queue.\<close>

lemma queue_settle:
  "k |\<in>| fmdom (c_pending c) \<Longrightarrow> queue (c_outbox (settlePending k x c)) = (queue (c_outbox c))(k := [])"
  by (auto simp: settlePending_def Let_def core_frames queue_simps fmlookup_dom_iff)

lemma abandonPending_queue:
  assumes "k |\<in>| fmdom (c_pending c)"
  shows "queue (c_outbox (abandonPending k s c)) k =
    (if RequestStillQueued k (c_outbox c) then []
     else [\<lparr>og_MessageID = rg_voidID (c_registry c), og_Payload = Encode (plain_header KindCancel k) [] []\<rparr>])"
proof -
  have "safe_step k c (settlePending k (failed k s) c)"
    by (rule safe_settlePending) (simp_all add: failed_def Outcome_Terminates_def)
  then have "c_registry (settlePending k (failed k s) c) = c_registry c"
    by (simp add: safe_step_def same_static_def)
  then show ?thesis using queue_settle [OF assms, of "failed k s"]
    by (simp add: abandonPending_def Let_def core_frames queue_simps controlFrame_def)
qed

lemma Core_Cancel_effect:
  assumes "k |\<in>| fmdom (c_pending c)"
  shows "c_outcomes (Core_Cancel k c) = c_outcomes c @ [failed k Cancelled]"
    and "c_pending (Core_Cancel k c) = fmdrop k (c_pending c)"
    and "queue (c_outbox (Core_Cancel k c)) k =
      (if RequestStillQueued k (c_outbox c) then []
       else [\<lparr>og_MessageID = rg_voidID (c_registry c), og_Payload = Encode (plain_header KindCancel k) [] []\<rparr>])"
  using assms outcomes_abandonPending [OF assms, of Cancelled] abandonPending_queue [OF assms, of Cancelled]
  by (simp_all add: Core_Cancel_def)

text \<open>Nothing else changes; and as its credit is gone too, what a drain then hands over of the call is
  that CANCEL, or nothing.\<close>

lemma abandonPending_credit:
  "k |\<in>| fmdom (c_pending c) \<Longrightarrow> fmlookup (ob_credits (c_outbox (abandonPending k s c))) k = None"
  by (auto simp: abandonPending_def settlePending_def Let_def run_outbound_def on_outbox_def queue_simps
      PushTerminal_def fmlookup_dom_iff)

lemma Core_Cancel_rest:
  assumes "k |\<in>| fmdom (c_pending c)"
  shows "fmlookup (ob_credits (c_outbox (Core_Cancel k c))) k = None"
    and "c_inflight (Core_Cancel k c) = c_inflight c"
    and "j \<noteq> k \<Longrightarrow> queue (c_outbox (Core_Cancel k c)) j = queue (c_outbox c) j
      \<and> fmlookup (ob_credits (c_outbox (Core_Cancel k c))) j = fmlookup (ob_credits (c_outbox c)) j"
  using abandonPending_credit [OF assms] safe_Core_Cancel [of k c] assms
  by (simp_all add: Core_Cancel_def core_frames safe_step_def untouched_def)

lemma Core_Cancel_drained:
  assumes "k |\<in>| fmdom (c_pending c)" and "core_inv c"
    and "Core_Drain (log_sink accept) (Core_Cancel k c) [] = Some (c', log)"
  shows "filter (\<lambda>f. ReadCallID (og_Payload f) = k) log @ queue (c_outbox c') k
    = queue (c_outbox (Core_Cancel k c)) k"
proof -
  have "core_inv (Core_Cancel k c)" using safe_Core_Cancel [of k c] assms(2) by (simp add: safe_step_def)
  then have "tagged (c_outbox (Core_Cancel k c))" by (simp add: core_inv_def)
  with Drain_addressed [OF _ _ Core_Cancel_rest(1) [OF assms(1)]] assms(3) show ?thesis
    by (auto simp: Core_Drain_def split: option.splits)
qed

subsection \<open>The next deadline\<close>

definition earliest :: "gotime list \<Rightarrow> gotime" where
  "earliest ts = fold (\<lambda>t acc. earlier acc t) ts 0"

lemma earlier_fold:
  "fold (\<lambda>t acc. earlier acc t) ts a =
    (if filter (\<lambda>t. t \<noteq> 0) (a # ts) = [] then 0 else Min (set (filter (\<lambda>t. t \<noteq> 0) (a # ts))))"
proof (induction ts arbitrary: a)
  case (Cons t ts)
  have "fold (\<lambda>t acc. earlier acc t) (t # ts) a = fold (\<lambda>t acc. earlier acc t) ts (earlier a t)" by simp
  also have "\<dots> = (if filter (\<lambda>t. t \<noteq> 0) (earlier a t # ts) = [] then 0
      else Min (set (filter (\<lambda>t. t \<noteq> 0) (earlier a t # ts))))" by (rule Cons.IH)
  also have "\<dots> = (if filter (\<lambda>t. t \<noteq> 0) (a # t # ts) = [] then 0
      else Min (set (filter (\<lambda>t. t \<noteq> 0) (a # t # ts))))"
  proof (cases "a = 0 \<or> t = 0")
    case True
    then show ?thesis by (auto simp: earlier_def)
  next
    case False
    let ?S = "set (filter (\<lambda>t. t \<noteq> 0) ts)"
    have e: "earlier a t = min a t" using False by (auto simp: earlier_def min_def)
    have "Min (insert (min a t) ?S) = Min (insert a (insert t ?S))"
      by (cases "?S = {}") (simp_all add: min.assoc)
    moreover have "set (filter (\<lambda>t. t \<noteq> 0) (min a t # ts)) = insert (min a t) ?S"
      "set (filter (\<lambda>t. t \<noteq> 0) (a # t # ts)) = insert a (insert t ?S)"
      using False by (auto simp: min_def)
    moreover have "filter (\<lambda>t. t \<noteq> 0) (min a t # ts) \<noteq> []" "filter (\<lambda>t. t \<noteq> 0) (a # t # ts) \<noteq> []"
      using False by (auto simp: min_def)
    ultimately show ?thesis unfolding e by presburger
  qed
  finally show ?case .
qed simp

definition deadlines :: "'w Core \<Rightarrow> gotime set" where
  "deadlines c = {w_deadline r | k r. fmlookup (c_pending c) k = Some r \<and> w_deadline r \<noteq> 0}
     \<union> {nextExpiry r | k r. fmlookup (c_inflight c) k = Some r \<and> nextExpiry r \<noteq> 0}"

lemma fold_lookup:
  assumes "\<forall>k \<in> set ks. k |\<in>| fmdom m"
  shows "fold (\<lambda>k acc. case fmlookup m k of None \<Rightarrow> acc | Some r \<Rightarrow> earlier acc (g r)) ks a
    = fold (\<lambda>t acc. earlier acc t) (map (\<lambda>k. g (the (fmlookup m k))) ks) a"
  using assms by (induction ks arbitrary: a) (auto simp: fmlookup_dom_iff)

lemma image_lookup:
  "(\<lambda>k. g (the (fmlookup m k))) ` fset (fmdom m) = {g r | k r. fmlookup m k = Some r}"
proof safe
  fix k assume "k |\<in>| fmdom m"
  then obtain r where "fmlookup m k = Some r" by (auto simp: fmlookup_dom_iff)
  then show "\<exists>j r. g (the (fmlookup m k)) = g r \<and> fmlookup m j = Some r"
    by (intro exI [of _ k] exI [of _ r]) simp
next
  fix k r assume "fmlookup m k = Some r"
  then show "g r \<in> (\<lambda>k. g (the (fmlookup m k))) ` fset (fmdom m)"
    by (intro image_eqI [of _ _ k]) (auto intro: fmdomI)
qed

lemma NextDeadline_eq:
  "NextDeadline c = (if deadlines c = {} then (0, False) else (Min (deadlines c), True))"
proof -
  let ?ps = "map (\<lambda>k. w_deadline (the (fmlookup (c_pending c) k))) (sortedKeys (c_pending c))"
  let ?is = "map (\<lambda>k. nextExpiry (the (fmlookup (c_inflight c) k))) (sortedKeys (c_inflight c))"
  let ?n = "fold (\<lambda>t acc. earlier acc t) (?ps @ ?is) 0"
  have "NextDeadline c = (?n, ?n \<noteq> 0)"
    by (simp add: NextDeadline_def Let_def fold_lookup)
  moreover have s: "set (filter (\<lambda>t. t \<noteq> 0) (0 # ?ps @ ?is)) = deadlines c"
    by (simp only: set_filter set_append set_map list.set sortedKeys_props image_lookup deadlines_def)
      auto
  then have "filter (\<lambda>t. t \<noteq> 0) (0 # ?ps @ ?is) = [] \<longleftrightarrow> deadlines c = {}"
    by (metis set_empty)
  moreover have f: "finite (deadlines c)" unfolding s [symmetric] by (rule finite_set)
  moreover have "Min (deadlines c) \<noteq> 0" if "deadlines c \<noteq> {}"
    using Min_in [OF f that] by (auto simp: deadlines_def)
  ultimately show ?thesis using earlier_fold [of "?ps @ ?is" 0] unfolding s by presburger
qed

subsection \<open>Panics\<close>

text \<open>A handler that panics ends its own call: what is left of it is one ERROR frame with the
  status of the panic.\<close>

lemma bodyFrame_cong:
  "c_compressor d = c_compressor c \<Longrightarrow> c_config d = c_config c \<Longrightarrow>
    bodyFrame k kind m body d = bodyFrame k kind m body c"
  by (simp only: bodyFrame_def maybeCompress_def)

lemma finishInflight_queue:
  "queue (c_outbox (finishInflight k s c)) k
    = [bodyFrame k KindError (rg_errorID (c_registry c)) (Status_Encode s) c]"
proof -
  have "bodyFrame k kind m body (on_outbox f (drop_inflight k c)) = bodyFrame k kind m body c"
    for kind m body f
    by (rule bodyFrame_cong) (simp_all add: on_outbox_def drop_inflight_def)
  moreover have "c_registry (on_outbox f (drop_inflight k c)) = c_registry c" for f
    by (simp add: on_outbox_def drop_inflight_def)
  ultimately show ?thesis
    by (simp add: finishInflight_def Let_def core_frames queue_simps split: option.splits)
qed

lemma poll_loop_panic:
  assumes "fmlookup (c_inflight c) k = Some r" and "HasRoom k (c_outbox c)"
    and "\<not> (CalleeStreams (r_shape r) \<and> starved r)"
    and "h_Poll (r_handler r) now (c_world c) = (Panicked p, w)"
  shows "k |\<notin>| fmdom (c_inflight (poll_loop k now c))"
    and "queue (c_outbox (poll_loop k now c)) k
      = [bodyFrame k KindError (rg_errorID (c_registry c)) (Status_Encode (recovered p)) c]"
    and "c_inflight (poll_loop k now c) = fmdrop k (c_inflight c)"
    and "c_pending (poll_loop k now c) = c_pending c"
    and "c_outcomes (poll_loop k now c) = c_outcomes c"
    and "fmlookup (ob_credits (c_outbox (poll_loop k now c))) k = None"
proof -
  let ?c = "(put_inflight k (r\<lparr>r_fullSince := 0\<rparr>) c)\<lparr>c_world := w\<rparr>"
  have "poll_step k now c = (False, finishInflight k (recovered p) ?c)"
    using assms by (auto simp: poll_step_def Let_def safePoll_def Fail_def starved_def put_inflight_def)
  then have e: "poll_loop k now c = finishInflight k (recovered p) ?c"
    by (subst poll_loop.simps) simp
  show "k |\<notin>| fmdom (c_inflight (poll_loop k now c))" by (simp add: e inflight_finish)
  have "bodyFrame k kind m body ?c = bodyFrame k kind m body c" for kind m body
    by (rule bodyFrame_cong) (simp_all add: put_inflight_def)
  then show "queue (c_outbox (poll_loop k now c)) k
      = [bodyFrame k KindError (rg_errorID (c_registry c)) (Status_Encode (recovered p)) c]"
    unfolding e finishInflight_queue by (simp add: put_inflight_def)
  show "c_inflight (poll_loop k now c) = fmdrop k (c_inflight c)"
    by (simp add: e inflight_finish put_inflight_def)
  show "c_pending (poll_loop k now c) = c_pending c" "c_outcomes (poll_loop k now c) = c_outcomes c"
    by (simp_all add: e core_frames)
  show "fmlookup (ob_credits (c_outbox (poll_loop k now c))) k = None"
    by (auto simp: e finishInflight_def Let_def run_outbound_def on_outbox_def queue_simps PushTerminal_def
        split: option.splits)
qed

end
