(* ===== verification/CoreIdle.thy ===== *)
theory CoreIdle
  imports CoreService
begin

text \<open>
  Longer runs of a core.  A request that is served stays served over every sequence of frames and
  ticks.  A tick of a core with nothing to do, before the next deadline, polls no handler and
  changes nothing but the note since when a queue is full: so a session that waits while
  \<open>HasRunnableWork\<close> is false and no deadline has come misses nothing.
\<close>

subsection \<open>Frames and ticks\<close>

datatype input = Frame u32 bytes gotime | Clock gotime

fun take_input :: "input \<Rightarrow> 'w Core \<Rightarrow> 'w Core" where
  "take_input (Frame messageID payload now) c = snd (OnMessage messageID payload now c)"
| "take_input (Clock now) c = Tick now c"

lemma take_input_keeps:
  assumes "core_inv c" and "\<not> Role_Allocates (Core_Role c) k" and "served k c"
  shows "core_inv (take_input i c) \<and> Core_Role (take_input i c) = Core_Role c \<and> served k (take_input i c)"
proof (cases i)
  case (Frame m p now)
  obtain mine c' where o: "OnMessage m p now c = (mine, c')" by fastforce
  from safe_OnMessage [OF o] have "core_inv c' \<and> Core_Role c' = Core_Role c"
    using assms(1) by (simp add: safe_step_def same_static_def Core_Role_def)
  with o Frame OnMessage_keeps_served [OF o assms] show ?thesis by simp
next
  case (Clock now)
  then show ?thesis
    using conserves_Tick [of c now] static_Tick [of c now] Tick_keeps_served [OF assms, of now] assms(1)
    by (simp add: conserves_def same_static_def Core_Role_def)
qed

lemma inputs_keep_served:
  assumes "core_inv c" and "\<not> Role_Allocates (Core_Role c) k" and "served k c"
  shows "served k (fold take_input inputs c)"
  using assms
proof (induction inputs arbitrary: c)
  case (Cons i inputs)
  from take_input_keeps [OF Cons.prems, of i] Cons.prems(2) show ?case by (auto intro: Cons.IH)
qed simp

subsection \<open>A tick with nothing to do\<close>

text \<open>What \<open>pollOne\<close> notes of a call that it does not poll.\<close>

definition note_full :: "gotime \<Rightarrow> Outbox \<Rightarrow> CallID \<Rightarrow> 'w running \<Rightarrow> 'w running" where
  "note_full now b k r =
    (if HasRoom k b then r\<lparr>r_fullSince := 0\<rparr>
     else if FullFor k b \<and> r_fullSince r = 0 then r\<lparr>r_fullSince := now\<rparr> else r)"

text \<open>No handler to be polled, none that grants credit, and no queue full for too long.\<close>

definition idle_call :: "gotime \<Rightarrow> 'w Core \<Rightarrow> CallID \<Rightarrow> 'w running \<Rightarrow> bool" where
  "idle_call now c k r \<longleftrightarrow> (CalleeStreams (r_shape r) \<and> starved r \<or> \<not> HasRoom k (c_outbox c))
    \<and> (CreditID (c_registry c) \<noteq> None \<longrightarrow> \<not> CallerStreams (r_shape r) \<or> r_inboundClosed r
        \<or> h_Grant (r_handler r) = None)
    \<and> (FullFor k (c_outbox c) \<longrightarrow> r_fullSince r = 0 \<or> Time_Sub now (r_fullSince r) < QueueFullLimit (c_config c))"

lemma Time_Sub_self: "Time_Sub t t = 0"
  by (simp add: Time_Sub_def max_i64_def min_i64_def)

lemma pollOne_idle:
  assumes "fmlookup (c_inflight c) k = Some r" and "idle_call now c k r" and "0 < QueueFullLimit (c_config c)"
  shows "pollOne k now c = c\<lparr>c_inflight := fmupd k (note_full now (c_outbox c) k r) (c_inflight c)\<rparr>"
proof -
  have "collectGrant k c = c"
    using assms(1,2) by (auto simp: collectGrant_def idle_call_def split: option.splits)
  moreover have "fmupd k r (c_inflight c) = c_inflight c" using assms(1) by (intro fmap_ext) auto
  then have same: "c\<lparr>c_inflight := fmupd k r (c_inflight c)\<rparr> = c" by simp
  have "poll_step k now c = (False, c\<lparr>c_inflight := fmupd k (note_full now (c_outbox c) k r) (c_inflight c)\<rparr>)"
  proof (cases "HasRoom k (c_outbox c)")
    case True
    with assms(1,2) show ?thesis
      by (simp add: poll_step_def note_full_def idle_call_def put_inflight_def Let_def starved_def)
  next
    case False
    note room = this
    show ?thesis
    proof (cases "FullFor k (c_outbox c)")
      case True
      with room assms show ?thesis
        by (cases "r_fullSince r = 0")
          (simp_all add: poll_step_def note_full_def idle_call_def put_inflight_def Let_def Time_Sub_self)
    next
      case False
      with room assms(1) same show ?thesis by (simp add: poll_step_def note_full_def)
    qed
  qed
  ultimately show ?thesis by (simp add: pollOne_def poll_loop.simps)
qed

lemma polls_idle:
  assumes "distinct ks" and "\<forall>k \<in> set ks. \<exists>r. fmlookup (c_inflight c) k = Some r \<and> idle_call now c k r"
    and "0 < QueueFullLimit (c_config c)"
  shows "fold (\<lambda>k. pollOne k now) ks c = c\<lparr>c_inflight :=
    fmmap_keys (\<lambda>k r. if k \<in> set ks then note_full now (c_outbox c) k r else r) (c_inflight c)\<rparr>"
  using assms
proof (induction ks arbitrary: c)
  case Nil
  have "fmmap_keys (\<lambda>k r. r) (c_inflight c) = c_inflight c" by (intro fmap_ext) (simp add: option.map_ident)
  then show ?case by simp
next
  case (Cons k ks)
  then obtain r where r: "fmlookup (c_inflight c) k = Some r" "idle_call now c k r" by auto
  let ?c = "c\<lparr>c_inflight := fmupd k (note_full now (c_outbox c) k r) (c_inflight c)\<rparr>"
  have "\<forall>j \<in> set ks. \<exists>r. fmlookup (c_inflight ?c) j = Some r \<and> idle_call now ?c j r"
    using Cons.prems(1,2) by (auto simp: idle_call_def)
  from Cons.IH [OF _ this] Cons.prems
  have "fold (\<lambda>k. pollOne k now) ks ?c = ?c\<lparr>c_inflight :=
    fmmap_keys (\<lambda>k r. if k \<in> set ks then note_full now (c_outbox c) k r else r) (c_inflight ?c)\<rparr>"
    by (simp cong: if_cong)
  moreover have "fmmap_keys (\<lambda>k r. if k \<in> set ks then note_full now (c_outbox c) k r else r) (c_inflight ?c)
      = fmmap_keys (\<lambda>j r. if j \<in> set (k # ks) then note_full now (c_outbox c) j r else r) (c_inflight c)"
    using r(1) Cons.prems(1) by (intro fmap_ext) (auto simp: option.map_comp)
  ultimately show ?case using pollOne_idle [OF r Cons.prems(3)] by simp
qed

lemma not_due:
  assumes "\<And>d. NextDeadline c = (d, True) \<Longrightarrow> now < d"
  shows "fmlookup (c_pending c) k = Some w \<Longrightarrow> w_deadline w = 0 \<or> now < w_deadline w"
    and "fmlookup (c_inflight c) k = Some r \<Longrightarrow> nextExpiry r = 0 \<or> now < nextExpiry r"
proof -
  have fin: "finite (deadlines c)"
  proof -
    have "deadlines c \<subseteq> w_deadline ` fset (fmran (c_pending c)) \<union> nextExpiry ` fset (fmran (c_inflight c))"
      by (auto simp: deadlines_def intro: fmranI)
    then show ?thesis by (rule finite_subset) simp
  qed
  have "now < d" if "d \<in> deadlines c" for d
    using assms [of "Min (deadlines c)"] that Min_le [OF fin that] NextDeadline_eq [of c] by (auto split: if_splits)
  note later = this
  show "w_deadline w = 0 \<or> now < w_deadline w" if "fmlookup (c_pending c) k = Some w"
    using later [of "w_deadline w"] that unfolding deadlines_def by blast
  show "nextExpiry r = 0 \<or> now < nextExpiry r" if "fmlookup (c_inflight c) k = Some r"
    using later [of "nextExpiry r"] that unfolding deadlines_def by blast
qed

lemma fold_id: "(\<And>x. x \<in> set xs \<Longrightarrow> f x s = s) \<Longrightarrow> fold f xs s = s"
  by (induction xs) simp_all

lemma Tick_idle:
  assumes "core_inv c" and "\<not> HasRunnableWork c" and "\<And>d. NextDeadline c = (d, True) \<Longrightarrow> now < d"
    and "\<And>k r. fmlookup (c_inflight c) k = Some r \<Longrightarrow>
      (CreditID (c_registry c) \<noteq> None \<longrightarrow> \<not> CallerStreams (r_shape r) \<or> r_inboundClosed r \<or> h_Grant (r_handler r) = None)
      \<and> (FullFor k (c_outbox c) \<longrightarrow> r_fullSince r = 0 \<or> Time_Sub now (r_fullSince r) < QueueFullLimit (c_config c))"
  shows "Tick now c = c\<lparr>c_inflight := fmmap_keys (note_full now (c_outbox c)) (c_inflight c)\<rparr>"
proof -
  have p: "expirePending now c = c" unfolding expirePending_def
    by (rule fold_id) (use not_due(1) [OF assms(3)] in \<open>auto simp: expire_pending_at_def split: option.splits\<close>)
  have i: "expireInflight now c = c" unfolding expireInflight_def
    by (rule fold_id) (use not_due(2) [OF assms(3)] in \<open>auto simp: expire_inflight_at_def split: option.splits\<close>)
  have idle: "idle_call now c k r" if "fmlookup (c_inflight c) k = Some r" for k r
  proof -
    have "k \<in> set (sortedKeys (c_inflight c))" using that by (auto simp: fmlookup_dom_iff)
    then have "CalleeStreams (r_shape r) \<and> starved r \<or> \<not> HasRoom k (c_outbox c)"
      using assms(2) that by (force simp: HasRunnableWork_def list_ex_iff)
    with assms(4) [OF that] show ?thesis by (simp add: idle_call_def)
  qed
  have "0 < QueueFullLimit (c_config c)" using assms(1) by (simp add: core_inv_def config_ok_def)
  moreover have "\<forall>k \<in> set (sortedKeys (c_inflight c)). \<exists>r. fmlookup (c_inflight c) k = Some r \<and> idle_call now c k r"
    using idle by (auto simp: fmlookup_dom_iff)
  ultimately have "fold (\<lambda>k. pollOne k now) (sortedKeys (c_inflight c)) c = c\<lparr>c_inflight := fmmap_keys
      (\<lambda>k r. if k \<in> set (sortedKeys (c_inflight c)) then note_full now (c_outbox c) k r else r) (c_inflight c)\<rparr>"
    using polls_idle [OF sortedKeys_props(1)] by blast
  also have "fmmap_keys (\<lambda>k r. if k \<in> set (sortedKeys (c_inflight c)) then note_full now (c_outbox c) k r else r)
      (c_inflight c) = fmmap_keys (note_full now (c_outbox c)) (c_inflight c)"
    by (intro fmap_ext) (auto simp: fmlookup_dom_iff map_option_case split: option.splits)
  finally show ?thesis by (simp add: Tick_def p i)
qed

end
