(* ===== verification/CoreTypes.thy ===== *)
theory CoreTypes
  imports CoreService
begin

text \<open>
  Types of calls.  The shape of a call's method and the message ids it goes with are fixed when the
  call starts: no step of the core changes them, and an outcome that a step reports fits the
  shape, which is what \<open>typed_step\<close> says.  It is a preorder, so the loops over the tables are typed
  because their bodies are.
\<close>

subsection \<open>Shapes of outcomes\<close>

definition outcome_fits :: "Shape \<Rightarrow> Outcome \<Rightarrow> bool" where
  "outcome_fits shape x \<longleftrightarrow> (case o_Kind x of
       OutcomeResponse \<Rightarrow> \<not> CalleeStreams shape \<and> o_Status x = None
     | OutcomeItem \<Rightarrow> CalleeStreams shape \<and> o_Status x = None
     | OutcomeEnd \<Rightarrow> CalleeStreams shape \<and> o_Status x = None
     | OutcomeFailed \<Rightarrow> o_Status x \<noteq> None)"

text \<open>What of a pending call never changes.\<close>

definition fixed_part :: "waiting \<Rightarrow> CallContext \<times> nat \<times> u32 \<times> u32 \<times> u32 \<times> Shape \<times> gotime" where
  "fixed_part r = (w_context r, w_entered r, w_requestID r, w_itemID r, w_replyID r, w_shape r, w_deadline r)"

definition keeps_fixed :: "'w Core \<Rightarrow> 'w Core \<Rightarrow> bool" where
  "keeps_fixed c c' \<longleftrightarrow> (\<forall>k r'. fmlookup (c_pending c') k = Some r' \<longrightarrow>
     (\<exists>r. fmlookup (c_pending c) k = Some r \<and> fixed_part r' = fixed_part r))"

definition reports_typed :: "'w Core \<Rightarrow> 'w Core \<Rightarrow> bool" where
  "reports_typed c c' \<longleftrightarrow> (\<exists>new. c_outcomes c' = c_outcomes c @ new
     \<and> (\<forall>x \<in> set new. \<exists>r. fmlookup (c_pending c) (o_Call x) = Some r \<and> outcome_fits (w_shape r) x))"

definition typed_step :: "'w Core \<Rightarrow> 'w Core \<Rightarrow> bool" where
  "typed_step c c' \<longleftrightarrow> keeps_fixed c c' \<and> reports_typed c c'"

interpretation typing: preorder_steps typed_step
proof unfold_locales
  fix c d e :: "'w Core"
  show "typed_step c c" by (simp add: typed_step_def keeps_fixed_def reports_typed_def)
  assume cd: "typed_step c d" and de: "typed_step d e"
  have k: "\<exists>r. fmlookup (c_pending c) k = Some r \<and> fixed_part r' = fixed_part r"
    if "fmlookup (c_pending d) k = Some r'" for k r'
    using cd that by (simp add: typed_step_def keeps_fixed_def)
  have "keeps_fixed c e"
    using de k unfolding typed_step_def keeps_fixed_def by (metis (no_types))
  moreover obtain xs ys where x: "c_outcomes d = c_outcomes c @ xs"
      "\<forall>x \<in> set xs. \<exists>r. fmlookup (c_pending c) (o_Call x) = Some r \<and> outcome_fits (w_shape r) x"
    and y: "c_outcomes e = c_outcomes d @ ys"
      "\<forall>x \<in> set ys. \<exists>r. fmlookup (c_pending d) (o_Call x) = Some r \<and> outcome_fits (w_shape r) x"
    using cd de by (auto simp: typed_step_def reports_typed_def)
  have "\<exists>r. fmlookup (c_pending c) (o_Call x) = Some r \<and> outcome_fits (w_shape r) x"
    if "x \<in> set ys" for x
    using y(2) that k by (fastforce simp: fixed_part_def)
  then have "reports_typed c e" using x y(1) by (auto simp: reports_typed_def)
  ultimately show "typed_step c e" by (simp add: typed_step_def)
qed

subsection \<open>Typed steps\<close>

lemma typed_same: "c_pending c' = c_pending c \<Longrightarrow> c_outcomes c' = c_outcomes c \<Longrightarrow> typed_step c c'"
  by (simp add: typed_step_def keeps_fixed_def reports_typed_def)

lemma outcome_fits_failed [simp]: "outcome_fits shape (failed k status)"
  by (simp add: outcome_fits_def failed_def)

lemma failed_Call [simp]: "o_Call (failed k status) = k"
  by (simp add: failed_def)

lemma typed_settle:
  assumes "\<And>r. fmlookup (c_pending c) k = Some r \<Longrightarrow> outcome_fits (w_shape r) x" and "o_Call x = k"
  shows "typed_step c (settlePending k x c)"
proof (cases "fmlookup (c_pending c) k")
  case None
  then show ?thesis by (simp add: settlePending_def typing.step_refl)
next
  case (Some r)
  have "c_outcomes (settlePending k x c) = c_outcomes c @ [x]"
    using Some by (simp add: settlePending_def Let_def core_frames)
  then have "reports_typed c (settlePending k x c)" using Some assms by (simp add: reports_typed_def)
  then show ?thesis by (simp add: typed_step_def keeps_fixed_def settlePending_pending)
qed

lemma typed_abandon: "typed_step c (abandonPending k status c)"
proof -
  have s: "typed_step c (settlePending k (failed k status) c)" by (rule typed_settle) simp_all
  show ?thesis
    by (simp add: abandonPending_def Let_def s typing.step_trans [OF s typed_same] core_frames)
qed

text \<open>Changing the mutable part of a pending call.\<close>

lemma typed_put_pending:
  assumes "fmlookup (c_pending c) k = Some r" and "fixed_part r' = fixed_part r"
    and "c_pending c' = fmupd k r' (c_pending c)" and "c_outcomes c' = c_outcomes c"
  shows "typed_step c c'"
  using assms by (simp add: typed_step_def keeps_fixed_def reports_typed_def)

lemma typed_push_put:
  "fmlookup (c_pending c) k = Some r \<Longrightarrow> fixed_part r' = fixed_part r
    \<Longrightarrow> typed_step c (c\<lparr>c_outbox := b, c_pending := fmupd k r' (c_pending c)\<rparr>)"
  by (rule typed_put_pending) simp_all

lemma kept_by_failCall [core_frames]:
  "c_pending (failCall k s c) = c_pending c" "c_outcomes (failCall k s c) = c_outcomes c"
  by (simp_all add: failCall_def core_frames)

lemma typed_onRequest: "typed_step c (onRequest m parsed now c)"
  by (rule typed_same) (auto simp: onRequest_def Let_def core_frames admit_request_def start_call_def
      split: option.splits prod.splits sum.splits attempt.splits)

lemma typed_onResponse: "typed_step c (onResponse m k body c)"
  by (auto simp: onResponse_def outcome_fits_def typing.step_refl failed_def split: option.splits
      intro!: typed_settle)

lemma typed_onError: "typed_step c (onError m k body c)"
  by (auto simp: onError_def Let_def typing.step_refl intro!: typed_settle)

lemma typed_onCallerItem: "typed_step c (onCallerItem k m body now r c)"
  by (rule typed_same) (auto simp: onCallerItem_def Let_def core_frames split: option.splits prod.splits)

lemma typed_onCallerEnd: "typed_step c (onCallerEnd m k now r c)"
  by (rule typed_same) (auto simp: onCallerEnd_def Let_def core_frames split: option.splits prod.splits)

lemma typed_onItem: "typed_step c (onItem m k body now c)"
proof (cases "fmlookup (c_inflight c) k")
  case None
  show ?thesis
  proof (cases "fmlookup (c_pending c) k")
    case (Some r)
    have "typed_step c (c\<lparr>c_outcomes := c_outcomes c @
        [\<lparr>o_Kind = OutcomeItem, o_Call = k, o_Body = body, o_Status = None\<rparr>]\<rparr>)"
      if "CalleeStreams (w_shape r)"
      using Some that by (simp add: typed_step_def keeps_fixed_def reports_typed_def outcome_fits_def)
    with None Some show ?thesis by (simp add: onItem_def typed_abandon)
  qed (simp add: onItem_def None typing.step_refl)
qed (simp add: onItem_def typed_onCallerItem)

lemma typed_onEnd: "typed_step c (onEnd m k now c)"
  by (auto simp: onEnd_def outcome_fits_def typing.step_refl typed_onCallerEnd typed_abandon
      split: option.splits intro!: typed_settle)

lemma typed_onCancel: "typed_step c (onCancel m k c)"
  by (rule typed_same) (auto simp: onCancel_def Let_def core_frames split: option.splits)

lemma typed_onCredit: "typed_step c (onCredit m k body now c)"
proof -
  have p: "typed_step c (put_pending k (r\<lparr>w_credit := n, w_established := True\<rparr>) c)"
    if "fmlookup (c_pending c) k = Some r" for r n
    by (rule typed_put_pending [OF that, of "r\<lparr>w_credit := n, w_established := True\<rparr>"])
      (simp_all add: fixed_part_def put_pending_def)
  have s: "typed_step c c'" if "c_pending c' = c_pending c" "c_outcomes c' = c_outcomes c" for c'
    using that by (rule typed_same)
  show ?thesis
    by (auto simp: onCredit_def Let_def typing.step_refl typed_abandon core_frames
        split: option.splits intro: p s)
qed

lemmas typed_handlers = typed_onRequest typed_onResponse typed_onError typed_onItem typed_onEnd
  typed_onCancel typed_onCredit

lemma typed_failReceived: "typed_step c (failReceived k s c)"
  by (auto simp: failReceived_def typed_abandon core_frames intro: typed_same)

lemma typed_OnMessage: "OnMessage m p now c = (mine, c') \<Longrightarrow> typed_step c c'"
  by (auto simp: OnMessage_def rejectUndecodable_def dispatch_def Let_def typed_failReceived
      typed_handlers typing.step_refl split: if_splits sum.splits)

lemma typed_Tick: "typed_step c (Tick now c)"
proof -
  have 1: "typed_step d (expirePending now d)" for d :: "'a Core"
    unfolding expirePending_def by (rule typing.step_fold)
      (auto simp: expire_pending_at_def typed_abandon typing.step_refl split: option.splits)
  have 2: "typed_step d (expireInflight now d)" for d :: "'a Core"
    unfolding expireInflight_def by (rule typing.step_fold)
      (auto simp: expire_inflight_at_def core_frames intro!: typed_same split: option.splits)
  have 3: "typed_step d (fold (\<lambda>call. pollOne call now) ks d)" for ks and d :: "'a Core"
    by (rule typing.step_fold) (simp add: typed_same core_frames)
  show ?thesis unfolding Tick_def Let_def
    by (rule typing.step_trans [OF 1 typing.step_trans [OF 2 3]])
qed

lemma typed_SessionEnd: "typed_step c (OnSessionEnd c)"
proof (cases "c_finished c")
  case True
  then show ?thesis by (simp add: OnSessionEnd_def typing.step_refl)
next
  case False
  have "\<exists>r. fmlookup (c_pending c) k = Some r" if "k |\<in>| fmdom (c_pending c)" for k
    using that by (simp add: fmlookup_dom_iff)
  with False show ?thesis
    by (auto simp: typed_step_def keeps_fixed_def reports_typed_def OnSessionEnd_effect)
qed

lemma typed_SendItem: "SendItem k body c = (r, c') \<Longrightarrow> typed_step c c'"
  by (auto simp: SendItem_def Let_def put_pending_def typing.step_refl typed_same fixed_part_def
      split: option.splits if_splits prod.splits bool.splits intro!: typed_push_put)

lemma typed_CloseSend: "CloseSend k c = (r, c') \<Longrightarrow> typed_step c c'"
  by (auto simp: CloseSend_def Let_def put_pending_def typing.step_refl typed_same fixed_part_def
      split: option.splits if_splits prod.splits bool.splits intro!: typed_push_put)

lemma typed_Core_Grant: "Core_Grant k items c = (r, c') \<Longrightarrow> typed_step c c'"
  by (rule typed_same) (auto simp: Core_Grant_def Let_def core_frames split: option.splits if_splits)

subsection \<open>Every pending call is typed by a method\<close>

definition call_typed :: "'w Registry \<Rightarrow> waiting \<Rightarrow> bool" where
  "call_typed registry r \<longleftrightarrow> (\<exists>requestID m. MethodFor requestID registry = Some m
     \<and> w_shape r = m_Shape m \<and> w_requestID r = m_RequestID m \<and> w_replyID r = m_ReplyID m
     \<and> w_itemID r = CallerItemID m)"

definition calls_typed :: "'w Core \<Rightarrow> bool" where
  "calls_typed c \<longleftrightarrow> (\<forall>k r. fmlookup (c_pending c) k = Some r \<longrightarrow> call_typed (c_registry c) r)"

lemma calls_typed_step:
  assumes "typed_step c c'" and "c_registry c' = c_registry c" and "calls_typed c"
  shows "calls_typed c'"
  unfolding calls_typed_def
proof (intro allI impI)
  fix k r' assume "fmlookup (c_pending c') k = Some r'"
  then obtain r where "fmlookup (c_pending c) k = Some r" "fixed_part r' = fixed_part r"
    using assms(1) unfolding typed_step_def keeps_fixed_def by blast
  with assms(2,3) show "call_typed (c_registry c') r'"
    by (auto simp: calls_typed_def call_typed_def fixed_part_def)
qed

lemma calls_typed_irrelevant [simp]:
  "calls_typed (c\<lparr>c_world := w\<rparr>) = calls_typed c" "calls_typed (c\<lparr>c_outbox := b\<rparr>) = calls_typed c"
  "calls_typed (c\<lparr>c_ids := ids\<rparr>) = calls_typed c" "calls_typed (run_outbound e x s c) = calls_typed c"
  by (simp_all add: calls_typed_def run_outbound_def)

lemma call_typedI:
  "MethodFor requestID registry = Some m \<Longrightarrow> w_shape r = m_Shape m \<Longrightarrow> w_requestID r = m_RequestID m
    \<Longrightarrow> w_replyID r = m_ReplyID m \<Longrightarrow> w_itemID r = CallerItemID m \<Longrightarrow> call_typed registry r"
  by (auto simp: call_typed_def)

lemma calls_typed_put:
  "calls_typed c \<Longrightarrow> call_typed (c_registry c) r \<Longrightarrow> calls_typed (put_pending k r (c\<lparr>c_outbox := b\<rparr>))"
  by (simp add: calls_typed_def put_pending_def)

lemma calls_typed_Call:
  assumes "Core_Call requestID body ctx options now c = (r, c')" and "calls_typed c"
  shows "calls_typed c'"
proof -
  have q: "calls_typed d'" if "queue_request requestID b m k e x now d = (r', d')"
    and "MethodFor requestID (c_registry d) = Some m" and "calls_typed d" for b m k e x r' d d'
    using that by (auto simp: queue_request_def Let_def
        split: if_splits prod.splits bool.splits intro!: calls_typed_put intro: call_typedI)
  have s: "calls_typed d'" if "send_request requestID b m k out now d = (r', d')"
    and "MethodFor requestID (c_registry d) = Some m" and "calls_typed d" for b m k out r' d d'
    using that by (auto simp: send_request_def split: prod.splits option.splits dest: q)
  show ?thesis using assms
    by (auto simp: Core_Call_def split: if_splits option.splits prod.splits dest: s)
qed

text \<open>The registry of a core never changes.\<close>

lemma registry_settings [simp]:
  "calls_typed (OnReady c) = calls_typed c" "calls_typed (SetCompressor z c) = calls_typed c"
  "calls_typed (AddInterceptor link c) = calls_typed c" "calls_typed (Authenticate i c) = calls_typed c"
  "calls_typed (ClearIdentity c) = calls_typed c"
  by (simp_all add: calls_typed_def OnReady_def SetCompressor_def AddInterceptor_def Authenticate_def
      ClearIdentity_def)

lemma calls_typed_new: "calls_typed (NewCore registry role config w)"
  by (simp add: calls_typed_def NewCore_def Let_def)

lemma calls_typed_SessionEnd: "calls_typed c \<Longrightarrow> calls_typed (OnSessionEnd c)"
proof (cases "c_finished c")
  case False
  then show ?thesis by (simp add: calls_typed_def OnSessionEnd_effect)
qed (simp add: OnSessionEnd_def)

lemma calls_typed_safe:
  "typed_step c c' \<Longrightarrow> safe_step k c c' \<Longrightarrow> calls_typed c \<Longrightarrow> calls_typed c'"
  by (rule calls_typed_step) (simp_all add: safe_step_def same_static_def)

lemma calls_typed_Cancel: "calls_typed c \<Longrightarrow> calls_typed (Core_Cancel k c)"
  by (rule calls_typed_safe [OF _ safe_Core_Cancel])
    (auto simp: Core_Cancel_def typed_abandon typing.step_refl)

lemma reaches_calls_typed:
  assumes "reaches c0 calls taken c" and "calls_typed c0"
  shows "calls_typed c"
  using assms
proof (induction rule: reaches.induct)
  case (call calls taken c requestID body ctx options now k c')
  then show ?case using calls_typed_Call by blast
next
  case (call_refused calls taken c requestID body ctx options now e c')
  then show ?case using calls_typed_Call by blast
next
  case (send_item calls taken c k body r c')
  then show ?case using calls_typed_safe typed_SendItem safe_SendItem by blast
next
  case (close_send calls taken c k r c')
  then show ?case using calls_typed_safe typed_CloseSend safe_CloseSend by blast
next
  case (grant calls taken c k items r c')
  then show ?case using calls_typed_safe typed_Core_Grant safe_Core_Grant by blast
next
  case (message calls taken c messageID payload now mine c')
  then show ?case using calls_typed_safe typed_OnMessage safe_OnMessage by blast
next
  case (tick calls taken c now)
  then show ?case
    using calls_typed_step [OF typed_Tick [of c now]] static_Tick [of c now] by (simp add: same_static_def)
next
  case (drain calls taken c sink c' w)
  from Core_Drain_settings [OF drain.hyps(2)] drain.IH drain.prems show ?case
    by (simp add: calls_typed_def)
next
  case (take calls taken c os c')
  then show ?case by (auto simp: TakeOutcomes_def calls_typed_def)
qed (simp_all add: calls_typed_SessionEnd calls_typed_Cancel)

end
