(* ===== verification/CoreLinks.thy ===== *)
theory CoreLinks
  imports CoreTypes
begin

text \<open>
  Interceptors over the life of a core.  A link of the chain that is entered for a call, on either
  side, is left again exactly once: when the call is refused, settles, fails, is answered or
  abandoned.  What a link does to the world is read by a gauge, a function of the world that the
  hooks of the link at one position raise when they let a call in and lower when they are left,
  and that no other link and no handler moves.  \<open>level\<close> says of a step that the gauge follows the
  number of open calls that have entered the link; it is a preorder.
\<close>

subsection \<open>Gauges\<close>

definition moves_by :: "('w \<Rightarrow> int) \<Rightarrow> int \<Rightarrow> 'w Interceptor \<Rightarrow> bool" where
  "moves_by gauge n link \<longleftrightarrow>
    (\<forall>x w. gauge (snd (snd (ic_Outgoing link x w)))
        = gauge w + (if fst (ic_Outgoing link x w) = None then n else 0))
    \<and> (\<forall>x w. gauge (snd (snd (ic_Inbound link x w)))
        = gauge w + (if fst (ic_Inbound link x w) = None then n else 0))
    \<and> (\<forall>x status w. gauge (snd (ic_Outbound link x status w)) = gauge w - n)"

text \<open>Of the links of a chain only the one at position \<open>p\<close> moves the gauge.\<close>

definition gauged :: "nat \<Rightarrow> ('w \<Rightarrow> int) \<Rightarrow> 'w Chain \<Rightarrow> bool" where
  "gauged p gauge links \<longleftrightarrow> (\<forall>i < length links. moves_by gauge (of_bool (i = p)) (links ! i))"

definition unmoved_handler :: "('w \<Rightarrow> int) \<Rightarrow> 'w Handler \<Rightarrow> bool" where
  "unmoved_handler gauge h \<longleftrightarrow>
    (\<forall>now w. gauge (snd (h_Poll h now w)) = gauge w)
    \<and> (\<forall>f w. h_Cancel h = Some f \<longrightarrow> gauge (snd (f w)) = gauge w)
    \<and> (\<forall>f body w. h_Item h = Some f \<longrightarrow> gauge (snd (f body w)) = gauge w)
    \<and> (\<forall>f w. h_EndOfStream h = Some f \<longrightarrow> gauge (snd (f w)) = gauge w)
    \<and> (\<forall>f w. h_Grant h = Some f \<longrightarrow> gauge (snd (f w)) = gauge w)"

definition unmoved_factory :: "('w \<Rightarrow> int) \<Rightarrow> 'w HandlerFactory \<Rightarrow> bool" where
  "unmoved_factory gauge factory \<longleftrightarrow> (\<forall>m body w result w'. factory m body w = (result, w') \<longrightarrow>
    gauge w' = gauge w \<and> (\<forall>h. result = Returned (Some h, None) \<longrightarrow> unmoved_handler gauge h))"

definition unmoved_registry :: "('w \<Rightarrow> int) \<Rightarrow> 'w Registry \<Rightarrow> bool" where
  "unmoved_registry gauge registry \<longleftrightarrow> (\<forall>k e factory.
    EntryFor k registry = Some e \<longrightarrow> e_Factory e = Some factory \<longrightarrow> unmoved_factory gauge factory)"

lemma unmoved_calls:
  assumes "unmoved_handler gauge h"
  shows "gauge (snd (safePoll h now w)) = gauge w" and "gauge (safeCancel h w) = gauge w"
    and "gauge (snd (deliverItem h body w)) = gauge w" and "gauge (snd (closeStream h w)) = gauge w"
    and "h_Grant h = Some f \<Longrightarrow> gauge (snd (f w)) = gauge w"
proof -
  note h = assms [unfolded unmoved_handler_def]
  show "gauge (snd (safePoll h now w)) = gauge w"
    using conjunct1 [OF h, rule_format, of now w]
    by (auto simp: safePoll_def split: prod.splits attempt.splits)
  show "gauge (safeCancel h w) = gauge w" "gauge (snd (deliverItem h body w)) = gauge w"
    "gauge (snd (closeStream h w)) = gauge w" "h_Grant h = Some f \<Longrightarrow> gauge (snd (f w)) = gauge w"
    using h by (auto simp: safeCancel_def deliverItem_def closeStream_def split: option.splits prod.splits)
      (metis snd_conv)+
qed

subsection \<open>Entering and leaving a chain\<close>

lemma gauged_enter:
  fixes gauge :: "'w \<Rightarrow> int"
  assumes "\<And>i w x. i < length links \<Longrightarrow> gauge (snd (snd (hook (links ! i) x w)))
      = gauge w + (if fst (hook (links ! i) x w) = None then of_bool (index + i = p) else 0)"
    and "enter_links hook links index x w = (entered, r, x', w')"
  shows "gauge w' = gauge w + of_bool (index \<le> p \<and> p < entered)"
  using assms
proof (induction links arbitrary: index x w)
  case (Cons link links)
  obtain y z v where h: "hook link x w = (y, z, v)" by (cases "hook link x w") auto
  have step: "gauge v = gauge w + (if y = None then of_bool (index = p) else 0)"
    using Cons.prems(1) [of 0 x w] h by simp
  show ?case
  proof (cases y)
    case None
    have rest: "gauge w' = gauge v + of_bool (index + 1 \<le> p \<and> p < entered)"
    proof (rule Cons.IH)
      show "enter_links hook links (index + 1) z v = (entered, r, x', w')" using Cons.prems(2) h None by simp
    qed (use Cons.prems(1) [of "Suc _"] in simp)
    have "index + 1 \<le> entered"
      using enter_links_entered [of hook links "index + 1" z v entered r x' w'] Cons.prems(2) h None by simp
    with rest step None show ?thesis by (cases "index \<le> p"; cases "p < entered"; cases "index = p") simp_all
  next
    case (Some rejection)
    with step Cons.prems(2) h show ?thesis by auto
  qed
qed auto

lemma gauged_Inbound:
  "gauged p gauge links \<Longrightarrow> Chain_Inbound links x w = (entered, r, x', w')
    \<Longrightarrow> gauge w' = gauge w + of_bool (p < entered) \<and> entered \<le> length links"
  using gauged_enter [of links gauge ic_Inbound 0 p x w entered r x' w'] Chain_Inbound_entered [of links x w entered r x' w']
  by (simp add: Chain_Inbound_def gauged_def moves_by_def)

lemma gauged_Outgoing:
  "gauged p gauge links \<Longrightarrow> Chain_Outgoing links x w = (entered, r, x', w')
    \<Longrightarrow> gauge w' = gauge w + of_bool (p < entered) \<and> entered \<le> length links"
  using gauged_enter [of links gauge ic_Outgoing 0 p x w entered r x' w'] Chain_Outgoing_entered [of links x w entered r x' w']
  by (simp add: Chain_Outgoing_def gauged_def moves_by_def)

lemma gauged_Outbound:
  assumes "gauged p gauge links" and "n \<le> length links"
  shows "gauge (Chain_Outbound links n x status w) = gauge w - of_bool (p < n)"
proof -
  have "gauge (snd (leave_links links n status x w)) = gauge w - of_bool (p < n)"
    using assms(2)
  proof (induction n arbitrary: x w)
    case (Suc n)
    obtain y v where h: "ic_Outbound (links ! n) x status w = (y, v)" by fastforce
    have "moves_by gauge (of_bool (n = p)) (links ! n)" using assms(1) Suc.prems by (simp add: gauged_def)
    then have "gauge v = gauge w - of_bool (n = p)" using h unfolding moves_by_def by (metis snd_conv)
    with Suc.IH [of y v] Suc.prems h show ?case by (auto simp: of_bool_def)
  qed simp
  with assms(2) show ?thesis by (simp add: Chain_Outbound_def min_def)
qed

subsection \<open>Calls that have entered a link\<close>

definition open_in :: "nat \<Rightarrow> ('r \<Rightarrow> nat) \<Rightarrow> 'r gomap \<Rightarrow> nat" where
  "open_in p entered m = card {k. \<exists>r. fmlookup m k = Some r \<and> p < entered r}"

lemma open_in_drop:
  "open_in p entered m = open_in p entered (fmdrop k m)
    + (case fmlookup m k of None \<Rightarrow> 0 | Some r \<Rightarrow> of_bool (p < entered r))"
proof -
  let ?S = "{j. \<exists>r. fmlookup (fmdrop k m) j = Some r \<and> p < entered r}"
  have "?S \<subseteq> fset (fmdom m)" by (auto intro: fmdomI split: if_splits)
  then have f: "finite ?S" by (rule finite_subset) simp
  have "{j. \<exists>r. fmlookup m j = Some r \<and> p < entered r}
      = (if \<exists>r. fmlookup m k = Some r \<and> p < entered r then insert k ?S else ?S)" by auto
  moreover have "k \<notin> ?S" by simp
  ultimately show ?thesis using f by (auto simp: open_in_def split: option.splits)
qed

lemma open_in_upd: "open_in p entered (fmupd k r m) = open_in p entered (fmdrop k m) + of_bool (p < entered r)"
  using open_in_drop [of p entered "fmupd k r m" k] by simp

lemma open_in_empty [simp]: "open_in p entered fmempty = 0"
  by (simp add: open_in_def)

text \<open>What the gauge shows beyond the calls that are open, and what the parts of a core are to be.\<close>

definition slack :: "nat \<Rightarrow> ('w \<Rightarrow> int) \<Rightarrow> 'w Core \<Rightarrow> int" where
  "slack p gauge c = gauge (c_world c) - int (open_in p w_entered (c_pending c))
    - int (open_in p r_entered (c_inflight c))"

definition linked :: "nat \<Rightarrow> ('w \<Rightarrow> int) \<Rightarrow> 'w Core \<Rightarrow> bool" where
  "linked p gauge c \<longleftrightarrow> gauged p gauge (c_chain c) \<and> unmoved_registry gauge (c_registry c)
    \<and> (\<forall>k r. fmlookup (c_pending c) k = Some r \<longrightarrow> w_entered r \<le> length (c_chain c))
    \<and> (\<forall>k r. fmlookup (c_inflight c) k = Some r \<longrightarrow>
        r_entered r \<le> length (c_chain c) \<and> unmoved_handler gauge (r_handler r))"

definition level :: "nat \<Rightarrow> ('w \<Rightarrow> int) \<Rightarrow> 'w Core \<Rightarrow> 'w Core \<Rightarrow> bool" where
  "level p gauge c c' \<longleftrightarrow> (linked p gauge c \<longrightarrow> linked p gauge c' \<and> slack p gauge c' = slack p gauge c)"

interpretation levels: preorder_steps "level p gauge" for p gauge
  by unfold_locales (auto simp: level_def)

subsection \<open>What the parts of a step do\<close>

lemma linked_same:
  "linked p gauge c \<Longrightarrow> c_chain c' = c_chain c \<Longrightarrow> c_registry c' = c_registry c
    \<Longrightarrow> c_pending c' = c_pending c \<Longrightarrow> c_inflight c' = c_inflight c \<Longrightarrow> linked p gauge c'"
  by (simp add: linked_def)

lemma level_same:
  "c_world c' = c_world c \<Longrightarrow> c_chain c' = c_chain c \<Longrightarrow> c_registry c' = c_registry c
    \<Longrightarrow> c_pending c' = c_pending c \<Longrightarrow> c_inflight c' = c_inflight c \<Longrightarrow> level p gauge c c'"
  by (simp add: level_def linked_same slack_def)

lemma linked_parts [simp]:
  "linked p gauge (c\<lparr>c_world := w\<rparr>) = linked p gauge c"
  "linked p gauge (c\<lparr>c_outbox := b\<rparr>) = linked p gauge c"
  "linked p gauge (c\<lparr>c_outcomes := os\<rparr>) = linked p gauge c"
  "linked p gauge (c\<lparr>c_ids := ids\<rparr>) = linked p gauge c"
  "linked p gauge (on_outbox f c) = linked p gauge c"
  "linked p gauge (run_outbound e x s c) = linked p gauge c"
  "linked p gauge (run_cancel h c) = linked p gauge c"
  "linked p gauge (failCall k status c) = linked p gauge c"
  by (simp_all add: linked_def on_outbox_def run_outbound_def run_cancel_def failCall_def)

lemma slack_parts [simp]:
  "slack p gauge (c\<lparr>c_outbox := b\<rparr>) = slack p gauge c"
  "slack p gauge (c\<lparr>c_outcomes := os\<rparr>) = slack p gauge c"
  "slack p gauge (c\<lparr>c_ids := ids\<rparr>) = slack p gauge c"
  "slack p gauge (on_outbox f c) = slack p gauge c"
  "slack p gauge (failCall k s c) = slack p gauge c"
  "slack p gauge (c\<lparr>c_world := w\<rparr>) = slack p gauge c + (gauge w - gauge (c_world c))"
  by (simp_all add: slack_def on_outbox_def failCall_def)

lemma slack_outbound:
  "linked p gauge c \<Longrightarrow> n \<le> length (c_chain c)
    \<Longrightarrow> slack p gauge (run_outbound n x s c) = slack p gauge c - of_bool (p < n)"
  using gauged_Outbound [of p gauge "c_chain c" n x s "c_world c"] by (simp add: run_outbound_def linked_def)

lemma slack_cancel: "unmoved_handler gauge h \<Longrightarrow> slack p gauge (run_cancel h c) = slack p gauge c"
  by (simp add: run_cancel_def unmoved_calls)

lemma linked_drop_inflight: "linked p gauge c \<Longrightarrow> linked p gauge (drop_inflight k c)"
  by (simp add: linked_def drop_inflight_def)

lemma linked_put_inflight:
  "linked p gauge c \<Longrightarrow> unmoved_handler gauge (r_handler r) \<Longrightarrow> r_entered r \<le> length (c_chain c)
    \<Longrightarrow> linked p gauge (put_inflight k r c)"
  by (simp add: linked_def put_inflight_def)

lemma linked_put_pending:
  "linked p gauge c \<Longrightarrow> w_entered r \<le> length (c_chain c) \<Longrightarrow> linked p gauge (put_pending k r c)"
  by (simp add: linked_def put_pending_def)

lemma fmdrop_missing: "fmlookup m k = None \<Longrightarrow> fmdrop k m = m"
  by (rule fmap_ext) auto

lemma slack_inflight:
  "fmlookup (c_inflight c) k = Some r \<Longrightarrow> slack p gauge (drop_inflight k c) = slack p gauge c + of_bool (p < r_entered r)"
  "fmlookup (c_inflight c) k = None \<Longrightarrow> slack p gauge (drop_inflight k c) = slack p gauge c"
  "fmlookup (c_inflight c) k = Some r \<Longrightarrow> r_entered r' = r_entered r
    \<Longrightarrow> slack p gauge (put_inflight k r' c) = slack p gauge c"
  "fmlookup (c_inflight c) k = None \<Longrightarrow> slack p gauge (put_inflight k r' c) = slack p gauge c - of_bool (p < r_entered r')"
  using open_in_drop [of p r_entered "c_inflight c" k]
  by (simp_all add: slack_def drop_inflight_def put_inflight_def open_in_upd fmdrop_missing)

lemma slack_pending:
  "fmlookup (c_pending c) k = Some r \<Longrightarrow> w_entered r' = w_entered r
    \<Longrightarrow> slack p gauge (put_pending k r' c) = slack p gauge c"
  "fmlookup (c_pending c) k = None \<Longrightarrow> slack p gauge (put_pending k r' c) = slack p gauge c - of_bool (p < w_entered r')"
  using open_in_drop [of p w_entered "c_pending c" k]
  by (simp_all add: slack_def put_pending_def open_in_upd fmdrop_missing)

lemma linked_inflight:
  "linked p gauge c \<Longrightarrow> fmlookup (c_inflight c) k = Some r
    \<Longrightarrow> r_entered r \<le> length (c_chain c) \<and> unmoved_handler gauge (r_handler r)"
  by (simp add: linked_def)

lemma linked_pending:
  "linked p gauge c \<Longrightarrow> fmlookup (c_pending c) k = Some r \<Longrightarrow> w_entered r \<le> length (c_chain c)"
  by (simp add: linked_def)

lemma chain_parts [simp]:
  "c_chain (on_outbox f c) = c_chain c" "c_chain (drop_inflight k c) = c_chain c"
  "c_chain (run_cancel h c) = c_chain c" "c_chain (put_inflight k r c) = c_chain c"
  by (simp_all add: on_outbox_def drop_inflight_def run_cancel_def put_inflight_def)

subsection \<open>Steps of a call\<close>

lemma level_finish: "level p gauge c (finishInflight k s c)"
  unfolding level_def
proof (intro impI)
  assume l: "linked p gauge c"
  note d = linked_drop_inflight [OF l]
  show "linked p gauge (finishInflight k s c) \<and> slack p gauge (finishInflight k s c) = slack p gauge c"
  proof (cases "fmlookup (c_inflight c) k")
    case None
    with d show ?thesis by (simp add: finishInflight_def Let_def slack_inflight)
  next
    case (Some r)
    with d linked_inflight [OF l Some] show ?thesis
      by (simp add: finishInflight_def Let_def slack_outbound slack_inflight)
  qed
qed

lemma level_settle: "level p gauge c (settlePending k x c)"
  unfolding level_def
proof (intro impI)
  assume l: "linked p gauge c"
  show "linked p gauge (settlePending k x c) \<and> slack p gauge (settlePending k x c) = slack p gauge c"
  proof (cases "fmlookup (c_pending c) k")
    case None
    with l show ?thesis by (simp add: settlePending_def)
  next
    case (Some r)
    let ?c = "c\<lparr>c_pending := fmdrop k (c_pending c)\<rparr>"
    have "linked p gauge ?c" "w_entered r \<le> length (c_chain c)" using l Some by (simp_all add: linked_def)
    moreover have "slack p gauge ?c = slack p gauge c + of_bool (p < w_entered r)"
      using open_in_drop [of p w_entered "c_pending c" k] Some by (simp add: slack_def)
    ultimately show ?thesis using Some by (simp add: settlePending_def Let_def slack_outbound)
  qed
qed

lemma level_on_outbox: "level p gauge c (on_outbox f c)"
  by (simp add: level_def)

lemma level_abandon: "level p gauge c (abandonPending k s c)"
  using level_settle [of p gauge c k "failed k s"] by (simp add: abandonPending_def Let_def level_def)

lemma level_failCall: "level p gauge c (failCall k s c)"
  by (simp add: level_def)

lemma level_failReceived: "level p gauge c (failReceived k s c)"
  by (simp add: failReceived_def level_finish level_abandon level_failCall)

lemma level_put_inflight:
  "fmlookup (c_inflight c) k = Some r \<Longrightarrow> r_entered r' = r_entered r \<Longrightarrow> r_handler r' = r_handler r
    \<Longrightarrow> level p gauge c (put_inflight k r' c)"
  using linked_inflight [of p gauge c k r] linked_put_inflight [of p gauge c r' k]
  by (simp add: level_def slack_inflight)

lemma level_put_pending:
  "fmlookup (c_pending c) k = Some r \<Longrightarrow> w_entered r' = w_entered r \<Longrightarrow> level p gauge c (put_pending k r' c)"
  using linked_pending [of p gauge c k r] linked_put_pending [of p gauge c r' k]
  by (simp add: level_def slack_pending)

lemma level_world: "(linked p gauge c \<Longrightarrow> gauge w = gauge (c_world c)) \<Longrightarrow> level p gauge c (c\<lparr>c_world := w\<rparr>)"
  by (simp add: level_def)

lemma level_answer:
  assumes "fmlookup (c_inflight c) k = Some r"
  shows "level p gauge c (run_outbound (r_entered r) x s (on_outbox f (drop_inflight k c)))"
  unfolding level_def
proof (intro impI)
  assume l: "linked p gauge c"
  from linked_drop_inflight [OF l] linked_inflight [OF l assms] assms
  show "linked p gauge (run_outbound (r_entered r) x s (on_outbox f (drop_inflight k c)))
    \<and> slack p gauge (run_outbound (r_entered r) x s (on_outbox f (drop_inflight k c))) = slack p gauge c"
    by (simp add: slack_outbound slack_inflight)
qed

subsection \<open>Polling\<close>

lemma level_poll_step: "poll_step k now c = (again, c') \<Longrightarrow> level p gauge c c'"
proof (cases "fmlookup (c_inflight c) k")
  case None
  then show "poll_step k now c = (again, c') \<Longrightarrow> ?thesis" by (simp add: poll_step_def levels.step_refl)
next
  case (Some r)
  assume step: "poll_step k now c = (again, c')"
  have put: "level p gauge c (put_inflight k r' c)" if "r_entered r' = r_entered r" "r_handler r' = r_handler r" for r'
    using Some that by (rule level_put_inflight)
  show ?thesis
  proof (cases "HasRoom k (c_outbox c)")
    case False
    with step Some show ?thesis
      by (auto simp: poll_step_def Let_def split: if_splits
          intro: put levels.step_refl levels.step_trans [OF put level_finish])
  next
    case room: True
    let ?r = "r\<lparr>r_fullSince := 0\<rparr>"
    let ?c = "put_inflight k ?r c"
    have 1: "level p gauge c ?c" by (rule put) simp_all
    have found: "fmlookup (c_inflight ?c) k = Some ?r" by (simp add: put_inflight_def)
    obtain progress w where y: "safePoll (r_handler r) now (c_world c) = (progress, w)" by fastforce
    have w: "c_world ?c = c_world c" by (simp add: put_inflight_def)
    have "level p gauge ?c (?c\<lparr>c_world := w\<rparr>)"
      using linked_inflight [OF _ found] unmoved_calls(1) [of gauge "r_handler r" now "c_world c"] y w
      by (intro level_world) simp
    with 1 have 2: "level p gauge c (?c\<lparr>c_world := w\<rparr>)" by (rule levels.step_trans)
    have found2: "fmlookup (c_inflight (?c\<lparr>c_world := w\<rparr>)) k = Some ?r" using found by simp
    have item: "level p gauge (?c\<lparr>c_world := w\<rparr>) (put_inflight k r' (on_outbox f (?c\<lparr>c_world := w\<rparr>)))"
      if "r_entered r' = r_entered r" "r_handler r' = r_handler r" for r' f
      using that found2
      by (intro levels.step_trans [OF level_on_outbox level_put_inflight [of _ _ ?r]]) simp_all
    note answer = level_answer [OF found2, simplified]
    show ?thesis
    proof (cases "CalleeStreams (r_shape r) \<and> starved ?r")
      case True
      then show ?thesis using step Some room 1 by (simp add: poll_step_def Let_def)
    next
      case False
      then have "level p gauge (?c\<lparr>c_world := w\<rparr>) c'"
        using step Some room y
        by (auto simp: poll_step_def Let_def w split: if_splits ProgressKind.splits
            intro: level_finish levels.step_refl item answer)
      with 2 show ?thesis by (rule levels.step_trans)
    qed
  qed
qed

lemma level_poll_loop: "level p gauge c (poll_loop k now c)"
proof (induction k now c rule: poll_loop.induct)
  case (1 k now c)
  obtain again d where s: "poll_step k now c = (again, d)" by fastforce
  with "1.IH" [OF s [symmetric]] level_poll_step [OF s] show ?case
    by (subst poll_loop.simps) (auto intro: levels.step_trans)
qed

lemma level_collectGrant: "level p gauge c (collectGrant k c)"
proof (cases "fmlookup (c_inflight c) k")
  case (Some r)
  have w: "level p gauge c (c\<lparr>c_world := w\<rparr>)"
    if "h_Grant (r_handler r) = Some grant" "grant (c_world c) = (items, w)" for grant items w
    using that linked_inflight [OF _ Some] unmoved_calls(5) [of gauge "r_handler r" grant "c_world c"]
    by (intro level_world) simp
  show ?thesis using Some
    by (auto simp: collectGrant_def Let_def split: option.splits prod.splits attempt.splits
        intro: levels.step_refl w levels.step_trans [OF w level_finish] levels.step_trans [OF w level_on_outbox])
qed (simp add: collectGrant_def levels.step_refl split: option.splits)

lemma level_pollOne: "level p gauge c (pollOne k now c)"
  unfolding pollOne_def by (rule levels.step_trans [OF level_collectGrant level_poll_loop])

subsection \<open>Requests\<close>

text \<open>A core in which the links have been entered for a call that has no record yet.\<close>

definition entering :: "nat \<Rightarrow> ('w \<Rightarrow> int) \<Rightarrow> nat \<Rightarrow> 'w Core \<Rightarrow> 'w Core \<Rightarrow> bool" where
  "entering p gauge n c d \<longleftrightarrow> (linked p gauge c \<longrightarrow> linked p gauge d \<and> n \<le> length (c_chain d)
    \<and> slack p gauge d = slack p gauge c + of_bool (p < n))"

lemma entering_refused: "entering p gauge n c d \<Longrightarrow> level p gauge c (run_outbound n x s d)"
  by (simp add: entering_def level_def slack_outbound)

lemma entering_world:
  "entering p gauge n c d \<Longrightarrow> (linked p gauge d \<Longrightarrow> gauge w = gauge (c_world d))
    \<Longrightarrow> entering p gauge n c (d\<lparr>c_world := w\<rparr>)"
  by (simp add: entering_def)

lemma entering_running:
  assumes "entering p gauge (r_entered r) c d" and "fmlookup (c_inflight d) k = None"
    and "linked p gauge d \<Longrightarrow> unmoved_handler gauge (r_handler r)"
  shows "level p gauge c (put_inflight k r d)"
  using assms linked_put_inflight [of p gauge d r k] by (simp add: entering_def level_def slack_inflight)

lemma entering_waiting:
  assumes "entering p gauge (w_entered r) c d" and "fmlookup (c_pending d) k = None"
  shows "level p gauge c (put_pending k r d)"
  using assms linked_put_pending [of p gauge d r k] by (simp add: entering_def level_def slack_pending)

lemma entering_Inbound:
  assumes "Chain_Inbound (c_chain c) x (c_world c) = (n, r, x', w)"
  shows "entering p gauge n c (c\<lparr>c_world := w\<rparr>)"
  using gauged_Inbound [OF _ assms, of p gauge] by (simp add: entering_def linked_def [of p gauge c])

lemma entering_Outgoing:
  assumes "Chain_Outgoing (c_chain c) x (c_world c) = (n, r, x', w)"
  shows "entering p gauge n c (c\<lparr>c_world := w\<rparr>)"
  using gauged_Outgoing [OF _ assms, of p gauge] by (simp add: entering_def linked_def [of p gauge c])

lemma level_start_call:
  assumes "entering p gauge n c d" and "fmlookup (c_inflight d) k = None"
    and "linked p gauge d \<Longrightarrow> unmoved_factory gauge factory"
  shows "level p gauge c (start_call k m factory ctx limit n x body now d)"
proof -
  obtain result w where f: "factory m body (c_world d) = (result, w)" by fastforce
  have e: "entering p gauge n c (d\<lparr>c_world := w\<rparr>)"
    using assms(3) f by (intro entering_world [OF assms(1)]) (auto simp: unmoved_factory_def)
  have refuse: "level p gauge c (failCall k status (run_outbound n x s (d\<lparr>c_world := w\<rparr>)))" for status s
    by (rule levels.step_trans [OF entering_refused [OF e] level_failCall])
  have run: "level p gauge c (pollOne k now (put_inflight k r (d\<lparr>c_world := w\<rparr>)))"
    if "r_entered r = n" "r_handler r = h" "result = Returned (Some h, None)" for r h
  proof (rule levels.step_trans [OF entering_running level_pollOne])
    show "entering p gauge (r_entered r) c (d\<lparr>c_world := w\<rparr>)" using e that(1) by simp
    show "unmoved_handler gauge (r_handler r)" if "linked p gauge (d\<lparr>c_world := w\<rparr>)"
      using assms(3) that f \<open>r_handler r = h\<close> \<open>result = _\<close> unfolding unmoved_factory_def by simp
  qed (simp add: assms(2))
  show ?thesis unfolding start_call_def f Let_def
    by (auto split: attempt.splits option.splits intro!: run refuse)
qed

lemma level_admit:
  assumes "fmlookup (c_inflight c) k = None" and "linked p gauge c \<Longrightarrow> unmoved_factory gauge factory"
  shows "level p gauge c (admit_request k m factory ctx parsed now c)"
proof -
  let ?x = "(newCallContext k m now ctx (c_identity c) SenderCallee)\<lparr>cc_Deadline := call_limit m ctx now c\<rparr>"
  obtain n r x w where e: "Chain_Inbound (c_chain c) ?x (c_world c) = (n, r, x, w)"
    by (cases "Chain_Inbound (c_chain c) ?x (c_world c)") auto
  note entered = entering_Inbound [OF e, of p gauge]
  have refuse: "level p gauge c (failCall k status (run_outbound n x s (c\<lparr>c_world := w\<rparr>)))" for status s
    by (rule levels.step_trans [OF entering_refused [OF entered] level_failCall])
  have start: "level p gauge c (start_call k m factory ctx limit n x body now (c\<lparr>c_world := w\<rparr>))" for limit body
    by (rule level_start_call [OF entered]) (use assms in simp_all)
  show ?thesis unfolding admit_request_def Let_def e
    by (auto split: option.splits sum.splits intro!: refuse start)
qed

lemma level_onRequest: "level p gauge c (onRequest messageID parsed now c)"
proof -
  have "level p gauge c (admit_request k m factory ctx parsed now c)"
    if "\<not> has_key (c_inflight c) k" "EntryFor messageID (c_registry c) = Some e" "e_Factory e = Some factory"
    for k m factory ctx e
    using that by (intro level_admit) (auto simp: has_key_def linked_def unmoved_registry_def fmlookup_dom_iff)
  then show ?thesis unfolding onRequest_def Let_def
    by (auto split: option.splits prod.splits intro: level_failCall levels.step_refl)
qed

subsection \<open>Received frames\<close>

lemma level_onCallerItem:
  assumes "fmlookup (c_inflight c) k = Some r"
  shows "level p gauge c (onCallerItem k messageID body now r c)"
proof -
  let ?c = "put_inflight k (r\<lparr>r_lastHeard := now\<rparr>) c"
  have 1: "level p gauge c ?c" by (rule level_put_inflight [OF assms]) simp_all
  have w: "c_world ?c = c_world c" by (simp add: put_inflight_def)
  obtain answer w' where d: "deliverItem (r_handler r) body (c_world c) = (answer, w')" by fastforce
  have "level p gauge ?c (?c\<lparr>c_world := w'\<rparr>)"
    using linked_inflight [of p gauge ?c k "r\<lparr>r_lastHeard := now\<rparr>"] w
      unmoved_calls(3) [of gauge "r_handler r" body "c_world c"] d
    by (intro level_world) (simp add: put_inflight_def)
  with 1 have 2: "level p gauge c (?c\<lparr>c_world := w'\<rparr>)" by (rule levels.step_trans)
  show ?thesis using d
    by (auto simp: onCallerItem_def Let_def w split: option.splits
        intro: 1 levels.step_trans [OF 1 level_finish] levels.step_trans [OF 2 level_finish]
          levels.step_trans [OF 2 level_pollOne])
qed

lemma level_onCallerEnd:
  assumes "fmlookup (c_inflight c) k = Some r"
  shows "level p gauge c (onCallerEnd messageID k now r c)"
proof -
  let ?c = "put_inflight k (r\<lparr>r_lastHeard := now\<rparr>) c"
  let ?r = "r\<lparr>r_lastHeard := now, r_inboundClosed := True\<rparr>"
  have 1: "level p gauge c ?c" by (rule level_put_inflight [OF assms]) simp_all
  have 2: "level p gauge ?c (put_inflight k ?r ?c)"
    by (rule level_put_inflight [of _ _ "r\<lparr>r_lastHeard := now\<rparr>"]) (simp_all add: put_inflight_def)
  have w: "c_world (put_inflight k ?r ?c) = c_world c" by (simp add: put_inflight_def)
  obtain answer w' where d: "closeStream (r_handler r) (c_world c) = (answer, w')" by fastforce
  have "level p gauge (put_inflight k ?r ?c) ((put_inflight k ?r ?c)\<lparr>c_world := w'\<rparr>)"
    using linked_inflight [of p gauge "put_inflight k ?r ?c" k ?r] w
      unmoved_calls(4) [of gauge "r_handler r" "c_world c"] d
    by (intro level_world) (simp add: put_inflight_def)
  with levels.step_trans [OF 1 2] have 3: "level p gauge c ((put_inflight k ?r ?c)\<lparr>c_world := w'\<rparr>)"
    by (rule levels.step_trans)
  show ?thesis using d
    by (auto simp: onCallerEnd_def Let_def w split: option.splits
        intro: 1 levels.step_trans [OF 1 level_finish] levels.step_trans [OF 3 level_finish]
          levels.step_trans [OF 3 level_pollOne])
qed

lemma level_run_cancel: "fmlookup (c_inflight c) k = Some r \<Longrightarrow> level p gauge c (run_cancel (r_handler r) c)"
  using linked_inflight [of p gauge c k r] by (simp add: level_def slack_cancel)

lemma level_outcome: "level p gauge c (c\<lparr>c_outcomes := os\<rparr>)"
  by (simp add: level_def)

lemma level_received:
  "level p gauge c (onResponse messageID k body c)" "level p gauge c (onError messageID k body c)"
  "level p gauge c (onItem messageID k body now c)" "level p gauge c (onEnd messageID k now c)"
  "level p gauge c (onCancel messageID k c)" "level p gauge c (onCredit messageID k body now c)"
proof -
  show "level p gauge c (onResponse messageID k body c)" "level p gauge c (onError messageID k body c)"
    by (auto simp: onResponse_def onError_def Let_def split: option.splits intro: level_settle levels.step_refl)
  show "level p gauge c (onItem messageID k body now c)" "level p gauge c (onEnd messageID k now c)"
    by (auto simp: onItem_def onEnd_def split: option.splits
        intro: level_onCallerItem level_onCallerEnd level_abandon level_settle level_outcome levels.step_refl)
  show "level p gauge c (onCancel messageID k c)"
    by (auto simp: onCancel_def Let_def split: option.splits
        intro: levels.step_refl levels.step_trans [OF level_run_cancel level_finish])
  show "level p gauge c (onCredit messageID k body now c)"
    by (auto simp: onCredit_def Let_def split: option.splits
        intro: level_finish level_abandon level_put_inflight level_put_pending levels.step_refl)
qed

lemma level_OnMessage: "OnMessage messageID payload now c = (mine, c') \<Longrightarrow> level p gauge c c'"
  by (auto simp: OnMessage_def rejectUndecodable_def dispatch_def Let_def
      split: if_splits sum.splits
      intro: level_failReceived level_onRequest level_received levels.step_refl)

subsection \<open>The session's side\<close>

lemma level_Tick: "level p gauge c (Tick now c)"
proof -
  have 1: "level p gauge d (expirePending now d)" for d :: "'a Core"
    unfolding expirePending_def by (rule levels.step_fold)
      (auto simp: expire_pending_at_def level_abandon levels.step_refl split: option.splits)
  have 2: "level p gauge d (expireInflight now d)" for d :: "'a Core"
    unfolding expireInflight_def by (rule levels.step_fold)
      (auto simp: expire_inflight_at_def split: option.splits
        intro: levels.step_refl levels.step_trans [OF level_run_cancel level_finish])
  have 3: "level p gauge d (fold (\<lambda>call. pollOne call now) ks d)" for ks and d :: "'a Core"
    by (rule levels.step_fold) (rule level_pollOne)
  show ?thesis unfolding Tick_def Let_def
    by (rule levels.step_trans [OF 1 levels.step_trans [OF 2 3]])
qed

text \<open>The calls that the end of a session abandons have no record any more when they are left.\<close>

lemma abandoned_left:
  assumes "linked p gauge c" and "\<forall>k r. fmlookup m k = Some r \<longrightarrow>
      r_entered r \<le> length (c_chain c) \<and> unmoved_handler gauge (r_handler r)"
    and "distinct ks" and "set ks \<subseteq> fset (fmdom m)"
  shows "linked p gauge (fold (abandon_inflight m) ks c)
    \<and> slack p gauge (fold (abandon_inflight m) ks c)
      = slack p gauge c - (\<Sum>k \<leftarrow> ks. of_bool (p < r_entered (the (fmlookup m k))))"
  using assms
proof (induction ks arbitrary: c)
  case (Cons k ks)
  then obtain r where r: "fmlookup m k = Some r" by (auto simp: fmlookup_dom_iff)
  let ?c = "abandon_inflight m k c"
  have c: "?c = run_outbound (r_entered r) (r_context r) (Some Unavailable) (run_cancel (r_handler r) c)"
    using r by (simp add: abandon_inflight_def)
  have "linked p gauge ?c" "slack p gauge ?c = slack p gauge c - of_bool (p < r_entered r)"
    using Cons.prems(1,2) r by (simp_all add: c slack_outbound slack_cancel)
  moreover have "c_chain ?c = c_chain c" by (simp add: c run_outbound_def)
  ultimately show ?case using Cons.IH [of ?c] Cons.prems r by simp
qed simp

lemma open_in_keys:
  "int (open_in p entered m) = (\<Sum>k \<leftarrow> sortedKeys m. of_bool (p < entered (the (fmlookup m k))))"
proof -
  have "{k. \<exists>r. fmlookup m k = Some r \<and> p < entered r} = {k \<in> set (sortedKeys m). p < entered (the (fmlookup m k))}"
    by (auto simp: sortedKeys_props fmlookup_dom_iff)
  then have "open_in p entered m = card {k \<in> set (sortedKeys m). p < entered (the (fmlookup m k))}"
    by (simp only: open_in_def)
  also have "int \<dots> = (\<Sum>k \<in> set (sortedKeys m). of_bool (p < entered (the (fmlookup m k))))"
    by (simp add: sum.If_cases of_bool_def Int_def)
  also have "\<dots> = (\<Sum>k \<leftarrow> sortedKeys m. of_bool (p < entered (the (fmlookup m k))))"
    by (simp only: sum_list_distinct_conv_sum_set sortedKeys_props)
  finally show ?thesis .
qed

lemma level_SessionEnd: "level p gauge c (OnSessionEnd c)"
proof (cases "c_finished c")
  case True
  then show ?thesis by (simp add: OnSessionEnd_def levels.step_refl)
next
  case False
  let ?c = "c\<lparr>c_finished := True, c_ready := False\<rparr>"
  define d where "d = fold settle_unavailable (sortedKeys (c_pending c)) ?c"
  have 1: "level p gauge c ?c" by (rule level_same) simp_all
  have "level p gauge ?c d" unfolding d_def
    by (rule levels.step_fold) (simp add: settle_unavailable_def level_settle)
  with 1 have 2: "level p gauge c d" by (rule levels.step_trans)
  define e where "e = fold (abandon_inflight (c_inflight d)) (sortedKeys (c_inflight d)) (d\<lparr>c_inflight := fmempty\<rparr>)"
  have ended: "OnSessionEnd c = on_outbox Clear e"
    using False by (simp add: OnSessionEnd_def Let_def d_def e_def)
  have "level p gauge d e" unfolding level_def
  proof (intro impI)
    assume l: "linked p gauge d"
    then have "linked p gauge (d\<lparr>c_inflight := fmempty\<rparr>)" by (simp add: linked_def)
    moreover have "slack p gauge (d\<lparr>c_inflight := fmempty\<rparr>) = slack p gauge d + int (open_in p r_entered (c_inflight d))"
      by (simp add: slack_def)
    ultimately show "linked p gauge e \<and> slack p gauge e = slack p gauge d"
      using abandoned_left [of p gauge "d\<lparr>c_inflight := fmempty\<rparr>" "c_inflight d" "sortedKeys (c_inflight d)"] l
      by (simp add: e_def linked_def [of p gauge d] sortedKeys_props open_in_keys [symmetric])
  qed
  then show ?thesis unfolding ended
    by (rule levels.step_trans [OF 2 levels.step_trans [OF _ level_on_outbox]])
qed

subsection \<open>The caller's operations\<close>

lemma level_queue_request:
  assumes "queue_request requestID body m k n x now d = (r, c')"
    and "entering p gauge n c d" and "fmlookup (c_pending d) k = None"
  shows "level p gauge c c'"
proof -
  have refuse: "level p gauge c (run_outbound n y s (d\<lparr>c_outbox := b\<rparr>))" for y s b
    using assms(2) by (intro entering_refused) (simp add: entering_def)
  have stay: "level p gauge c (run_outbound n y s d)" for y s using assms(2) by (rule entering_refused)
  have put: "level p gauge c (put_pending k r (d\<lparr>c_outbox := b\<rparr>))" if "w_entered r = n" for r b
    using assms(2,3) that by (intro entering_waiting) (simp_all add: entering_def)
  show ?thesis using assms(1)
    by (auto simp: queue_request_def Let_def split: if_splits prod.splits bool.splits intro!: refuse stay put)
qed

lemma level_send_request:
  assumes "send_request requestID body m k outgoing now c = (r, c')" and "fmlookup (c_pending c) k = None"
  shows "level p gauge c c'"
proof -
  obtain n y x w where e: "Chain_Outgoing (c_chain c)
      (newCallContext k m now outgoing (c_identity c) SenderCaller) (c_world c) = (n, y, x, w)"
    by (cases "Chain_Outgoing (c_chain c) (newCallContext k m now outgoing (c_identity c) SenderCaller) (c_world c)") auto
  note entered = entering_Outgoing [OF e, of p gauge]
  show ?thesis
  proof (cases y)
    case None
    then have "queue_request requestID body m k n x now (c\<lparr>c_world := w\<rparr>) = (r, c')"
      using assms(1) e by (simp add: send_request_def)
    then show ?thesis by (rule level_queue_request [OF _ entered]) (simp add: assms(2))
  next
    case (Some rejection)
    then have "c' = run_outbound n x (Some rejection) (c\<lparr>c_world := w\<rparr>)"
      using assms(1) e by (simp add: send_request_def)
    then show ?thesis using entering_refused [OF entered] by simp
  qed
qed

lemma level_Call:
  assumes "Core_Call requestID body ctx options now c = (r, c')"
  shows "level p gauge c c'"
proof -
  have ids: "level p gauge c (c\<lparr>c_ids := ids\<rparr>)" for ids by (rule level_same) simp_all
  have sent: "level p gauge c d" if "Allocate (has_key (c_pending c)) (c_ids c) = (Some k, ids)"
    and "send_request requestID body m k outgoing now (c\<lparr>c_ids := ids\<rparr>) = (r', d)" for k ids m outgoing r' d
  proof -
    have "\<not> has_key (c_pending c) k" 
      using allocate_loop_Some [OF that(1) [unfolded Allocate_def]] by simp
    then have "fmlookup (c_pending c) k = None" by (auto simp: has_key_def fmlookup_dom_iff)
    with levels.step_trans [OF ids level_send_request [OF that(2)]] show ?thesis by simp
  qed
  show ?thesis using assms
    by (auto simp: Core_Call_def split: if_splits option.splits prod.splits intro: ids levels.step_refl sent)
qed

lemma level_outbox: "level p gauge c (c\<lparr>c_outbox := b\<rparr>)"
  by (simp add: level_def)

lemma level_caller:
  "SendItem k body c = (r, c') \<Longrightarrow> level p gauge c c'" "CloseSend k c = (r, c') \<Longrightarrow> level p gauge c c'"
  "Core_Grant k items c = (r, c') \<Longrightarrow> level p gauge c c'"
proof -
  have put: "level p gauge c (put_pending k r' (c\<lparr>c_outbox := b\<rparr>))"
    if "fmlookup (c_pending c) k = Some r" "w_entered r' = w_entered r" for r r' b
    using that by (intro levels.step_trans [OF level_outbox level_put_pending]) simp_all
  show "SendItem k body c = (r, c') \<Longrightarrow> level p gauge c c'" "CloseSend k c = (r, c') \<Longrightarrow> level p gauge c c'"
    by (auto simp: SendItem_def CloseSend_def Let_def split: option.splits if_splits prod.splits bool.splits
        intro: level_outbox levels.step_refl put)
  show "Core_Grant k items c = (r, c') \<Longrightarrow> level p gauge c c'"
    by (auto simp: Core_Grant_def Let_def split: option.splits if_splits intro: level_on_outbox levels.step_refl)
qed

lemma level_Cancel: "level p gauge c (Core_Cancel k c)"
  by (simp add: Core_Cancel_def level_abandon levels.step_refl)

subsection \<open>Runs\<close>

text \<open>All operations of a core in any order, as in \<open>reaches\<close>; the sink of a drain does not move the
  gauge, and an interceptor that is added moves it if it comes to stand at position \<open>p\<close>.\<close>

inductive gauged_run :: "nat \<Rightarrow> ('w \<Rightarrow> int) \<Rightarrow> 'w Core \<Rightarrow> 'w Core \<Rightarrow> bool" for p gauge c0 where
  start: "gauged_run p gauge c0 c0"
| ready: "gauged_run p gauge c0 c \<Longrightarrow> gauged_run p gauge c0 (OnReady c)"
| call: "gauged_run p gauge c0 c \<Longrightarrow> Core_Call requestID body ctx options now c = (r, c') \<Longrightarrow> gauged_run p gauge c0 c'"
| send_item: "gauged_run p gauge c0 c \<Longrightarrow> SendItem k body c = (e, c') \<Longrightarrow> gauged_run p gauge c0 c'"
| close_send: "gauged_run p gauge c0 c \<Longrightarrow> CloseSend k c = (e, c') \<Longrightarrow> gauged_run p gauge c0 c'"
| grant: "gauged_run p gauge c0 c \<Longrightarrow> Core_Grant k items c = (e, c') \<Longrightarrow> gauged_run p gauge c0 c'"
| cancel: "gauged_run p gauge c0 c \<Longrightarrow> gauged_run p gauge c0 (Core_Cancel k c)"
| message: "gauged_run p gauge c0 c \<Longrightarrow> OnMessage messageID payload now c = (mine, c') \<Longrightarrow> gauged_run p gauge c0 c'"
| tick: "gauged_run p gauge c0 c \<Longrightarrow> gauged_run p gauge c0 (Tick now c)"
| drain: "gauged_run p gauge c0 c \<Longrightarrow> Core_Drain sink c (c_world c) = Some (c', w) \<Longrightarrow> gauge w = gauge (c_world c)
    \<Longrightarrow> gauged_run p gauge c0 (c'\<lparr>c_world := w\<rparr>)"
| session_end: "gauged_run p gauge c0 c \<Longrightarrow> gauged_run p gauge c0 (OnSessionEnd c)"
| take: "gauged_run p gauge c0 c \<Longrightarrow> gauged_run p gauge c0 (snd (TakeOutcomes c))"
| compressor: "gauged_run p gauge c0 c \<Longrightarrow> gauged_run p gauge c0 (SetCompressor z c)"
| interceptor: "gauged_run p gauge c0 c \<Longrightarrow> moves_by gauge (of_bool (Chain_Len (c_chain c) = p)) link
    \<Longrightarrow> gauged_run p gauge c0 (AddInterceptor link c)"
| authenticate: "gauged_run p gauge c0 c \<Longrightarrow> gauged_run p gauge c0 (Authenticate i c)"
| clear_identity: "gauged_run p gauge c0 c \<Longrightarrow> gauged_run p gauge c0 (ClearIdentity c)"

lemma level_settings:
  "level p gauge c (OnReady c)" "level p gauge c (snd (TakeOutcomes c))" "level p gauge c (SetCompressor z c)"
  "level p gauge c (Authenticate i c)" "level p gauge c (ClearIdentity c)"
  by (rule level_same; simp add: OnReady_def TakeOutcomes_def SetCompressor_def Authenticate_def ClearIdentity_def)+

lemma level_AddInterceptor:
  assumes "moves_by gauge (of_bool (Chain_Len (c_chain c) = p)) link"
  shows "level p gauge c (AddInterceptor link c)"
  unfolding level_def
proof (intro impI conjI)
  assume l: "linked p gauge c"
  then have "gauged p gauge (c_chain c @ [link])"
    using assms by (auto simp: gauged_def linked_def nth_append Chain_Len_def less_Suc_eq)
  with l show "linked p gauge (AddInterceptor link c)"
    by (auto simp: linked_def AddInterceptor_def Chain_Add_def intro: le_SucI)
  show "slack p gauge (AddInterceptor link c) = slack p gauge c" by (simp add: slack_def AddInterceptor_def)
qed

lemma level_Drain:
  assumes "Core_Drain sink c (c_world c) = Some (c', w)" and "gauge w = gauge (c_world c)"
  shows "level p gauge c (c'\<lparr>c_world := w\<rparr>)"
  using assms by (auto simp: Core_Drain_def level_def split: option.splits)

lemma level_run: "gauged_run p gauge c0 c \<Longrightarrow> level p gauge c0 c"
proof (induction rule: gauged_run.induct)
  case (call c requestID body ctx options now r c')
  show ?case by (rule levels.step_trans [OF call.IH level_Call [OF call.hyps(2)]])
next
  case (send_item c k body e c')
  show ?case by (rule levels.step_trans [OF send_item.IH level_caller(1) [OF send_item.hyps(2)]])
next
  case (close_send c k e c')
  show ?case by (rule levels.step_trans [OF close_send.IH level_caller(2) [OF close_send.hyps(2)]])
next
  case (grant c k items e c')
  show ?case by (rule levels.step_trans [OF grant.IH level_caller(3) [OF grant.hyps(2)]])
next
  case (message c messageID payload now mine c')
  show ?case by (rule levels.step_trans [OF message.IH level_OnMessage [OF message.hyps(2)]])
next
  case (drain c sink c' w)
  show ?case by (rule levels.step_trans [OF drain.IH level_Drain [OF drain.hyps(2,3)]])
next
  case (interceptor c link)
  show ?case by (rule levels.step_trans [OF interceptor.IH level_AddInterceptor [OF interceptor.hyps(2)]])
qed (rule levels.step_refl
  | erule levels.step_trans, rule level_settings level_Tick level_SessionEnd level_Cancel)+

lemma linked_new: "unmoved_registry gauge registry \<Longrightarrow> linked p gauge (NewCore registry role config w)
    \<and> slack p gauge (NewCore registry role config w) = gauge w"
  by (simp add: linked_def slack_def NewCore_def Let_def gauged_def)

lemma gauge_follows:
  assumes "gauged_run p gauge (NewCore registry role config w) c" and "unmoved_registry gauge registry"
  shows "gauge (c_world c) = gauge w
    + int (card {k. \<exists>r. fmlookup (c_pending c) k = Some r \<and> p < w_entered r})
    + int (card {k. \<exists>r. fmlookup (c_inflight c) k = Some r \<and> p < r_entered r})"
  using level_run [OF assms(1)] linked_new [OF assms(2), of p role config w]
  by (simp add: level_def slack_def open_in_def)

lemma gauge_returns:
  assumes "gauged_run p gauge (NewCore registry role config w) c" and "unmoved_registry gauge registry"
    and "\<not> c_finished c"
  shows "gauge (c_world (OnSessionEnd c)) = gauge w"
  using gauge_follows [OF gauged_run.session_end [OF assms(1)] assms(2)] assms(3)
  by (simp add: OnSessionEnd_effect)

end
