(* ===== verification/CoreCall.thy ===== *)
theory CoreCall
  imports CoreService Keys
begin

text \<open>
  A unary call from end to end: the REQUEST that \<open>Call\<close> queues at one core, received by the
  other, makes it run the handler's factory on the same body and ctx and queue the reply; the
  reply, received by the first core, completes the call with the handler's body.  The cores
  here have no interceptors and no compressor, so that a frame carries the body itself.
\<close>

definition bare :: "'w Core \<Rightarrow> bool" where
  "bare c \<longleftrightarrow> c_chain c = [] \<and> c_compressor c = None \<and> c_ready c"

definition request_frame :: "u32 \<Rightarrow> CallID \<Rightarrow> Ctx \<Rightarrow> bytes \<Rightarrow> Outgoing" where
  "request_frame requestID k ctx body = \<lparr>og_MessageID = requestID,
     og_Payload = Encode (request_header k ctx) (encoded_ctx (request_header k ctx) ctx) body\<rparr>"

definition response_frame :: "u32 \<Rightarrow> CallID \<Rightarrow> bytes \<Rightarrow> Outgoing" where
  "response_frame replyID k body =
    \<lparr>og_MessageID = replyID, og_Payload = Encode (plain_header KindResponse k) [] body\<rparr>"

lemma bare_maybeCompress [simp]: "c_compressor c = None \<Longrightarrow> maybeCompress body h c = (body, h)"
  by (simp add: maybeCompress_def)

lemma bare_frames [simp]:
  "c_compressor c = None \<Longrightarrow> bodyFrame k kind m body c
    = \<lparr>og_MessageID = m, og_Payload = Encode (plain_header kind k) [] body\<rparr>"
  by (simp add: bodyFrame_def)

lemma no_links [simp]:
  "Chain_Inbound [] context w = (0, None, context, w)" "Chain_Outgoing [] context w = (0, None, context, w)"
  "Chain_Outbound [] n context s w = w"
  by (simp_all add: Chain_Inbound_def Chain_Outgoing_def Chain_Outbound_def)

lemma send_request_id:
  "send_request requestID body m call outgoing now c = (Inr k, c') \<Longrightarrow> k = call"
  by (auto simp: send_request_def queue_request_def Let_def
      split: prod.splits option.splits if_splits bool.splits)

text \<open>The caller: the frame that a successful call queues, and the record it keeps.\<close>

lemma Core_Call_bare:
  assumes "Core_Call requestID body ctx options now c = (Inr k, c')" and "bare c"
  shows "\<exists>m r. MethodFor requestID (c_registry c) = Some m
    \<and> c_outbox c' = Outbox_append k (request_frame requestID k (call_ctx ctx options) body) (c_outbox c)
    \<and> c_pending c' = fmupd k r (c_pending c) \<and> w_shape r = m_Shape m \<and> w_replyID r = m_ReplyID m
    \<and> w_itemID r = CallerItemID m \<and> w_deadline r = deadline_of (call_ctx ctx options) now
    \<and> \<not> w_sendClosed r \<and> \<not> w_established r \<and> c_compressor c' = None"
proof -
  obtain m ids where m: "MethodFor requestID (c_registry c) = Some m"
    and s: "send_request requestID body m k (call_ctx ctx options) now (c\<lparr>c_ids := ids\<rparr>) = (Inr k, c')"
    using assms(1)
    by (auto simp: Core_Call_def split: if_splits option.splits prod.splits)
      (metis send_request_id)
  have x: "cc_Ctx (newCallContext k m now ctx' i side) = ctx'" for ctx' i side
    by (simp add: newCallContext_def Let_def split: option.splits)
  show ?thesis using s assms(2) m
    by (auto simp: send_request_def queue_request_def Let_def bare_def x request_frame_def put_pending_def
        Push_def split: if_splits)
qed

text \<open>When a call is accepted.\<close>

lemma Core_Call_accepted:
  assumes "bare c" and "MethodFor requestID (c_registry c) = Some m"
    and "int (length body) \<le> MaxBodyLen (c_config c)" and "int (map_len (c_pending c)) < MaxPending (c_config c)"
    and "Allocate (has_key (c_pending c)) (c_ids c) = (Some k, ids)"
    and "int (length (Ctx_Encode (call_ctx ctx options))) \<le> MaxCtxLen (c_config c)"
    and "HasRoom k (c_outbox c)"
  shows "\<exists>c'. Core_Call requestID body ctx options now c = (Inr k, c')"
proof -
  have x: "cc_Ctx (newCallContext k m now ctx' i side) = ctx'" for ctx' i side
    by (simp add: newCallContext_def Let_def split: option.splits)
  show ?thesis using assms
    by (simp add: Core_Call_def send_request_def queue_request_def Let_def bare_def x encoded_ctx_def
        Push_def HasRoom_def)
qed

subsection \<open>The serving side\<close>

text \<open>What a received request decodes to.\<close>

lemma Decode_request_frame:
  assumes "ctx_ok ctx" and "length (Ctx_Encode ctx) < 2 ^ 32"
    and "int (length (Ctx_Encode ctx)) \<le> limit" and "limit < 2 ^ 63"
  shows "Decode (og_Payload (request_frame requestID k ctx body)) limit
    = Inr \<lparr>p_Header = request_header k ctx, p_Ctx = encoded_ctx (request_header k ctx) ctx, p_Body = body\<rparr>"
  unfolding request_frame_def
  using assms by (simp, intro Decode_Encode)
    (auto simp: header_ok_def request_header_def ctx_fits_def encoded_ctx_def)

lemma ctx_of_request:
  "ctx_ok ctx \<Longrightarrow> (if hdr_HasCtx (request_header k ctx) then DecodeCtx (encoded_ctx (request_header k ctx) ctx)
    else (zero_Ctx, None)) = (ctx, None)"
  by (auto simp: request_header_def encoded_ctx_def Ctx_IsEmpty_iff DecodeCtx_Encode)

text \<open>One poll of a handler that answers a unary call.\<close>

lemma pollOne_respond:
  assumes "fmlookup (c_inflight c) k = Some r" and "r_shape r = ShapeUnary" and "HasRoom k (c_outbox c)"
    and "safePoll (r_handler r) now (c_world c) = (Respond reply, w)" and "bare c"
  shows "pollOne k now c = c\<lparr>c_world := w, c_inflight := fmdrop k (c_inflight c),
    c_outbox := Outbox_append k (response_frame (r_replyID r) k reply) (c_outbox c)\<rparr>"
proof -
  have g: "collectGrant k c = c"
    using assms(1,2) by (simp add: collectGrant_def CallerStreams_def split: option.splits)
  have "poll_step k now c = (False, c\<lparr>c_world := w, c_inflight := fmdrop k (c_inflight c),
    c_outbox := Outbox_append k (response_frame (r_replyID r) k reply) (c_outbox c)\<rparr>)"
    using assms
    by (simp add: poll_step_def Let_def put_inflight_def drop_inflight_def on_outbox_def run_outbound_def
        CalleeStreams_def Respond_def bare_def response_frame_def PushTerminal_def)
  then show ?thesis unfolding pollOne_def g by (subst poll_loop.simps) simp
qed

text \<open>The record of a call that a request starts, before its first poll.\<close>

definition started_record ::
  "Method \<Rightarrow> 'w Handler \<Rightarrow> Ctx \<Rightarrow> gotime \<Rightarrow> 'w running \<Rightarrow> bool" where
  "started_record m h ctx now r \<longleftrightarrow> r_handler r = h \<and> r_shape r = m_Shape m \<and> r_itemID r = CallerItemID m
    \<and> r_replyID r = m_ReplyID m \<and> r_inboundClosed r = (\<not> CallerStreams (m_Shape m)) \<and> r_lastHeard r = now
    \<and> r_credit r = InitialCredit ctx \<and> r_established r = (InitialCredit ctx \<noteq> 0) \<and> r_fullSince r = 0"

text \<open>What a well-formed REQUEST leads to: the factory has run, and the handler is polled.\<close>

lemma OnMessage_request_starts:
  assumes "bare c" and "registry_ok (c_registry c)" and "\<not> Role_Allocates (Core_Role c) k"
    and "k |\<notin>| fmdom (c_inflight c)" and "int (map_len (c_inflight c)) < MaxPending (c_config c)"
    and "EntryFor requestID (c_registry c) = Some e" and "e_Factory e = Some factory"
    and "ctx_ok ctx" and "length (Ctx_Encode ctx) < 2 ^ 32"
    and "int (length (Ctx_Encode ctx)) \<le> MaxCtxLen (c_config c)" and "MaxCtxLen (c_config c) < 2 ^ 63"
    and "factory (e_Method e) body (c_world c) = (Returned (Some h, None), w)"
  shows "\<exists>r. started_record (e_Method e) h ctx now r
    \<and> OnMessage requestID (og_Payload (request_frame requestID k ctx body)) now c
      = (True, pollOne k now (put_inflight k r (c\<lparr>c_world := w\<rparr>)))"
proof -
  let ?m = "e_Method e" and ?q = "\<lparr>p_Header = request_header k ctx,
    p_Ctx = encoded_ctx (request_header k ctx) ctx, p_Body = body\<rparr>"
  have "MethodFor requestID (c_registry c) = Some ?m"
    using assms(6) by (simp add: MethodFor_def EntryFor_def)
  then have plain: "\<not> IsPlain requestID (c_registry c)" using methods.request_not_plain assms(2) by blast
  have start: "\<exists>r. started_record ?m h ctx now r
      \<and> start_call k ?m factory ctx limit entered context body now c = pollOne k now (put_inflight k r (c\<lparr>c_world := w\<rparr>))"
    for limit entered "context"
  proof -
    let ?r0 = "\<lparr>r_handler = h, r_itemID = CallerItemID ?m, r_replyID = m_ReplyID ?m, r_shape = m_Shape ?m,
      r_limit = limit, r_idleLimit = 0, r_lastHeard = now, r_inboundClosed = (\<not> CallerStreams (m_Shape ?m)),
      r_credit = 0, r_established = False, r_fullSince = 0, r_context = context, r_entered = entered\<rparr>"
    let ?r1 = "if m_Shape ?m \<noteq> ShapeUnary then ?r0\<lparr>r_idleLimit := m_IdleLimit ?m\<rparr> else ?r0"
    let ?r = "if InitialCredit ctx \<noteq> 0 then ?r1\<lparr>r_credit := InitialCredit ctx, r_established := True\<rparr> else ?r1"
    have "start_call k ?m factory ctx limit entered context body now c
        = pollOne k now (put_inflight k ?r (c\<lparr>c_world := w\<rparr>))"
      unfolding start_call_def Let_def assms(12) by simp
    moreover have "started_record ?m h ctx now ?r" by (simp add: started_record_def)
    ultimately show ?thesis by blast
  qed
  have "onRequest requestID ?q now c = admit_request k ?m factory ctx ?q now c"
    using assms(3-7) ctx_of_request [OF assms(8), of k]
    by (simp add: onRequest_def Let_def request_header_def split: if_splits)
  also have "\<exists>r. started_record ?m h ctx now r
      \<and> admit_request k ?m factory ctx ?q now c = pollOne k now (put_inflight k r (c\<lparr>c_world := w\<rparr>))"
    using assms(1) start by (simp add: admit_request_def Let_def bare_def inflate_def request_header_def)
  finally show ?thesis
    using plain assms(1) Decode_request_frame [OF assms(8-11), of requestID k body]
    by (simp add: OnMessage_def dispatch_def Let_def bare_def) (simp add: request_header_def)
qed

lemma OnMessage_request_bare:
  assumes "bare c" and "registry_ok (c_registry c)" and "\<not> Role_Allocates (Core_Role c) k"
    and "k |\<notin>| fmdom (c_inflight c)" and "int (map_len (c_inflight c)) < MaxPending (c_config c)"
    and "HasRoom k (c_outbox c)"
    and "EntryFor requestID (c_registry c) = Some e" and "e_Factory e = Some factory"
    and "m_Shape (e_Method e) = ShapeUnary"
    and "ctx_ok ctx" and "length (Ctx_Encode ctx) < 2 ^ 32"
    and "int (length (Ctx_Encode ctx)) \<le> MaxCtxLen (c_config c)" and "MaxCtxLen (c_config c) < 2 ^ 63"
    and "factory (e_Method e) body (c_world c) = (Returned (Some h, None), w1)"
    and "safePoll h now w1 = (Respond reply, w2)"
  shows "OnMessage requestID (og_Payload (request_frame requestID k ctx body)) now c
    = (True, c\<lparr>c_world := w2,
        c_outbox := Outbox_append k (response_frame (m_ReplyID (e_Method e)) k reply) (c_outbox c)\<rparr>)"
proof -
  obtain r where r: "started_record (e_Method e) h ctx now r"
    "OnMessage requestID (og_Payload (request_frame requestID k ctx body)) now c
      = (True, pollOne k now (put_inflight k r (c\<lparr>c_world := w1\<rparr>)))"
    using OnMessage_request_starts [OF assms(1-5,7,8,10-14)] by blast
  have "fmdrop k (fmupd k r (c_inflight c)) = c_inflight c"
    using assms(4) by (intro fmap_ext) (auto simp: fmdom_notD)
  then show ?thesis
    using r assms(1,6,9,15) pollOne_respond [of "put_inflight k r (c\<lparr>c_world := w1\<rparr>)" k r now reply w2]
    by (simp add: put_inflight_def bare_def started_record_def)
qed

subsection \<open>The reply\<close>

lemma Decode_response_frame:
  "Decode (og_Payload (response_frame replyID k body)) limit
    = Inr \<lparr>p_Header = plain_header KindResponse k, p_Ctx = [], p_Body = body\<rparr>"
  unfolding response_frame_def
  by (simp, intro Decode_Encode) (simp_all add: header_ok_def plain_header_def ctx_fits_def)

lemma OnMessage_response:
  assumes "c_ready c" and "\<not> IsPlain replyID (c_registry c)"
    and "fmlookup (c_pending c) k = Some r" and "\<not> CalleeStreams (w_shape r)" and "w_replyID r = replyID"
  shows "OnMessage replyID (og_Payload (response_frame replyID k body)) now c = (True,
    settlePending k \<lparr>o_Kind = OutcomeResponse, o_Call = k, o_Body = body, o_Status = None\<rparr> c)"
  using assms
  by (simp add: OnMessage_def Decode_response_frame inflate_def plain_header_def dispatch_def Let_def
      onResponse_def)

subsection \<open>Compressed bodies\<close>

text \<open>A body frame of a core, received by another core with the same compressor over a lossless
  library: its body is the one that was sent, unless it was compressed and expands past the
  ceiling of the receiver; and a compressed body is shorter than the body.\<close>

theorem body_frame_received:
  assumes "lossless lib NewReader Read" and "deflates lib NewReader Read compressor"
    and "c_compressor c = Some compressor" and "c_compressor d = Some compressor"
    and "kind \<in> {KindResponse, KindItem, KindError}"
  shows "\<exists>header sent. Decode (og_Payload (bodyFrame k kind m body c)) limit
      = Inr \<lparr>p_Header = header, p_Ctx = [], p_Body = sent\<rparr>
    \<and> hdr_Kind header = kind \<and> hdr_Call header = k
    \<and> inflate header sent d = (if hdr_Compressed header \<and> int (length body) > MaxBodyLen (c_config d)
        then Inl (ResourceExhausted ''the body expands past the ceiling'') else Inr body)
    \<and> (if hdr_Compressed header then length sent < length body else sent = body)"
proof -
  obtain sent header where mc: "maybeCompress body (plain_header kind k) c = (sent, header)" by fastforce
  let ?p = "\<lparr>p_Header = header, p_Ctx = [], p_Body = sent\<rparr>"
  have h: "header = plain_header kind k \<and> sent = body
      \<or> header = (plain_header kind k)\<lparr>hdr_Compressed := True\<rparr> \<and> co_Compress compressor body = Some sent
        \<and> length sent < length body"
    using mc assms(3) by (auto simp: maybeCompress_def split: if_splits option.splits)
  have "Decode (Encode header [] sent) limit = Inr ?p"
    by (rule Decode_Encode) (use h assms(5) in \<open>auto simp: header_ok_def plain_header_def ctx_fits_def\<close>)
  then have "Decode (og_Payload (bodyFrame k kind m body c)) limit = Inr ?p"
    using mc by (simp add: bodyFrame_def)
  moreover have "inflate header sent d = (if hdr_Compressed header \<and> int (length body) > MaxBodyLen (c_config d)
        then Inl (ResourceExhausted ''the body expands past the ceiling'') else Inr body)"
    using h assms(4) decompress_compressed [OF assms(1,2), of body sent]
    by (auto simp: inflate_def plain_header_def)
  ultimately show ?thesis using h
    by (intro exI [of _ header] exI [of _ sent]) (auto simp: plain_header_def)
qed

subsection \<open>Both together\<close>

text \<open>Both together: the frames that carry a unary call, and what is left of it.\<close>

theorem unary_call:
  assumes cl: "bare cl" "registry_ok (c_registry cl)" "MethodFor requestID (c_registry cl) = Some m"
      "m_Shape m = ShapeUnary" "core_inv cl"
    and call: "Core_Call requestID body ctx options t0 cl = (Inr k, cl')"
    and sv: "bare sv" "registry_ok (c_registry sv)" "\<not> Role_Allocates (Core_Role sv) k"
      "k |\<notin>| fmdom (c_inflight sv)" "int (map_len (c_inflight sv)) < MaxPending (c_config sv)"
      "HasRoom k (c_outbox sv)"
      "EntryFor requestID (c_registry sv) = Some e" "e_Factory e = Some factory" "e_Method e = m"
    and ctx: "ctx_ok (call_ctx ctx options)" "length (Ctx_Encode (call_ctx ctx options)) < 2 ^ 32"
      "int (length (Ctx_Encode (call_ctx ctx options))) \<le> MaxCtxLen (c_config sv)"
      "MaxCtxLen (c_config sv) < 2 ^ 63"
    and handler: "factory m body (c_world sv) = (Returned (Some h, None), w1)"
      "safePoll h t1 w1 = (Respond reply, w2)"
  shows "\<exists>request response sv' cl''.
    c_outbox cl' = Outbox_append k request (c_outbox cl)
    \<and> OnMessage (og_MessageID request) (og_Payload request) t1 sv = (True, sv')
    \<and> c_outbox sv' = Outbox_append k response (c_outbox sv) \<and> k |\<notin>| fmdom (c_inflight sv')
    \<and> OnMessage (og_MessageID response) (og_Payload response) t2 cl' = (True, cl'')
    \<and> c_outcomes cl'' = c_outcomes cl
        @ [\<lparr>o_Kind = OutcomeResponse, o_Call = k, o_Body = reply, o_Status = None\<rparr>]
    \<and> k |\<notin>| fmdom (c_pending cl'')"
proof -
  let ?x = "call_ctx ctx options"
  let ?q = "request_frame requestID k ?x body" and ?p = "response_frame (m_ReplyID m) k reply"
  let ?sv = "sv\<lparr>c_world := w2, c_outbox := Outbox_append k ?p (c_outbox sv)\<rparr>"
  let ?o = "\<lparr>o_Kind = OutcomeResponse, o_Call = k, o_Body = reply, o_Status = None\<rparr>"
  from Core_Call_bare [OF call cl(1)] cl(3) obtain r where
    r: "c_outbox cl' = Outbox_append k ?q (c_outbox cl)" "c_pending cl' = fmupd k r (c_pending cl)"
      "w_shape r = m_Shape m" "w_replyID r = m_ReplyID m" by auto
  have keep: "c_outcomes cl' = c_outcomes cl \<and> c_registry cl' = c_registry cl \<and> c_ready cl' = c_ready cl"
    using Core_Call_result [OF call cl(5)] by (simp add: call_result_def)
  have 1: "OnMessage (og_MessageID ?q) (og_Payload ?q) t1 sv = (True, ?sv)"
    using OnMessage_request_bare [OF sv(1-8) _ ctx, of body h w1 t1 reply w2] sv(9) cl(4) handler
    by (simp add: request_frame_def)
  have "\<not> IsPlain (m_ReplyID m) (c_registry cl)" using methods.reply_reaches_core cl(2,3) by blast
  then have 2: "OnMessage (og_MessageID ?p) (og_Payload ?p) t2 cl' = (True, settlePending k ?o cl')"
    using keep r cl(1,4) OnMessage_response [of cl' "m_ReplyID m" k r reply t2]
    by (simp add: response_frame_def bare_def CalleeStreams_def)
  have 3: "c_outcomes (settlePending k ?o cl') = c_outcomes cl @ [?o]"
    using r(2) keep by (simp add: settlePending_def Let_def core_frames)
  have 4: "k |\<notin>| fmdom (c_pending (settlePending k ?o cl'))" by (simp add: settlePending_pending)
  show ?thesis
    using r(1) 1 2 3 4 sv(4)
    by (intro exI [of _ ?q] exI [of _ ?p] exI [of _ ?sv] exI [of _ "settlePending k ?o cl'"]) simp
qed

end
