(* ===== verification/StreamCall.thy ===== *)
theory StreamCall
  imports CoreCall
begin

text \<open>
  Streams from end to end.  A REQUEST of a server stream makes the serving core poll the handler,
  which queues an ITEM frame for each item and an END frame after the last; received in that
  order, they are the outcomes of the call at the other core.  As in theory CoreCall the cores
  have no interceptors and no compressor.
\<close>

definition item_frame :: "u32 \<Rightarrow> CallID \<Rightarrow> bytes \<Rightarrow> Outgoing" where
  "item_frame messageID k body =
    \<lparr>og_MessageID = messageID, og_Payload = Encode (plain_header KindItem k) [] body\<rparr>"

definition end_frame :: "u32 \<Rightarrow> CallID \<Rightarrow> Outgoing" where
  "end_frame voidID k = \<lparr>og_MessageID = voidID, og_Payload = Encode (plain_header KindEnd k) [] []\<rparr>"

text \<open>What a handler yields when it is polled at one time: the items, then the end.\<close>

inductive yields :: "'w Handler \<Rightarrow> gotime \<Rightarrow> 'w \<Rightarrow> bytes list \<Rightarrow> 'w \<Rightarrow> bool" for h now where
  ends: "safePoll h now w = (End, w') \<Longrightarrow> yields h now w [] w'"
| item: "safePoll h now w = (Item b, u) \<Longrightarrow> yields h now u bs w' \<Longrightarrow> yields h now w (b # bs) w'"

text \<open>A handler whose polls list the items and then the end; the package's own \<open>ItemsOf\<close> is one.\<close>

lemma poll_times_yields:
  "fst (poll_times (length bs + 1) h now w) = map Item bs @ [End] \<Longrightarrow> \<exists>w'. yields h now w bs w'"
proof (induction bs arbitrary: w)
  case Nil
  then show ?case by (auto split: prod.splits intro: yields.ends)
next
  case (Cons b bs)
  obtain p u where p: "safePoll h now w = (p, u)" by fastforce
  with Cons.prems have "p = Item b" "fst (poll_times (length bs + 1) h now u) = map Item bs @ [End]"
    by (simp_all split: prod.splits)
  with Cons.IH p show ?case by (blast intro: yields.item)
qed

lemma ItemsOf_yields:
  assumes "ItemsOf items w = (h, w1)"
  shows "\<exists>w2. yields h now w1 items w2"
  using assms items_polls [of "length (w_objects w)" w1 items 0 h now]
  by (auto simp: ItemsOf_def new_object_def PollFunc_def intro!: poll_times_yields)

text \<open>Room in the outbox for a number of frames of a call before another one.\<close>

definition room_for :: "nat \<Rightarrow> CallID \<Rightarrow> Outbox \<Rightarrow> bool" where
  "room_for n k b \<longleftrightarrow> ob_total b + int n < ob_maxTotal b
    \<and> int (length (queue b k)) + int n < ob_maxPerCall b"

lemma room_for_HasRoom: "room_for n k b \<Longrightarrow> HasRoom k b"
  by (simp add: room_for_def HasRoom_def FullFor_def QueuedFor_def)

lemma room_for_append: "room_for (Suc n) k b \<Longrightarrow> room_for n k (Outbox_append k f b)"
  by (simp add: room_for_def queue_simps)

subsection \<open>The serving side\<close>

text \<open>A call that is not limited, or whose allowance exceeds what it has to send.\<close>

definition may_send :: "nat \<Rightarrow> 'w running \<Rightarrow> bool" where
  "may_send n r \<longleftrightarrow> r_established r \<longrightarrow> n < unat (r_credit r)"

lemma starved_fullSince [simp]: "starved (r\<lparr>r_fullSince := t\<rparr>) = starved r"
  by (simp add: starved_def)

lemma may_send_not_starved: "may_send n r \<Longrightarrow> \<not> starved r"
  by (auto simp: may_send_def starved_def)

lemma poll_step_item:
  assumes "fmlookup (c_inflight c) k = Some r" and "CalleeStreams (r_shape r)" and "HasRoom k (c_outbox c)"
    and "safePoll (r_handler r) now (c_world c) = (Item body, w)" and "c_compressor c = None"
    and "may_send (Suc n) r"
  shows "\<exists>r'. poll_step k now c = (True, c\<lparr>c_world := w, c_inflight := fmupd k r' (c_inflight c),
      c_outbox := Outbox_append k (item_frame (r_replyID r) k body) (c_outbox c)\<rparr>)
    \<and> may_send n r' \<and> r_handler r' = r_handler r \<and> r_shape r' = r_shape r \<and> r_replyID r' = r_replyID r"
proof -
  have s: "\<not> starved r" using assms(6) by (rule may_send_not_starved)
  have m: "n < unat (r_credit r - 1)" if "r_established r"
  proof -
    have u: "Suc n < unat (r_credit r)" using assms(6) that by (simp add: may_send_def)
    then have "r_credit r \<noteq> 0" by auto
    from unat_minus_one [OF this] u show ?thesis by simp
  qed
  let ?r = "r\<lparr>r_fullSince := 0\<rparr>"
  let ?r' = "if r_established r then ?r\<lparr>r_credit := r_credit r - 1\<rparr> else ?r"
  have p: "Push k f (c_outbox c) = (True, Outbox_append k f (c_outbox c))" for f
    using assms(3) by (auto simp: Push_def HasRoom_def)
  have "fmupd k ?r' (fmupd k ?r (c_inflight c)) = fmupd k ?r' (c_inflight c)" by simp
  then have "poll_step k now c = (True, c\<lparr>c_world := w, c_inflight := fmupd k ?r' (c_inflight c),
      c_outbox := Outbox_append k (item_frame (r_replyID r) k body) (c_outbox c)\<rparr>)"
    using assms(1-5) s
    by (simp add: poll_step_def Let_def put_inflight_def on_outbox_def Item_def p item_frame_def)
  then show ?thesis using m assms(6) by (intro exI [of _ ?r']) (auto simp: may_send_def)
qed

lemma poll_step_end:
  assumes "fmlookup (c_inflight c) k = Some r" and "CalleeStreams (r_shape r)" and "HasRoom k (c_outbox c)"
    and "safePoll (r_handler r) now (c_world c) = (End, w)" and "c_chain c = []"
    and "may_send 0 r"
  shows "poll_step k now c = (False, c\<lparr>c_world := w, c_inflight := fmdrop k (c_inflight c),
      c_outbox := Outbox_append k (end_frame (rg_voidID (c_registry c)) k) (c_outbox c)\<rparr>)"
proof -
  have "\<not> starved r" using assms(6) by (rule may_send_not_starved)
  then show ?thesis using assms
    by (simp add: poll_step_def Let_def put_inflight_def drop_inflight_def on_outbox_def End_def
        run_outbound_def controlFrame_def end_frame_def PushTerminal_def)
qed

lemma poll_loop_yields:
  assumes "yields h now w bs w'" and "fmlookup (c_inflight c) k = Some r" and "r_handler r = h"
    and "CalleeStreams (r_shape r)" and "may_send (length bs) r" and "room_for (length bs) k (c_outbox c)"
    and "c_world c = w" and "bare c"
  shows "poll_loop k now c = c\<lparr>c_world := w', c_inflight := fmdrop k (c_inflight c),
    c_outbox := fold (Outbox_append k)
      (map (item_frame (r_replyID r) k) bs @ [end_frame (rg_voidID (c_registry c)) k]) (c_outbox c)\<rparr>"
  using assms
proof (induction arbitrary: c r rule: yields.induct)
  case (ends w w')
  from poll_step_end [of c k r now w'] ends room_for_HasRoom show ?case
    by (subst poll_loop.simps) (auto simp: bare_def)
next
  case (item w b u bs w')
  from poll_step_item [of c k r now b u "length bs"] item.prems item.hyps(1) room_for_HasRoom
  obtain r' where r': "poll_step k now c = (True, c\<lparr>c_world := u, c_inflight := fmupd k r' (c_inflight c),
      c_outbox := Outbox_append k (item_frame (r_replyID r) k b) (c_outbox c)\<rparr>)"
    "may_send (length bs) r'" "r_handler r' = r_handler r" "r_shape r' = r_shape r"
    "r_replyID r' = r_replyID r"
    by (auto simp: bare_def)
  let ?c = "c\<lparr>c_world := u, c_inflight := fmupd k r' (c_inflight c),
      c_outbox := Outbox_append k (item_frame (r_replyID r) k b) (c_outbox c)\<rparr>"
  have "poll_loop k now c = poll_loop k now ?c" using r'(1) by (subst poll_loop.simps) simp
  also have "\<dots> = ?c\<lparr>c_world := w', c_inflight := fmdrop k (c_inflight ?c), c_outbox := fold (Outbox_append k)
      (map (item_frame (r_replyID r') k) bs @ [end_frame (rg_voidID (c_registry ?c)) k]) (c_outbox ?c)\<rparr>"
    by (rule item.IH) (use item.prems r' in \<open>auto simp: bare_def room_for_append\<close>)
  finally show ?case using r'(5) by simp
qed

subsection \<open>The caller's side\<close>

definition receives :: "(Outgoing \<times> gotime) list \<Rightarrow> 'w Core \<Rightarrow> 'w Core" where
  "receives = fold (\<lambda>(f, now) c. snd (OnMessage (og_MessageID f) (og_Payload f) now c))"

definition item_outcome :: "CallID \<Rightarrow> bytes \<Rightarrow> Outcome" where
  "item_outcome k body = \<lparr>o_Kind = OutcomeItem, o_Call = k, o_Body = body, o_Status = None\<rparr>"

definition end_outcome :: "CallID \<Rightarrow> Outcome" where
  "end_outcome k = \<lparr>o_Kind = OutcomeEnd, o_Call = k, o_Body = [], o_Status = None\<rparr>"

lemma Decode_stream_frames:
  "Decode (og_Payload (item_frame m k body)) limit
    = Inr \<lparr>p_Header = plain_header KindItem k, p_Ctx = [], p_Body = body\<rparr>"
  "Decode (og_Payload (end_frame m k)) limit
    = Inr \<lparr>p_Header = plain_header KindEnd k, p_Ctx = [], p_Body = []\<rparr>"
  unfolding item_frame_def end_frame_def
  by (simp_all, (intro Decode_Encode; simp add: header_ok_def plain_header_def ctx_fits_def)+)

text \<open>A call whose reply stream this core awaits.\<close>

definition awaits_stream :: "u32 \<Rightarrow> CallID \<Rightarrow> 'w Core \<Rightarrow> bool" where
  "awaits_stream replyID k c \<longleftrightarrow> c_ready c \<and> k |\<notin>| fmdom (c_inflight c)
    \<and> \<not> IsPlain replyID (c_registry c) \<and> \<not> IsPlain (rg_voidID (c_registry c)) (c_registry c)
    \<and> (\<exists>r. fmlookup (c_pending c) k = Some r \<and> CalleeStreams (w_shape r) \<and> w_replyID r = replyID)"

lemma OnMessage_item_frame:
  "awaits_stream replyID k c \<Longrightarrow> OnMessage replyID (og_Payload (item_frame replyID k body)) now c
    = (True, c\<lparr>c_outcomes := c_outcomes c @ [item_outcome k body]\<rparr>)"
  by (auto simp: OnMessage_def Decode_stream_frames inflate_def plain_header_def dispatch_def Let_def
      onItem_def awaits_stream_def item_outcome_def fmdom_notD)

lemma OnMessage_end_frame:
  "awaits_stream replyID k c \<Longrightarrow> OnMessage (rg_voidID (c_registry c))
      (og_Payload (end_frame (rg_voidID (c_registry c)) k)) now c
    = (True, settlePending k (end_outcome k) c)"
  by (auto simp: OnMessage_def Decode_stream_frames inflate_def plain_header_def dispatch_def Let_def
      onEnd_def awaits_stream_def end_outcome_def fmdom_notD)

lemma awaits_stream_outcomes: "awaits_stream replyID k (c\<lparr>c_outcomes := os\<rparr>) = awaits_stream replyID k c"
  by (simp add: awaits_stream_def)

lemma receives_stream:
  assumes "awaits_stream replyID k c" and "length ts = Suc (length bs)"
  shows "let c' = receives (zip (map (item_frame replyID k) bs @ [end_frame (rg_voidID (c_registry c)) k]) ts) c
    in c_outcomes c' = c_outcomes c @ map (item_outcome k) bs @ [end_outcome k]
      \<and> k |\<notin>| fmdom (c_pending c')"
  using assms
proof (induction bs arbitrary: ts c)
  case Nil
  then obtain t where "ts = [t]" by (auto simp: length_Suc_conv)
  moreover obtain r where "fmlookup (c_pending c) k = Some r"
    using Nil.prems(1) by (auto simp: awaits_stream_def)
  ultimately show ?case
    using OnMessage_end_frame [OF Nil.prems(1), of t]
    by (simp add: receives_def end_frame_def settlePending_pending)
      (simp add: settlePending_def Let_def core_frames)
next
  case (Cons b bs)
  then obtain t us where ts: "ts = t # us" "length us = Suc (length bs)" by (cases ts) auto
  let ?c = "c\<lparr>c_outcomes := c_outcomes c @ [item_outcome k b]\<rparr>"
  have "awaits_stream replyID k ?c" using Cons.prems(1) by (simp add: awaits_stream_outcomes)
  from Cons.IH [OF this ts(2)] show ?case
    using OnMessage_item_frame [OF Cons.prems(1), of b t] ts(1)
    by (simp add: receives_def Let_def) (simp add: item_frame_def)
qed

subsection \<open>Both together\<close>

text \<open>The REQUEST of a stream, received: the items and the end are queued.\<close>

lemma stream_served:
  assumes sv: "bare sv" "registry_ok (c_registry sv)" "\<not> Role_Allocates (Core_Role sv) k"
      "k |\<notin>| fmdom (c_inflight sv)" "int (map_len (c_inflight sv)) < MaxPending (c_config sv)"
      "room_for (length items) k (c_outbox sv)"
      "EntryFor requestID (c_registry sv) = Some e" "e_Factory e = Some factory"
      "m_Shape (e_Method e) = ShapeServerStream"
    and ctx: "ctx_ok ctx" "length (Ctx_Encode ctx) < 2 ^ 32"
      "int (length (Ctx_Encode ctx)) \<le> MaxCtxLen (c_config sv)" "MaxCtxLen (c_config sv) < 2 ^ 63"
      "InitialCredit ctx = 0 \<or> length items < unat (InitialCredit ctx)"
    and handler: "factory (e_Method e) body (c_world sv) = (Returned (Some h, None), w1)"
      "yields h now w1 items w2"
  shows "OnMessage requestID (og_Payload (request_frame requestID k ctx body)) now sv = (True, sv\<lparr>c_world := w2,
    c_outbox := fold (Outbox_append k) (map (item_frame (m_ReplyID (e_Method e)) k) items
      @ [end_frame (rg_voidID (c_registry sv)) k]) (c_outbox sv)\<rparr>)"
proof -
  obtain r where r: "started_record (e_Method e) h ctx now r"
    "OnMessage requestID (og_Payload (request_frame requestID k ctx body)) now sv
      = (True, pollOne k now (put_inflight k r (sv\<lparr>c_world := w1\<rparr>)))"
    using OnMessage_request_starts [OF sv(1-5,7,8) ctx(1-4) handler(1)] by blast
  let ?c = "put_inflight k r (sv\<lparr>c_world := w1\<rparr>)"
  have "collectGrant k ?c = ?c"
    using r(1) sv(9) by (simp add: collectGrant_def put_inflight_def started_record_def CallerStreams_def
        split: option.splits)
  moreover have "fmdrop k (fmupd k r (c_inflight sv)) = c_inflight sv"
    using sv(4) by (intro fmap_ext) (auto simp: fmdom_notD)
  moreover have "may_send (length items) r" using r(1) ctx(5) by (auto simp: may_send_def started_record_def)
  ultimately show ?thesis
    using poll_loop_yields [OF handler(2), of ?c k r] r sv(1,6,9)
    by (simp add: pollOne_def put_inflight_def started_record_def CalleeStreams_def bare_def)
qed

lemma queue_appends: "queue (fold (Outbox_append k) fs b) k = queue b k @ fs"
  by (induction fs arbitrary: b) (simp_all add: queue_simps)

text \<open>A drain into a sink that accepts all hands over every queue in its order.\<close>

lemma drained:
  assumes "core_inv c"
  shows "\<exists>c' log. Core_Drain (log_sink (\<lambda>_ _. True)) c [] = Some (c', log)
    \<and> filter (frame_of k) log = queue (c_outbox c) k"
proof -
  have i: "outbox_inv (c_outbox c)" "0 < ob_quantum (c_outbox c)" "tagged (c_outbox c)"
    using assms by (auto simp: core_inv_def config_ok_def outbox_limits_def)
  have "\<forall>f t. fst (log_sink (\<lambda>_ _. True) f t) = Accepted" by (simp add: log_sink_def)
  from Drain_accepting [OF i(1,2) this, of "[]"] obtain b log where
    d: "Outbox_Drain (log_sink (\<lambda>_ _. True)) (c_outbox c) [] = Some (b, log)" "Outbox_Empty b" by blast
  have c: "Core_Drain (log_sink (\<lambda>_ _. True)) c [] = Some (c\<lparr>c_outbox := b\<rparr>, log)"
    using d(1) by (simp add: Core_Drain_def)
  have "core_inv (c\<lparr>c_outbox := b\<rparr>)" using Core_Drain_keeps [OF c assms] by simp
  then have "outbox_inv b" by (simp add: core_inv_def)
  then have "queue b k = []"
    using d(2) by (simp add: Outbox_Empty_def outbox_inv_def queued_0_iff)
  with Drain_handed_over [OF d(1) i(3), of k] c show ?thesis by auto
qed

theorem stream_call:
  assumes cl: "bare cl" "registry_ok (c_registry cl)" "MethodFor requestID (c_registry cl) = Some m"
      "m_Shape m = ShapeServerStream" "core_inv cl" "\<not> IsPlain (rg_voidID (c_registry cl)) (c_registry cl)"
    and call: "Core_Call requestID body ctx options t0 cl = (Inr k, cl')"
    and sv: "bare sv" "registry_ok (c_registry sv)" "\<not> Role_Allocates (Core_Role sv) k"
      "k |\<notin>| fmdom (c_inflight sv)" "int (map_len (c_inflight sv)) < MaxPending (c_config sv)"
      "room_for (length items) k (c_outbox sv)"
      "EntryFor requestID (c_registry sv) = Some e" "e_Factory e = Some factory" "e_Method e = m"
      "rg_voidID (c_registry sv) = rg_voidID (c_registry cl)" "core_inv sv" "queue (c_outbox sv) k = []"
    and ctx: "ctx_ok (call_ctx ctx options)" "length (Ctx_Encode (call_ctx ctx options)) < 2 ^ 32"
      "int (length (Ctx_Encode (call_ctx ctx options))) \<le> MaxCtxLen (c_config sv)"
      "MaxCtxLen (c_config sv) < 2 ^ 63"
      "InitialCredit (call_ctx ctx options) = 0 \<or> length items < unat (InitialCredit (call_ctx ctx options))"
    and handler: "factory m body (c_world sv) = (Returned (Some h, None), w1)" "yields h t1 w1 items w2"
  shows "\<exists>request sv' sv'' log.
    c_outbox cl' = Outbox_append k request (c_outbox cl)
    \<and> OnMessage (og_MessageID request) (og_Payload request) t1 sv = (True, sv') \<and> k |\<notin>| fmdom (c_inflight sv')
    \<and> Core_Drain (log_sink (\<lambda>_ _. True)) sv' [] = Some (sv'', log)
    \<and> (\<forall>ts. length ts = Suc (length items) \<longrightarrow>
        (let cl'' = receives (zip (filter (frame_of k) log) ts) cl'
         in c_outcomes cl'' = c_outcomes cl @ map (item_outcome k) items @ [end_outcome k]
           \<and> k |\<notin>| fmdom (c_pending cl'')))"
proof -
  let ?x = "call_ctx ctx options"
  let ?q = "request_frame requestID k ?x body"
  let ?frames = "map (item_frame (m_ReplyID m) k) items @ [end_frame (rg_voidID (c_registry cl)) k]"
  let ?sv = "sv\<lparr>c_world := w2, c_outbox := fold (Outbox_append k) ?frames (c_outbox sv)\<rparr>"
  from Core_Call_bare [OF call cl(1)] cl(3) obtain r where
    r: "c_outbox cl' = Outbox_append k ?q (c_outbox cl)" "c_pending cl' = fmupd k r (c_pending cl)"
      "w_shape r = m_Shape m" "w_replyID r = m_ReplyID m" by auto
  have keep: "c_outcomes cl' = c_outcomes cl" "c_registry cl' = c_registry cl" "c_ready cl' = c_ready cl"
    using Core_Call_result [OF call cl(5)] by (simp_all add: call_result_def)
  have "core_inv cl'" using core_inv_Call [OF call] cl(5) by blast
  then have "k |\<notin>| fmdom (c_inflight cl')" using r(2) by (auto simp: core_inv_def Role_Allocates_def)
  then have a: "awaits_stream (m_ReplyID m) k cl'"
    using keep r cl methods.reply_reaches_core [OF cl(2,3)]
    by (simp add: awaits_stream_def bare_def CalleeStreams_def)
  have 1: "OnMessage (og_MessageID ?q) (og_Payload ?q) t1 sv = (True, ?sv)"
    using stream_served [OF sv(1-8) _ ctx, of body h w1 t1 w2] sv(9,10) cl(4) handler
    by (simp add: request_frame_def)
  have "core_inv ?sv" using safe_OnMessage [OF 1] sv(11) by (simp add: safe_step_def)
  moreover have "queue (c_outbox ?sv) k = ?frames"
    using sv(12) queue_appends [of k ?frames "c_outbox sv"] by simp
  ultimately obtain sv'' log where
    d: "Core_Drain (log_sink (\<lambda>_ _. True)) ?sv [] = Some (sv'', log)" "filter (frame_of k) log = ?frames"
    using drained [of ?sv k] by auto
  show ?thesis
    using r(1) 1 sv(4) d receives_stream [OF a] keep
    by (intro exI [of _ ?q] exI [of _ ?sv] exI [of _ sv''] exI [of _ log]) (simp add: Let_def)
qed

end
