(* ===== verification/UploadCall.thy ===== *)
theory UploadCall
  imports StreamCall
begin

text \<open>
  A caller's stream from end to end: the items that the caller sends after its REQUEST, and the
  end, are handed to the handler in order, and its response completes the call.  As in the
  theories before, the cores have no interceptors and no compressor.
\<close>

subsection \<open>The caller's side\<close>

text \<open>\<open>SendItem\<close> for each body, then \<open>CloseSend\<close>, all of them accepted.\<close>

fun sends :: "CallID \<Rightarrow> bytes list \<Rightarrow> 'w Core \<Rightarrow> 'w Core option" where
  "sends k [] c = (case CloseSend k c of (None, c) \<Rightarrow> Some c | _ \<Rightarrow> None)"
| "sends k (b # bs) c = (case SendItem k b c of (None, c) \<Rightarrow> sends k bs c | _ \<Rightarrow> None)"

definition same_call :: "waiting \<Rightarrow> waiting \<Rightarrow> bool" where
  "same_call r r' \<longleftrightarrow> w_shape r' = w_shape r \<and> w_itemID r' = w_itemID r \<and> w_replyID r' = w_replyID r"

lemma SendItem_frame:
  assumes "SendItem k b c = (None, c')" and "fmlookup (c_pending c) k = Some r" and "c_compressor c = None"
  shows "\<exists>r'. c' = c\<lparr>c_outbox := Outbox_append k (item_frame (w_itemID r) k b) (c_outbox c),
      c_pending := fmupd k r' (c_pending c)\<rparr> \<and> same_call r r'"
proof -
  have "fmupd k r (c_pending c) = c_pending c" using assms(2) by (intro fmap_ext) auto
  then have n: "c\<lparr>c_outbox := b', c_pending := fmupd k r (c_pending c)\<rparr> = c\<lparr>c_outbox := b'\<rparr>" for b' by simp
  show ?thesis
  proof (cases "w_established r")
    case True
    with assms show ?thesis
      by (intro exI [of _ "r\<lparr>w_credit := w_credit r - 1\<rparr>"])
        (auto simp: SendItem_def Push_def Let_def put_pending_def same_call_def item_frame_def split: if_splits)
  next
    case False
    with assms n show ?thesis
      by (intro exI [of _ r])
        (auto simp: SendItem_def Push_def Let_def same_call_def item_frame_def split: if_splits)
  qed
qed

lemma CloseSend_frame:
  assumes "CloseSend k c = (None, c')" and "fmlookup (c_pending c) k = Some r" and "c_compressor c = None"
  shows "\<exists>r'. c' = c\<lparr>c_outbox := Outbox_append k (end_frame (rg_voidID (c_registry c)) k) (c_outbox c),
      c_pending := fmupd k r' (c_pending c)\<rparr> \<and> same_call r r'"
  using assms
  by (intro exI [of _ "r\<lparr>w_sendClosed := True\<rparr>"])
    (auto simp: CloseSend_def Push_def Let_def put_pending_def same_call_def controlFrame_def end_frame_def
      split: if_splits)

lemma sends_frames:
  assumes "sends k bs c = Some c'" and "fmlookup (c_pending c) k = Some r" and "c_compressor c = None"
  shows "\<exists>r'. c' = c\<lparr>c_outbox := fold (Outbox_append k)
      (map (item_frame (w_itemID r) k) bs @ [end_frame (rg_voidID (c_registry c)) k]) (c_outbox c),
      c_pending := fmupd k r' (c_pending c)\<rparr> \<and> same_call r r'"
  using assms
proof (induction bs arbitrary: c r)
  case Nil
  then have "CloseSend k c = (None, c')" by (auto split: prod.splits option.splits)
  from CloseSend_frame [OF this Nil.prems(2,3)] show ?case by simp
next
  case (Cons b bs)
  then obtain d where d: "SendItem k b c = (None, d)" "sends k bs d = Some c'"
    by (auto split: prod.splits option.splits)
  from SendItem_frame [OF d(1) Cons.prems(2,3)] obtain r1 where
    r1: "d = c\<lparr>c_outbox := Outbox_append k (item_frame (w_itemID r) k b) (c_outbox c),
      c_pending := fmupd k r1 (c_pending c)\<rparr>" "same_call r r1" by blast
  from Cons.IH [OF d(2), of r1] r1(1) Cons.prems(3) obtain r2 where
    r2: "c' = d\<lparr>c_outbox := fold (Outbox_append k)
      (map (item_frame (w_itemID r1) k) bs @ [end_frame (rg_voidID (c_registry d)) k]) (c_outbox d),
      c_pending := fmupd k r2 (c_pending d)\<rparr>" "same_call r1 r2" by auto
  show ?case using r1 r2 by (intro exI [of _ r2]) (simp add: same_call_def)
qed

text \<open>A call without a limit accepts what it has room for.\<close>

lemma sends_accepted:
  assumes "fmlookup (c_pending c) k = Some r" and "CallerStreams (w_shape r)" and "\<not> w_sendClosed r"
    and "\<not> w_established r" and "\<forall>b \<in> set bs. int (length b) \<le> MaxBodyLen (c_config c)"
    and "room_for (length bs) k (c_outbox c)"
  shows "\<exists>c'. sends k bs c = Some c'"
  using assms
proof (induction bs arbitrary: c)
  case Nil
  then have "HasRoom k (c_outbox c)" using room_for_HasRoom by blast
  with Nil show ?case by (simp add: CloseSend_def Push_def HasRoom_def)
next
  case (Cons b bs)
  then have "HasRoom k (c_outbox c)" using room_for_HasRoom by blast
  with Cons.prems obtain f where
    s: "SendItem k b c = (None, c\<lparr>c_outbox := Outbox_append k f (c_outbox c)\<rparr>)"
    by (simp add: SendItem_def Push_def HasRoom_def)
  have "room_for (length bs) k (Outbox_append k f (c_outbox c))"
    using Cons.prems(6) by (simp add: room_for_append)
  then show ?case using Cons.IH [of "c\<lparr>c_outbox := Outbox_append k f (c_outbox c)\<rparr>"] Cons.prems s by simp
qed

subsection \<open>The serving side\<close>

text \<open>What a handler of a caller's stream does: it takes each item, with nothing to send in between,
  and answers when the stream has ended.\<close>

inductive consumes :: "'w Handler \<Rightarrow> 'w \<Rightarrow> (bytes \<times> gotime) list \<Rightarrow> gotime \<Rightarrow> bytes \<Rightarrow> 'w \<Rightarrow> bool" for h where
  closes: "closeStream h w = (None, u) \<Longrightarrow> safePoll h now u = (Respond reply, w')
    \<Longrightarrow> consumes h w [] now reply w'"
| takes: "deliverItem h b w = (None, u) \<Longrightarrow> safePoll h t u = (Pending, v) \<Longrightarrow> consumes h v bs now reply w'
    \<Longrightarrow> consumes h w ((b, t) # bs) now reply w'"

text \<open>A running call that takes a caller's stream of items of an id.\<close>

definition takes_stream :: "'w Handler \<Rightarrow> u32 \<Rightarrow> u32 \<Rightarrow> 'w running \<Rightarrow> bool" where
  "takes_stream h itemID replyID r \<longleftrightarrow> r_handler r = h \<and> r_shape r = ShapeClientStream
    \<and> r_itemID r = itemID \<and> r_replyID r = replyID \<and> \<not> r_inboundClosed r"

definition serves :: "CallID \<Rightarrow> 'w Handler \<Rightarrow> u32 \<Rightarrow> u32 \<Rightarrow> 'w Core \<Rightarrow> bool" where
  "serves k h itemID replyID c \<longleftrightarrow> bare c \<and> h_Grant h = None \<and> HasRoom k (c_outbox c)
    \<and> \<not> IsPlain itemID (c_registry c) \<and> \<not> IsPlain (rg_voidID (c_registry c)) (c_registry c)
    \<and> (\<exists>r. fmlookup (c_inflight c) k = Some r \<and> takes_stream h itemID replyID r)"

lemma no_grant:
  assumes "fmlookup (c_inflight c) k = Some r" and "h_Grant (r_handler r) = None"
  shows "collectGrant k c = c"
  using assms by (auto simp: collectGrant_def split: option.splits)

lemma pollOne_pending:
  assumes "fmlookup (c_inflight c) k = Some r" and "takes_stream h itemID replyID r" and "h_Grant h = None"
    and "HasRoom k (c_outbox c)" and "safePoll h now (c_world c) = (Pending, w)"
  shows "\<exists>r'. pollOne k now c = c\<lparr>c_world := w, c_inflight := fmupd k r' (c_inflight c)\<rparr>
    \<and> takes_stream h itemID replyID r'"
proof -
  let ?r = "r\<lparr>r_fullSince := 0\<rparr>"
  have "poll_step k now c = (False, c\<lparr>c_world := w, c_inflight := fmupd k ?r (c_inflight c)\<rparr>)"
    using assms by (simp add: poll_step_def Let_def put_inflight_def CalleeStreams_def Pending_def takes_stream_def)
  moreover have "collectGrant k c = c" using no_grant [OF assms(1)] assms(2,3) by (simp add: takes_stream_def)
  ultimately have "pollOne k now c = c\<lparr>c_world := w, c_inflight := fmupd k ?r (c_inflight c)\<rparr>"
    unfolding pollOne_def by (subst poll_loop.simps) simp
  moreover have "takes_stream h itemID replyID ?r" using assms(2) by (simp add: takes_stream_def)
  ultimately show ?thesis by blast
qed

lemma OnMessage_caller_item:
  assumes "serves k h itemID replyID c" and "deliverItem h b (c_world c) = (None, u)"
    and "safePoll h now u = (Pending, v)"
  shows "\<exists>c' r'. OnMessage itemID (og_Payload (item_frame itemID k b)) now c = (True, c')
    \<and> c' = c\<lparr>c_world := v, c_inflight := fmupd k r' (c_inflight c)\<rparr> \<and> takes_stream h itemID replyID r'"
proof -
  obtain r where r: "fmlookup (c_inflight c) k = Some r" "takes_stream h itemID replyID r"
    using assms(1) by (auto simp: serves_def)
  let ?r = "r\<lparr>r_lastHeard := now\<rparr>"
  let ?d = "(put_inflight k ?r c)\<lparr>c_world := u\<rparr>"
  have t: "takes_stream h itemID replyID ?r" using r(2) by (simp add: takes_stream_def)
  have "OnMessage itemID (og_Payload (item_frame itemID k b)) now c = (True, pollOne k now ?d)"
    using assms(1,2) r
    by (simp add: OnMessage_def Decode_stream_frames inflate_def plain_header_def dispatch_def Let_def
        onItem_def onCallerItem_def serves_def bare_def takes_stream_def CallerStreams_def put_inflight_def)
  moreover obtain r' where "pollOne k now ?d = ?d\<lparr>c_world := v, c_inflight := fmupd k r' (c_inflight ?d)\<rparr>"
    "takes_stream h itemID replyID r'"
    using pollOne_pending [of ?d k ?r h itemID replyID now v] t assms(1,3)
    by (auto simp: put_inflight_def serves_def)
  ultimately show ?thesis by (simp add: put_inflight_def) blast
qed

lemma OnMessage_caller_end:
  assumes "serves k h itemID replyID c" and "closeStream h (c_world c) = (None, u)"
    and "safePoll h now u = (Respond reply, w)"
  shows "OnMessage (rg_voidID (c_registry c)) (og_Payload (end_frame (rg_voidID (c_registry c)) k)) now c
    = (True, c\<lparr>c_world := w, c_inflight := fmdrop k (c_inflight c),
        c_outbox := Outbox_append k (response_frame replyID k reply) (c_outbox c)\<rparr>)"
proof -
  obtain r where r: "fmlookup (c_inflight c) k = Some r" "takes_stream h itemID replyID r"
    using assms(1) by (auto simp: serves_def)
  let ?r = "r\<lparr>r_lastHeard := now, r_inboundClosed := True\<rparr>"
  let ?d = "(put_inflight k ?r c)\<lparr>c_world := u\<rparr>"
  have s: "OnMessage (rg_voidID (c_registry c)) (og_Payload (end_frame (rg_voidID (c_registry c)) k)) now c
      = (True, pollOne k now ?d)"
    using assms(1,2) r
    by (simp add: OnMessage_def Decode_stream_frames inflate_def plain_header_def dispatch_def Let_def
        onEnd_def onCallerEnd_def serves_def bare_def takes_stream_def CallerStreams_def put_inflight_def)
  have g: "collectGrant k ?d = ?d" by (simp add: collectGrant_def put_inflight_def split: option.splits)
  have "poll_step k now ?d = (False, c\<lparr>c_world := w, c_inflight := fmdrop k (c_inflight c),
        c_outbox := Outbox_append k (response_frame replyID k reply) (c_outbox c)\<rparr>)"
    using assms(1,3) r
    by (simp add: poll_step_def Let_def put_inflight_def drop_inflight_def on_outbox_def run_outbound_def
        CalleeStreams_def Respond_def serves_def bare_def response_frame_def PushTerminal_def takes_stream_def)
  then show ?thesis unfolding s pollOne_def g by (subst poll_loop.simps) simp
qed

lemma receives_uploads:
  assumes "consumes h w (zip bs ts) now reply w'" and "length ts = length bs"
    and "serves k h itemID replyID c" and "c_world c = w"
  shows "receives (zip (map (item_frame itemID k) bs @ [end_frame (rg_voidID (c_registry c)) k]) (ts @ [now])) c
    = c\<lparr>c_world := w', c_inflight := fmdrop k (c_inflight c),
        c_outbox := Outbox_append k (response_frame replyID k reply) (c_outbox c)\<rparr>"
  using assms
proof (induction bs arbitrary: ts w c)
  case Nil
  then obtain u where "closeStream h (c_world c) = (None, u)" "safePoll h now u = (Respond reply, w')"
    by (auto elim: consumes.cases)
  from OnMessage_caller_end [OF Nil.prems(3) this] Nil.prems(2) show ?case
    by (simp add: receives_def) (simp add: end_frame_def)
next
  case (Cons b bs)
  then obtain t us where ts: "ts = t # us" "length us = length bs" by (cases ts) auto
  with Cons.prems(1,4) obtain u v where step: "deliverItem h b (c_world c) = (None, u)"
    "safePoll h t u = (Pending, v)" "consumes h v (zip bs us) now reply w'"
    by (auto elim: consumes.cases)
  from OnMessage_caller_item [OF Cons.prems(3) step(1,2)] obtain r' where
    o: "OnMessage itemID (og_Payload (item_frame itemID k b)) t c
      = (True, c\<lparr>c_world := v, c_inflight := fmupd k r' (c_inflight c)\<rparr>)" "takes_stream h itemID replyID r'"
    by blast
  let ?c = "c\<lparr>c_world := v, c_inflight := fmupd k r' (c_inflight c)\<rparr>"
  have "serves k h itemID replyID ?c" using Cons.prems(3) o(2) by (simp add: serves_def bare_def)
  from Cons.IH [OF step(3) ts(2) this] o(1) ts(1) show ?case
    by (simp add: receives_def) (simp add: item_frame_def)
qed

subsection \<open>Both together\<close>

lemma sends_inv: "sends k bs c = Some c' \<Longrightarrow> core_inv c \<Longrightarrow> core_inv c'"
proof (induction bs arbitrary: c)
  case Nil
  then have "CloseSend k c = (None, c')" by (auto split: prod.splits option.splits)
  with Nil.prems(2) safe_CloseSend show ?case by (auto simp: safe_step_def)
next
  case (Cons b bs)
  then obtain d where d: "SendItem k b c = (None, d)" "sends k bs d = Some c'"
    by (auto split: prod.splits option.splits)
  with Cons safe_SendItem [OF d(1)] show ?case by (simp add: safe_step_def)
qed

lemma receives_inv: "core_inv c \<Longrightarrow> core_inv (receives fs c)"
proof (induction fs arbitrary: c)
  case (Cons x fs)
  obtain f now where x: "x = (f, now)" by fastforce
  obtain mine d where d: "OnMessage (og_MessageID f) (og_Payload f) now c = (mine, d)" by fastforce
  have "core_inv d" using safe_OnMessage [OF d] Cons.prems by (simp add: safe_step_def)
  with Cons.IH x d show ?case by (simp add: receives_def)
qed (simp add: receives_def)

lemma receives_Cons: "receives ((f, now) # fs) c = receives fs (snd (OnMessage (og_MessageID f) (og_Payload f) now c))"
  by (simp add: receives_def)

text \<open>The REQUEST of a caller's stream, received: the call is served.\<close>

lemma upload_starts:
  assumes sv: "bare sv" "registry_ok (c_registry sv)" "\<not> Role_Allocates (Core_Role sv) k"
      "k |\<notin>| fmdom (c_inflight sv)" "int (map_len (c_inflight sv)) < MaxPending (c_config sv)"
      "EntryFor requestID (c_registry sv) = Some e" "e_Factory e = Some factory"
      "m_Shape (e_Method e) = ShapeClientStream" "HasRoom k (c_outbox sv)"
      "\<not> IsPlain (rg_voidID (c_registry sv)) (c_registry sv)"
    and ctx: "ctx_ok ctx" "length (Ctx_Encode ctx) < 2 ^ 32"
      "int (length (Ctx_Encode ctx)) \<le> MaxCtxLen (c_config sv)" "MaxCtxLen (c_config sv) < 2 ^ 63"
    and handler: "factory (e_Method e) body (c_world sv) = (Returned (Some h, None), w1)" "h_Grant h = None"
      "safePoll h now w1 = (Pending, w2)"
  shows "\<exists>r. snd (OnMessage requestID (og_Payload (request_frame requestID k ctx body)) now sv)
      = sv\<lparr>c_world := w2, c_inflight := fmupd k r (c_inflight sv)\<rparr>
    \<and> serves k h (CallerItemID (e_Method e)) (m_ReplyID (e_Method e))
        (sv\<lparr>c_world := w2, c_inflight := fmupd k r (c_inflight sv)\<rparr>)"
proof -
  obtain r where r: "started_record (e_Method e) h ctx now r"
    "OnMessage requestID (og_Payload (request_frame requestID k ctx body)) now sv
      = (True, pollOne k now (put_inflight k r (sv\<lparr>c_world := w1\<rparr>)))"
    using OnMessage_request_starts [OF sv(1-7) ctx handler(1)] by blast
  have t: "takes_stream h (CallerItemID (e_Method e)) (m_ReplyID (e_Method e)) r"
    using r(1) sv(8) by (simp add: started_record_def takes_stream_def CallerStreams_def)
  obtain r' where p: "pollOne k now (put_inflight k r (sv\<lparr>c_world := w1\<rparr>))
      = sv\<lparr>c_world := w2, c_inflight := fmupd k r' (c_inflight sv)\<rparr>"
    "takes_stream h (CallerItemID (e_Method e)) (m_ReplyID (e_Method e)) r'"
    using pollOne_pending [OF _ t handler(2), of "put_inflight k r (sv\<lparr>c_world := w1\<rparr>)" k now w2] sv(9) handler(3)
    by (auto simp: put_inflight_def)
  have "MethodFor requestID (c_registry sv) = Some (e_Method e)"
    using sv(6) by (simp add: MethodFor_def EntryFor_def)
  from methods.caller_item_reaches_core [OF sv(2) this] p r(2) sv(1,9,10) handler(2) show ?thesis
    by (intro exI [of _ r']) (simp add: serves_def bare_def)
qed

theorem upload_call:
  assumes cl: "bare cl" "registry_ok (c_registry cl)" "MethodFor requestID (c_registry cl) = Some m"
      "m_Shape m = ShapeClientStream" "core_inv cl" "queue (c_outbox cl) k = []"
    and call: "Core_Call requestID body ctx options now cl = (Inr k, cl1)" "sends k bodies cl1 = Some cl2"
    and sv: "bare sv" "registry_ok (c_registry sv)" "\<not> Role_Allocates (Core_Role sv) k"
      "k |\<notin>| fmdom (c_inflight sv)" "int (map_len (c_inflight sv)) < MaxPending (c_config sv)"
      "EntryFor requestID (c_registry sv) = Some e" "e_Factory e = Some factory" "e_Method e = m"
      "HasRoom k (c_outbox sv)" "\<not> IsPlain (rg_voidID (c_registry sv)) (c_registry sv)"
      "rg_voidID (c_registry sv) = rg_voidID (c_registry cl)" "core_inv sv" "queue (c_outbox sv) k = []"
    and ctx: "ctx_ok (call_ctx ctx options)" "length (Ctx_Encode (call_ctx ctx options)) < 2 ^ 32"
      "int (length (Ctx_Encode (call_ctx ctx options))) \<le> MaxCtxLen (c_config sv)"
      "MaxCtxLen (c_config sv) < 2 ^ 63"
    and handler: "factory m body (c_world sv) = (Returned (Some h, None), w1)" "h_Grant h = None"
      "safePoll h t0 w1 = (Pending, w2)" "consumes h w2 (zip bodies ts) t1 reply w3" "length ts = length bodies"
  shows "\<exists>cl3 log sv' sv'' log'. Core_Drain (log_sink (\<lambda>_ _. True)) cl2 [] = Some (cl3, log)
    \<and> receives (zip (filter (frame_of k) log) (t0 # ts @ [t1])) sv = sv'
    \<and> Core_Drain (log_sink (\<lambda>_ _. True)) sv' [] = Some (sv'', log') \<and> k |\<notin>| fmdom (c_inflight sv'')
    \<and> (let cl4 = receives (zip (filter (frame_of k) log') [t2]) cl3
       in c_outcomes cl4 = c_outcomes cl
          @ [\<lparr>o_Kind = OutcomeResponse, o_Call = k, o_Body = reply, o_Status = None\<rparr>]
         \<and> k |\<notin>| fmdom (c_pending cl4))"
proof -
  let ?x = "call_ctx ctx options" and ?void = "rg_voidID (c_registry cl)"
  let ?q = "request_frame requestID k ?x body" and ?p = "response_frame (m_ReplyID m) k reply"
  let ?items = "map (item_frame (CallerItemID m) k) bodies @ [end_frame ?void k]"
  let ?o = "\<lparr>o_Kind = OutcomeResponse, o_Call = k, o_Body = reply, o_Status = None\<rparr>"
  from Core_Call_bare [OF call(1) cl(1)] cl(3) obtain r where
    r: "c_outbox cl1 = Outbox_append k ?q (c_outbox cl)" "c_pending cl1 = fmupd k r (c_pending cl)"
      "w_shape r = m_Shape m" "w_replyID r = m_ReplyID m" "w_itemID r = CallerItemID m" "c_compressor cl1 = None"
    by auto
  have keep: "c_outcomes cl1 = c_outcomes cl" "c_registry cl1 = c_registry cl" "c_ready cl1 = c_ready cl"
    using Core_Call_result [OF call(1) cl(5)] by (simp_all add: call_result_def)
  obtain r2 where cl2: "cl2 = cl1\<lparr>c_outbox := fold (Outbox_append k) ?items (c_outbox cl1),
      c_pending := fmupd k r2 (c_pending cl1)\<rparr>" "same_call r r2"
    using sends_frames [OF call(2), of r] r keep by auto
  have "core_inv cl2" using sends_inv [OF call(2)] core_inv_Call [OF call(1)] cl(5) by blast
  from drained [OF this, of k] obtain cl3 log where
    d: "Core_Drain (log_sink (\<lambda>_ _. True)) cl2 [] = Some (cl3, log)"
      "filter (frame_of k) log = queue (c_outbox cl2) k" by blast
  have log: "filter (frame_of k) log = ?q # ?items"
    using d(2) cl(6) r(1) queue_appends [of k ?items "c_outbox cl1"] by (simp add: cl2(1) queue_simps)
  have cl3: "c_pending cl3 = c_pending cl2" "c_outcomes cl3 = c_outcomes cl" "c_registry cl3 = c_registry cl"
    "c_ready cl3"
    using Core_Drain_keeps [OF d(1) \<open>core_inv cl2\<close>] Core_Drain_settings [OF d(1)] keep cl(1) cl2(1)
    by (simp_all add: bare_def)
  from upload_starts [OF sv(1-7) _ sv(9,10) ctx, of body h w1 t0 w2] handler(1-3) sv(8) cl(4) obtain r1 where
    start: "snd (OnMessage requestID (og_Payload ?q) t0 sv)
        = sv\<lparr>c_world := w2, c_inflight := fmupd k r1 (c_inflight sv)\<rparr>"
      "serves k h (CallerItemID m) (m_ReplyID m) (sv\<lparr>c_world := w2, c_inflight := fmupd k r1 (c_inflight sv)\<rparr>)"
    by auto
  let ?u = "sv\<lparr>c_world := w2, c_inflight := fmupd k r1 (c_inflight sv)\<rparr>"
  let ?sv = "receives (zip (filter (frame_of k) log) (t0 # ts @ [t1])) sv"
  have "?sv = receives (zip ?items (ts @ [t1])) ?u"
    unfolding log zip_Cons_Cons receives_Cons using start(1) by (simp add: request_frame_def)
  also have "\<dots> = ?u\<lparr>c_world := w3, c_inflight := fmdrop k (c_inflight ?u),
        c_outbox := Outbox_append k ?p (c_outbox ?u)\<rparr>"
    using receives_uploads [OF handler(4,5) start(2)] sv(11) by simp
  finally have sv': "c_outbox ?sv = Outbox_append k ?p (c_outbox sv)" "k |\<notin>| fmdom (c_inflight ?sv)" by simp_all
  have i: "core_inv ?sv" by (rule receives_inv [OF sv(12)])
  from drained [OF i, of k] obtain sv'' log' where
    e: "Core_Drain (log_sink (\<lambda>_ _. True)) ?sv [] = Some (sv'', log')"
      "filter (frame_of k) log' = queue (c_outbox ?sv) k" by blast
  have log': "filter (frame_of k) log' = [?p]" using e(2) sv(13) by (simp add: sv'(1) queue_simps)
  have "k |\<notin>| fmdom (c_inflight sv'')"
    using Core_Drain_keeps [OF e(1) i] sv'(2) by simp
  moreover have "\<not> IsPlain (m_ReplyID m) (c_registry cl)" using methods.reply_reaches_core cl(2,3) by blast
  then have "OnMessage (m_ReplyID m) (og_Payload ?p) t2 cl3 = (True, settlePending k ?o cl3)"
    using OnMessage_response [of cl3 "m_ReplyID m" k r2 reply t2] cl3 cl(4) cl2 r
    by (simp add: same_call_def CalleeStreams_def)
  then have "receives (zip (filter (frame_of k) log') [t2]) cl3 = settlePending k ?o cl3"
    by (simp add: log' receives_def response_frame_def)
  moreover have "c_outcomes (settlePending k ?o cl3) = c_outcomes cl @ [?o]"
    using cl3 by (simp add: settlePending_def Let_def core_frames cl2(1))
  moreover have "k |\<notin>| fmdom (c_pending (settlePending k ?o cl3))" by (simp add: settlePending_pending)
  ultimately show ?thesis using d(1) e(1)
    by (intro exI [of _ cl3] exI [of _ log] exI [of _ ?sv] exI [of _ sv''] exI [of _ log']) (simp add: Let_def)
qed

end
