(* ===== verification/Examples.thy ===== *)
theory Examples
  imports UploadCall
begin

text \<open>
  A small service to evaluate the model on: a unary and a server-streaming method, as the demo
  of the repository has them, served by the package's own handlers, and the two cores of a
  session.
\<close>

definition echo :: Method where
  "echo = Unary ''Echo'' 1 2"

definition count :: Method where
  "count = ServerStream ''Count'' 3 4"

definition echo_factory :: "unit world HandlerFactory" where
  "echo_factory m body w = (case RespondNow body w of (h, w) \<Rightarrow> (Returned (Some h, None), w))"

definition count_factory :: "unit world HandlerFactory" where
  "count_factory m body w =
    (case ItemsOf [[1], [2], [3]] w of (h, w) \<Rightarrow> (Returned (Some h, None), w))"

definition sample_builder :: "unit world RegistryBuilder" where
  "sample_builder = Serve count count_factory (Serve echo echo_factory
     (RegistryBuilder_Credit 12 (NewRegistry 10 11)))"

definition sample_registry :: "unit world Registry" where
  "sample_registry =
    \<lparr>rg_voidID = 10, rg_errorID = 11, rg_creditID = 12, rg_hasCredit = True,
     rg_entries = [\<lparr>e_Method = echo, e_Factory = Some echo_factory\<rparr>,
       \<lparr>e_Method = count, e_Factory = Some count_factory\<rparr>],
     rg_byRequest = fmupd 3 \<lparr>e_Method = count, e_Factory = Some count_factory\<rparr>
       (fmupd 1 \<lparr>e_Method = echo, e_Factory = Some echo_factory\<rparr> fmempty),
     rg_idSet = {4, 3, 2, 1, 12, 10, 11}, rg_plainIDs = {}\<rparr>"

lemma Build_sample: "Build sample_builder = Inr sample_registry"
  by (simp add: Build_def sample_builder_def sample_registry_def Serve_def RegistryBuilder_Credit_def
      NewRegistry_def echo_def count_def Unary_def ServerStream_def zero_Method_def MessageIDs_def
      MaxMethods_def system_ids_def Let_def insert_commute)

lemma sample_registry_ok: "registry_ok sample_registry"
  by (rule Build_registry_ok [OF Build_sample])

definition empty_world :: "unit world" where
  "empty_world = \<lparr>w_objects = [], w_app = ()\<rparr>"

definition sample_core :: "Role \<Rightarrow> unit world Core" where
  "sample_core role = OnReady (NewCore sample_registry role DefaultConfig empty_world)"

lemma sample_core_inv: "core_inv (sample_core role)"
  using core_inv_new [of sample_registry role DefaultConfig empty_world]
  by (simp add: sample_core_def OnReady_def core_inv_def Core_Role_def)

lemmas sample_defs = sample_core_def OnReady_def NewCore_def normalized_fields DefaultConfig_def
  sample_registry_def NewOutbox_def NewCallIDAllocator_def empty_world_def

text \<open>The client after one call, with a body of one byte and a deadline of two seconds.\<close>

definition sample_call :: "(CallError + CallID) \<times> unit world Core" where
  "sample_call = Core_Call 1 [7] None (Within (2 * Second)) 1000 (sample_core RoleClient)"

lemma sample_Allocate: "Allocate (has_key fmempty) \<lparr>al_role = RoleClient, al_next = 0\<rparr>
    = (Some 0, \<lparr>al_role = RoleClient, al_next = 2\<rparr>)"
  unfolding Allocate_def by (subst allocate_loop.simps) (simp add: max_attempt_def has_key_def)

lemma sample_call_id: "fst sample_call = Inr 0"
  by (simp add: sample_call_def Core_Call_def sample_defs sample_Allocate MethodFor_def
      call_ctx_def send_request_def queue_request_def Let_def newCallContext_def Push_def
      FullFor_def QueuedFor_def queue_def request_header_def encoded_ctx_def
      Within_def zero_Ctx_def millisOf_def Milliseconds_def Ctx_HasDeadline_def MaxBodyCeiling_def
      Ctx_IsEmpty_def codec_simps u32_field_def bytes_field_def string_field_def)

lemma sample_call_eq: "Core_Call 1 [7] None (Within (2 * Second)) 1000 (sample_core RoleClient)
    = (Inr 0, snd sample_call)"
  using sample_call_id unfolding sample_call_def by (metis prod.collapse)

lemma sample_facts [simp]:
  "c_registry (sample_core role) = sample_registry" "c_world (sample_core role) = empty_world"
  "c_ready (sample_core role)" "bare (sample_core role)" "c_pending (sample_core role) = fmempty"
  "c_inflight (sample_core role) = fmempty" "Core_Role (sample_core role) = role"
  "c_outcomes (sample_core role) = []" "MaxPending (c_config (sample_core role)) = 65536"
  "MaxCtxLen (c_config (sample_core role)) = 65536" "HasRoom k (c_outbox (sample_core role))"
  "MethodFor 1 sample_registry = Some echo" "m_Shape echo = ShapeUnary"
  "EntryFor 1 sample_registry = Some \<lparr>e_Method = echo, e_Factory = Some echo_factory\<rparr>"
  "Role_Allocates RoleClient 0" "\<not> Role_Allocates RoleServer 0" "c_chain (sample_core role) = []"
  "c_compressor (sample_core role) = None" "rg_plainIDs sample_registry = {}"
  "al_role (c_ids (sample_core role)) = role"
  by (simp_all add: sample_defs bare_def Core_Role_def Let_def MethodFor_def EntryFor_def echo_def
      Unary_def zero_Method_def Role_Allocates_def CallID_Even_def HasRoom_def FullFor_def QueuedFor_def
      queue_def)

lemma sample_ctx:
  "ctx_ok (call_ctx None (Within (2 * Second)))"
  "length (Ctx_Encode (call_ctx None (Within (2 * Second)))) = 28"
  by (simp_all add: call_ctx_def Within_def zero_Ctx_def ctx_ok_def Ctx_HasDeadline_def fits_u32_def
      string_ok_def codec_simps u32_field_def bytes_field_def string_field_def bytes_of_string_def)

lemma echo_polls:
  "\<exists>h w1. echo_factory m body w = (Returned (Some h, None), w1)
    \<and> (\<exists>w2. safePoll h now w1 = (Respond body, w2))"
proof -
  obtain h w1 where r: "RespondNow body w = (h, w1)" by fastforce
  from RespondNow_polls [OF this] have "\<exists>w2. safePoll h now w1 = (Respond body, w2)" by blast
  with r show ?thesis by (simp add: echo_factory_def)
qed

lemma sample_call_pending: "fmdom (c_pending (snd sample_call)) = {|0|}"
  using Core_Call_result [OF sample_call_eq sample_core_inv]
  by (auto simp: call_result_def started_def)

lemma sample_call_facts:
  "\<not> c_finished (snd sample_call)" "c_outcomes (snd sample_call) = []"
  "fmdom (c_pending (snd sample_call)) = {|0|}"
  using Core_Call_result [OF sample_call_eq sample_core_inv] sample_call_pending
  by (simp_all add: call_result_def) (simp_all add: sample_defs)

lemma sample_reaches: "reaches (NewCore sample_registry RoleClient DefaultConfig empty_world) [0] []
    (snd sample_call)"
  using reaches.call [OF reaches.ready [OF reaches.start] sample_call_eq [unfolded sample_core_def]]
  by simp

subsection \<open>A call of the stream, and an upload\<close>

lemma sample_stream_room: "room_for n k (c_outbox (sample_core role)) \<longleftrightarrow> n < 64"
  by (auto simp: sample_defs room_for_def queue_def)

lemma sample_count_facts:
  "MethodFor 3 sample_registry = Some count" "m_Shape count = ShapeServerStream"
  "EntryFor 3 sample_registry = Some \<lparr>e_Method = count, e_Factory = Some count_factory\<rparr>"
  "rg_voidID sample_registry = 10" "\<not> IsPlain i sample_registry"
  "InitialCredit (call_ctx None (Within (2 * Second))) = 0" "queue (c_outbox (sample_core role)) k = []"
  "MaxBodyLen (c_config (sample_core role)) = MaxBodyCeiling"
  by (simp_all add: sample_defs MethodFor_def EntryFor_def count_def ServerStream_def zero_Method_def queue_def
      MaxBodyCeiling_def IsPlain_def call_ctx_def Within_def zero_Ctx_def Let_def)

lemma sample_count_call:
  "\<exists>c. Core_Call 3 [] None (Within (2 * Second)) 1000 (sample_core RoleClient) = (Inr 0, c)"
  by (rule Core_Call_accepted [where m = count and ids = "\<lparr>al_role = RoleClient, al_next = 2\<rparr>"])
    (simp_all add: sample_ctx [simplified] sample_count_facts MaxBodyCeiling_def,
      simp add: sample_defs sample_Allocate)

lemma count_factory_yields:
  "\<exists>h w1 w2. count_factory m body w = (Returned (Some h, None), w1) \<and> yields h now w1 [[1], [2], [3]] w2"
proof -
  obtain h w1 where r: "ItemsOf [[1], [2], [3]] w = (h, w1)" by fastforce
  from ItemsOf_yields [OF this] r show ?thesis by (auto simp: count_factory_def)
qed

text \<open>A service whose world is the flag that a stream has ended.\<close>

definition upload :: Method where
  "upload = ClientStream ''Upload'' 5 6 7"

definition flag :: "bool \<Rightarrow> bool world" where
  "flag closed = \<lparr>w_objects = [], w_app = closed\<rparr>"

definition upload_handler :: "bool world Handler" where
  "upload_handler = (PollFunc (\<lambda>_ w. (Returned (if w_app w then Respond [9] else Pending), w)))
     \<lparr>h_Item := Some (\<lambda>_ w. (Returned None, w)), h_EndOfStream := Some (\<lambda>w. (Returned None, w\<lparr>w_app := True\<rparr>))\<rparr>"

definition upload_registry :: "bool world Registry" where
  "upload_registry = \<lparr>rg_voidID = 10, rg_errorID = 11, rg_creditID = 0, rg_hasCredit = False,
     rg_entries = [\<lparr>e_Method = upload, e_Factory = Some (\<lambda>_ _ w. (Returned (Some upload_handler, None), w))\<rparr>],
     rg_byRequest = fmupd 5
       \<lparr>e_Method = upload, e_Factory = Some (\<lambda>_ _ w. (Returned (Some upload_handler, None), w))\<rparr> fmempty,
     rg_idSet = {5, 6, 7, 10, 11}, rg_plainIDs = {}\<rparr>"

lemma upload_registry_ok: "registry_ok upload_registry"
proof -
  have "Build (Serve upload (\<lambda>_ _ w. (Returned (Some upload_handler, None), w)) (NewRegistry 10 11)) = Inr upload_registry"
    by (simp add: Build_def upload_registry_def Serve_def NewRegistry_def upload_def ClientStream_def
        zero_Method_def MessageIDs_def MaxMethods_def system_ids_def Let_def insert_commute)
  from Build_registry_ok [OF this] show ?thesis .
qed

definition upload_core :: "Role \<Rightarrow> bool world Core" where
  "upload_core role = OnReady (NewCore upload_registry role DefaultConfig (flag False))"

lemma upload_core_inv: "core_inv (upload_core role)"
  using core_inv_new [of upload_registry role DefaultConfig "flag False"]
  by (simp add: upload_core_def OnReady_def core_inv_def Core_Role_def)

lemma upload_core_facts [simp]:
  "c_registry (upload_core role) = upload_registry" "c_world (upload_core role) = flag False"
  "bare (upload_core role)" "c_pending (upload_core role) = fmempty" "c_inflight (upload_core role) = fmempty"
  "Core_Role (upload_core role) = role" "c_outcomes (upload_core role) = []"
  "MaxPending (c_config (upload_core role)) = 65536" "MaxCtxLen (c_config (upload_core role)) = 65536"
  "MaxBodyLen (c_config (upload_core role)) = MaxBodyCeiling" "HasRoom k (c_outbox (upload_core role))"
  "room_for n k (c_outbox (upload_core role)) \<longleftrightarrow> n < 64" "queue (c_outbox (upload_core role)) k = []"
  "c_ids (upload_core role) = \<lparr>al_role = role, al_next = (if role = RoleClient then 0 else 1)\<rparr>"
  "MethodFor 5 upload_registry = Some upload" "m_Shape upload = ShapeClientStream"
  "EntryFor 5 upload_registry = Some \<lparr>e_Method = upload,
     e_Factory = Some (\<lambda>_ _ w. (Returned (Some upload_handler, None), w))\<rparr>"
  "rg_plainIDs upload_registry = {}"
  by (simp_all add: upload_core_def OnReady_def NewCore_def Let_def bare_def Core_Role_def NewOutbox_def
      normalized_fields DefaultConfig_def queue_def HasRoom_def FullFor_def QueuedFor_def room_for_def
      NewCallIDAllocator_def upload_registry_def MethodFor_def EntryFor_def upload_def ClientStream_def
      zero_Method_def MaxBodyCeiling_def) (cases role; auto)+

lemma upload_started:
  "\<exists>c d. Core_Call 5 [] None (Within (2 * Second)) 1000 (upload_core RoleClient) = (Inr 0, c)
    \<and> sends 0 [[1], [2]] c = Some d"
proof -
  have "\<exists>c. Core_Call 5 [] None (Within (2 * Second)) 1000 (upload_core RoleClient) = (Inr 0, c)"
    by (rule Core_Call_accepted [where m = upload and ids = "\<lparr>al_role = RoleClient, al_next = 2\<rparr>"])
      (simp_all add: sample_ctx [simplified] MaxBodyCeiling_def sample_Allocate)
  then obtain c where c: "Core_Call 5 [] None (Within (2 * Second)) 1000 (upload_core RoleClient) = (Inr 0, c)" ..
  from Core_Call_bare [OF c] obtain f w where w: "c_outbox c = Outbox_append 0 f (c_outbox (upload_core RoleClient))"
    "c_pending c = fmupd 0 w fmempty" "w_shape w = ShapeClientStream" "\<not> w_sendClosed w" "\<not> w_established w"
    by auto
  have "c_config c = c_config (upload_core RoleClient)"
    using Core_Call_result [OF c upload_core_inv] by (simp add: call_result_def)
  moreover have "room_for 2 0 (c_outbox c)" unfolding w(1) by (rule room_for_append) simp
  ultimately have "\<exists>d. sends 0 [[1], [2]] c = Some d"
    using sends_accepted [of c 0 w "[[1], [2]]"] w
    by (simp add: CallerStreams_def MaxBodyCeiling_def numeral_2_eq_2 del: sends.simps)
  with c show ?thesis by blast
qed

lemma upload_handler_consumes:
  "h_Grant upload_handler = None" "safePoll upload_handler now (flag False) = (Pending, flag False)"
  "consumes upload_handler (flag False) [([1], 5), ([2], 6)] 7 [9] (flag True)"
proof -
  have p: "safePoll upload_handler t (flag False) = (Pending, flag False)" "safePoll upload_handler t (flag True) = (Respond [9], flag True)" for t
    by (simp_all add: safePoll_def upload_handler_def PollFunc_def flag_def)
  have i: "deliverItem upload_handler b c = (None, c)" "closeStream upload_handler (flag False) = (None, flag True)" for b and c :: "bool world"
    by (simp_all add: deliverItem_def closeStream_def upload_handler_def PollFunc_def flag_def)
  show "h_Grant upload_handler = None" by (simp add: upload_handler_def PollFunc_def)
  show "safePoll upload_handler now (flag False) = (Pending, flag False)" by (rule p)
  show "consumes upload_handler (flag False) [([1], 5), ([2], 6)] 7 [9] (flag True)"
    by (rule consumes.takes [OF i(1) p(1)])+ (rule consumes.closes [OF i(2) p(2)])
qed

subsection \<open>A compressor\<close>

text \<open>A library that makes one byte of two thousand zeros, and marks every other body.\<close>

definition zeros_lib :: "bytes Deflater" where
  "zeros_lib = \<lparr>fl_NewWriter = Some [], fl_Write = \<lambda>b z. (True, z @ b), fl_Close = \<lambda>z. (True, z),
     fl_Out = \<lambda>z. if z = replicate 2000 0 then [1] else 0 # z\<rparr>"

definition zeros_reader :: "bytes \<Rightarrow> bytes list" where
  "zeros_reader b = (case b of [] \<Rightarrow> [] | x # rest \<Rightarrow> if x = 1 then [replicate 2000 0] else [rest])"

definition zeros_compressor :: Compressor where
  "zeros_compressor = \<lparr>co_Compress = Deflate_Compress zeros_lib, co_Decompress = \<lambda>b limit.
     if int (length (concat (zeros_reader b))) \<le> limit then Inr (concat (zeros_reader b)) else Inl ErrExceedsLimit\<rparr>"

lemma zeros_compress: "Deflate_Compress zeros_lib b = Some (if b = replicate 2000 0 then [1] else 0 # b)"
  by (simp add: Deflate_Compress_def zeros_lib_def)

lemma zeros_lossless: "lossless zeros_lib zeros_reader list_reader"
proof -
  have "concat (zeros_reader (if b = replicate 2000 0 then [1] else 0 # b)) = b" for b
    by (simp add: zeros_reader_def)
  then show ?thesis
    using list_reader_reads by (metis lossless_def option.inject zeros_compress)
qed

lemma zeros_deflates: "deflates zeros_lib zeros_reader list_reader zeros_compressor"
  using inflate_loop_reads [OF list_reader_reads, where out = "[]"]
  by (auto simp: deflates_def zeros_compressor_def Deflate_Decompress_def)

subsection \<open>A running stream and a pending upload\<close>

definition sample_context :: CallContext where
  "sample_context = newCallContext 6 count 0 zero_Ctx None SenderCallee"

definition sample_running :: "u32 \<Rightarrow> unit world running" where
  "sample_running credit = \<lparr>r_handler = PollFunc (\<lambda>_ w. (Returned Pending, w)), r_itemID = 3, r_replyID = 4,
     r_shape = ShapeServerStream, r_limit = 0, r_idleLimit = 0, r_lastHeard = 0, r_inboundClosed = True,
     r_credit = credit, r_established = True, r_fullSince = 0, r_context = sample_context,
     r_entered = 0\<rparr>"

definition sample_stream :: "unit world Core" where
  "sample_stream = put_inflight 6 (sample_running 2) (sample_core RoleServer)"

lemma sample_stream_inv: "core_inv sample_stream"
  using safe_new_inflight [of "sample_core RoleServer" 6 "sample_running 2"] sample_core_inv [of RoleServer]
  by (simp add: safe_step_def sample_stream_def Role_Allocates_def CallID_Even_def)

lemma sample_stream_pollOne: "pollOne 6 5 sample_stream = sample_stream"
proof -
  have g: "collectGrant 6 sample_stream = sample_stream"
    by (simp add: collectGrant_def sample_stream_def put_inflight_def sample_running_def CallerStreams_def
        split: option.splits)
  have e: "(sample_running 2)\<lparr>r_fullSince := 0\<rparr> = sample_running 2" by (simp add: sample_running_def)
  have "poll_step 6 5 sample_stream = (False, sample_stream)"
    by (simp add: poll_step_def Let_def sample_stream_def put_inflight_def e)
      (simp add: sample_running_def starved_def safePoll_def PollFunc_def Pending_def)
  then show ?thesis unfolding pollOne_def g by (subst poll_loop.simps) simp
qed

text \<open>The same stream without credit.\<close>

definition sample_starved :: "unit world Core" where
  "sample_starved = put_inflight 6 (sample_running 0) (sample_core RoleServer)"

lemma sample_starved_inv: "core_inv sample_starved"
  using safe_new_inflight [of "sample_core RoleServer" 6 "sample_running 0"] sample_core_inv [of RoleServer]
  by (simp add: safe_step_def sample_starved_def Role_Allocates_def CallID_Even_def)

lemma sample_starved_lookup:
  "fmlookup (c_inflight sample_starved) k = (if k = 6 then Some (sample_running 0) else None)"
  "fmlookup (c_pending sample_starved) k = None" "c_outcomes sample_starved = []"
  by (simp_all add: sample_starved_def put_inflight_def)

lemma sample_stream_facts:
  "fmlookup (c_inflight sample_stream) 6 = Some (sample_running 2)"
  "fmdom (c_inflight sample_stream) = {|6|}" "r_established (sample_running 2)"
  "unat (r_credit (sample_running 2)) = 2" "queue (c_outbox sample_stream) 6 = []"
  "MaxCtxLen (c_config sample_stream) = 65536" "pollOne 6 5 sample_stream = sample_stream"
  "HasRoom k (c_outbox sample_stream)" "c_inflight sample_stream = fmupd 6 (sample_running 2) fmempty"
  by (simp_all add: sample_stream_pollOne)
    (simp_all add: sample_stream_def put_inflight_def sample_running_def, simp add: sample_defs queue_def)

text \<open>A stream of three items with a credit of two: polling it sends two and stops.\<close>

definition sample_items :: "unit world Core" where
  "sample_items = (put_inflight 6 ((sample_running 2)\<lparr>r_handler := PollFunc (poll_at 0)\<rparr>)
      (sample_core RoleServer))
     \<lparr>c_world := \<lparr>w_objects = [ItemsHandler [[1], [2], [3]] 0 False], w_app = ()\<rparr>\<rparr>"

lemma sample_items_credit:
  "map_option r_credit (fmlookup (c_inflight (pollOne 6 5 sample_items)) 6) = Some 0"
  by code_simp

lemma sample_items_facts:
  "fmlookup (c_inflight sample_items) 6 = Some ((sample_running 2)\<lparr>r_handler := PollFunc (poll_at 0)\<rparr>)"
  "queue (c_outbox sample_items) 6 = []"
  by (simp_all add: sample_items_def put_inflight_def) (simp add: sample_defs queue_def)

definition sample_panic :: "panic_value \<Rightarrow> unit world Core" where
  "sample_panic p = put_inflight 6
     ((sample_running 2)\<lparr>r_handler := PollFunc (\<lambda>_ w. (Panicked p, w))\<rparr>) sample_stream"

definition sample_waiting :: waiting where
  "sample_waiting = \<lparr>w_context = sample_context, w_entered = 0, w_requestID = 5, w_itemID = 6, w_replyID = 7,
     w_shape = ShapeClientStream, w_deadline = 0, w_sendClosed = False, w_credit = 1,
     w_established = True\<rparr>"

definition sample_upload :: "unit world Core" where
  "sample_upload = put_pending 0 sample_waiting (sample_core RoleClient)"

lemma sample_upload_facts:
  "fmlookup (c_pending sample_upload) 0 = Some sample_waiting" "w_established sample_waiting"
  "queue (c_outbox sample_upload) 0 = []" "fst (SendItem 0 [5] sample_upload) = None"
  by (simp_all add: sample_upload_def put_pending_def sample_waiting_def)
    (simp_all add: SendItem_def CallerStreams_def sample_defs queue_def MaxBodyCeiling_def Push_def
      FullFor_def QueuedFor_def Let_def)

subsection \<open>A plain id that is also a system id\<close>

text \<open>\<open>Build\<close> compares plain ids with the ids of methods only.  A registry whose void id is declared
  plain is accepted, and then END and CANCEL frames never reach the core.\<close>

lemma plain_void_accepted:
  "\<exists>r. Build (PlainMessage 10 sample_builder) = Inr r \<and> IsPlain (rg_voidID r) r
    \<and> (\<forall>payload now c. c_registry c = r \<longrightarrow> OnMessage (rg_voidID r) payload now c = (False, c))"
  by (simp add: Build_def sample_builder_def PlainMessage_def Serve_def RegistryBuilder_Credit_def
      NewRegistry_def echo_def count_def Unary_def ServerStream_def zero_Method_def MessageIDs_def
      MaxMethods_def system_ids_def Let_def OnMessage_def IsPlain_def)

end
