(* ===== verification/Details.thy ===== *)
theory Details
  imports Examples CoreLinks Keys Retry Compression Mailbox
begin

text \<open>
  Further facts of single components, each with an instance: what the outbox, the statuses, the
  registry, the chains, the contexts of methods and the retries promise on their own.
\<close>

text \<open>A caller with an established allowance sends an item only for credit: \<open>SendItem\<close>
  succeeds only with some left, takes exactly one, and queues exactly one frame.\<close>

lemma send_item_pays:
  assumes "SendItem k body c = (None, c')" and "fmlookup (c_pending c) k = Some r" and "w_established r"
  shows "0 < w_credit r
    \<and> (\<exists>r'. fmlookup (c_pending c') k = Some r' \<and> Suc (unat (w_credit r')) = unat (w_credit r))
    \<and> length (queue (c_outbox c') k) = Suc (length (queue (c_outbox c) k))"
  using SendItem_credit [OF assms] by simp

lemma send_item_pays_witness:
  "length (queue (c_outbox (snd (SendItem 0 [5] sample_upload))) 0) = 1"
  using send_item_pays [of 0 "[5]" sample_upload "snd (SendItem 0 [5] sample_upload)" sample_waiting]
  by (simp add: sample_upload_facts prod_eq_iff)

text \<open>A repeated REQUEST is ignored: for a call that is running it changes nothing, so no
  handler is made or polled a second time.\<close>

lemma duplicate_request_ignored:
  assumes "Decode payload (MaxCtxLen (c_config c)) = Inr q" and "hdr_Kind (p_Header q) = KindRequest"
    and "hdr_Call (p_Header q) |\<in>| fmdom (c_inflight c)" and "core_inv c"
  shows "snd (OnMessage messageID payload now c) = c"
  using assms by (rule OnMessage_duplicate)

lemma duplicate_request_ignored_witness:
  "snd (OnMessage 3 [0, 6, 0, 0, 0] 5 sample_stream) = sample_stream"
  using duplicate_request_ignored [of "[0, 6, 0, 0, 0]" sample_stream
      "\<lparr>p_Header = plain_header KindRequest 6, p_Ctx = [], p_Body = []\<rparr>" 3 5]
  by (simp add: sample_stream_facts sample_stream_inv Decode_def KindBits_def ReadCallID_def Uint32_def
      plain_header_def Let_def)

text \<open>\<open>normalized\<close> gives a configuration in which every ceiling and limit is positive and
  the body ceiling is within the protocol's, and it changes nothing in such a configuration.\<close>

lemma normalized_in_range:
  "0 < MaxPending (normalized g) \<and> 0 < MaxCallQueue (normalized g) \<and> 0 < MaxConnectionQueue (normalized g)
    \<and> 0 < SchedulerQuantum (normalized g) \<and> 0 < MaxCtxLen (normalized g)
    \<and> 0 < MaxBodyLen (normalized g) \<and> MaxBodyLen (normalized g) \<le> MaxBodyCeiling
    \<and> 0 < HandlerLimit (normalized g) \<and> 0 < QueueFullLimit (normalized g)
    \<and> 0 < CompressAbove (normalized g) \<and> normalized (normalized g) = normalized g"
  using config_ok_normalized [of g] normalized_config_ok [OF config_ok_normalized [of g]]
  by (simp add: config_ok_def)

text \<open>With a quantum of zero or less and a frame queued the scheduler never returns,
  which is why the configuration replaces such a quantum.\<close>

lemma nonpositive_quantum_diverges:
  assumes "ob_quantum b \<le> 0" and "outbox_inv b" and "0 < queued b"
  shows "drainFrames sink b s = None"
  using assms by (rule drainFrames_diverges)

lemma nonpositive_quantum_diverges_witness:
  "drainFrames (\<lambda>f n. (Accepted, n)) (PushTerminal 2 \<lparr>og_MessageID = 1, og_Payload = [0]\<rparr>
      (NewOutbox 4 16 0)) (0 :: nat) = None"
  by (rule nonpositive_quantum_diverges [OF _ outbox_inv_PushTerminal [OF outbox_inv_new]])
    (simp_all add: PushTerminal_def queue_simps queued_append, simp add: NewOutbox_def)

text \<open>Every operation of the outbox keeps it well-formed: the total is the number of
  queued frames, the turns are the calls with frames, each once, and no empty queue is kept.\<close>

lemma outbox_operations_keep_invariant:
  assumes "outbox_inv b"
  shows "outbox_inv (snd (Push k f b)) \<and> outbox_inv (PushTerminal k f b) \<and> outbox_inv (Discard k b)
    \<and> outbox_inv (Clear b) \<and> outbox_inv (Outbox_Grant k m n b)"
  using assms by (simp add: outbox_inv_Push outbox_inv_PushTerminal outbox_inv_Discard outbox_inv_Clear
      outbox_inv_Grant)

lemma outbox_operations_keep_invariant_witness:
  "outbox_inv (Discard 3 (NewOutbox 1 2 3))"
  using outbox_operations_keep_invariant [OF outbox_inv_new [of 1 2 3], of 3] by blast

text \<open>\<open>Push\<close> accepts a frame exactly if both ceilings leave room for it, appends it to the
  queue of its call, and otherwise changes nothing.\<close>

lemma push_respects_ceilings:
  "Push k f b = (if ob_total b < ob_maxTotal b \<and> int (length (queue b k)) < ob_maxPerCall b
      then (True, Outbox_append k f b) else (False, b))
    \<and> queue (Outbox_append k f b) = (queue b)(k := queue b k @ [f])"
  by (auto simp: Push_def FullFor_def QueuedFor_def queue_simps)

text \<open>Credit saturates: granting adds to what is waiting for the call, up to the largest
  32-bit number, and never wraps around.\<close>

lemma grant_saturates:
  "unat (the (Outbox_WaitingCredit k (Outbox_Grant k m n b)))
    = min (unat (case Outbox_WaitingCredit k b of None \<Rightarrow> 0 | Some w \<Rightarrow> w) + unat n) (2 ^ 32 - 1)"
  by (simp add: Outbox_WaitingCredit_def Outbox_Grant_def Let_def unat_saturatingAdd split: option.splits)

text \<open>A status survives an ERROR frame: decoding its encoding gives the same code and
  message.\<close>

lemma status_roundtrip:
  assumes "length (st_Message s) < 2 ^ 32" and "valid_string (st_Message s)"
  shows "DecodeStatus (Status_Encode s) = s"
  by (rule DecodeStatus_Encode) (use assms in \<open>simp add: string_ok_def fits_u32_def\<close>)

lemma status_roundtrip_witness:
  "DecodeStatus (Status_Encode (NewStatus 42 [])) = NewStatus 42 []"
  by (rule status_roundtrip) (simp_all add: NewStatus_def)

text \<open>In a registry that \<open>Build\<close> returns, the method found under a request id has that
  id, and the frames of its ids reach the core: each is owned and none is a plain message.\<close>

lemma registry_finds_methods:
  assumes "Build b = Inr r" and "MethodFor k r = Some m"
  shows "m_RequestID m = k \<and> (\<forall>i \<in> set (MessageIDs m). Owns i r \<and> \<not> IsPlain i r)
    \<and> Owns (m_ReplyID m) r \<and> \<not> IsPlain (m_ReplyID m) r"
  using methods.found_id methods.found_owned methods.found_not_plain methods.reply_reaches_core
    Build_registry_ok [OF assms(1)] assms(2) by blast

lemma registry_finds_methods_witness:
  "Owns 2 sample_registry \<and> \<not> IsPlain 2 sample_registry"
  using registry_finds_methods [OF Build_sample, of 1 echo]
  by (simp add: echo_def Unary_def zero_Method_def MessageIDs_def)

text \<open>A chain enters its links in order until one rejects, and leaves exactly the links
  that were entered, in the reverse order.\<close>

lemma chain_leaves_what_it_entered:
  assumes "Chain_Inbound links context w = (entered, r, context', w')"
  shows "entered \<le> length links \<and> (r = None \<longleftrightarrow> entered = length links)
    \<and> Chain_Outbound links entered ctx status v
      = snd (fold (\<lambda>link (c, v). ic_Outbound link c status v) (rev (take entered links)) (ctx, v))"
  using Chain_Inbound_entered [OF assms] Chain_Outbound_fold [of links entered ctx status v] by simp

lemma chain_leaves_what_it_entered_witness:
  "Chain_Outbound [tracing 0 None, tracing 1 None, tracing 2 (Some Cancelled)] 2 sample_context None ([], [])
    = ([], [1, 0])"
  using chain_leaves_what_it_entered [of "[tracing 0 None, tracing 1 None, tracing 2 (Some Cancelled)]"
      sample_context "([], [])" 2 "Some Cancelled" sample_context "([0, 1, 2], [])" sample_context None "([], [])"]
  by (simp add: Chain_Inbound_def tracing_def)

text \<open>The ctx that a method's call starts from carries a key exactly if the method is
  keyed, the key is the 32 bytes of the body's hash, and the block is read back unchanged.\<close>

lemma method_ctx_roundtrip:
  "DecodeCtx (Ctx_Encode (CtxForMethod m body)) = (CtxForMethod m body, None)
    \<and> (Ctx_IsEmpty (CtxForMethod m body) \<longleftrightarrow> m_RetrySafety m \<noteq> RetryKeyed)
    \<and> length (KeyOf body) = 32"
  using DecodeCtx_CtxForMethod Ctx_IsEmpty_CtxForMethod by simp

text \<open>Over any sequence of failures a fresh retry state grants fewer retries than the
  policy allows attempts.\<close>

lemma retries_bounded:
  "1 + int (retries policy m failures (NewRetryState now budget)) \<le> max 1 (rp_MaxAttempts policy)"
  using retries_bound [of "NewRetryState now budget" policy m failures]
  by (simp add: NewRetryState_def Let_def split: if_splits)

text \<open>Up to an initial backoff of about 39 hours the backoff doubles exactly with every
  attempt, sixteen times at most, and is cut at the policy's maximum.\<close>

lemma backoff_exact:
  assumes "0 \<le> rp_InitialBackoff p" and "rp_InitialBackoff p \<le> 140737488355327"
  shows "BackoffFor p n
    = min (rp_InitialBackoff p * 2 ^ nat (min (max (n - 1) 0) 16)) (rp_MaxBackoff p)"
  by (rule BackoffFor_exact) (use assms in \<open>simp_all add: max_i64_def\<close>)

lemma backoff_exact_witness:
  "BackoffFor DefaultRetryPolicy 3 = 200000000"
  using backoff_exact [of DefaultRetryPolicy 3] by (simp add: DefaultRetryPolicy_def)

text \<open>Call ids never run out: \<open>Call\<close> reports that no id is free only under a ceiling of
  more than 2^31 pending calls.\<close>

lemma ids_never_exhausted:
  assumes "core_inv c" and "MaxPending (c_config c) \<le> 2 ^ 31"
  shows "fst (Core_Call requestID body ctx options now c) \<noteq> Inl ErrCallIDExhausted"
  using Core_Call_exhausted [OF _ assms(1)] assms(2) by (metis not_less prod.collapse)

lemma ids_never_exhausted_witness:
  "fst (Core_Call 1 [] None WithoutDeadline 0 (sample_core RoleServer)) \<noteq> Inl ErrCallIDExhausted"
  by (rule ids_never_exhausted [OF sample_core_inv]) simp

text \<open>A sink that accepts everything empties the outbox in one drain: no frame and no
  credit is left.\<close>

lemma accepting_sink_empties:
  assumes "outbox_inv b" and "0 < ob_quantum b" and "\<forall>f t. fst (sink f t) = Accepted"
  shows "\<exists>b' s'. Outbox_Drain sink b s = Some (b', s') \<and> Outbox_Empty b'"
  using assms by (rule Drain_accepting)

lemma accepting_sink_empties_witness:
  "\<exists>b' s'. Outbox_Drain (\<lambda>f n. (Accepted, n + 1)) (snd (Push 2 \<lparr>og_MessageID = 1, og_Payload = [0]\<rparr>
      (NewOutbox 4 16 1024))) (0 :: nat) = Some (b', s') \<and> Outbox_Empty b'"
  by (rule accepting_sink_empties [OF outbox_inv_Push [OF outbox_inv_new]])
    (simp_all add: Push_def queue_simps HasRoom_def FullFor_def QueuedFor_def NewOutbox_def)

text \<open>Delegation narrows: the permissions of a session acting for a verified identity
  are exactly those that both hold, in the order in which a look-up can search them.\<close>

lemma delegation_narrows:
  assumes "identity_ok session" and "identity_ok presented"
  shows "set (NarrowedBy session presented) = set (id_Permissions session) \<inter> set (id_Permissions presented)
    \<and> sorted (NarrowedBy session presented)"
  using NarrowedBy_set [OF assms(2)] NarrowedBy_sorted [OF assms(1)] by simp

lemma delegation_narrows_witness:
  "set (NarrowedBy (NewIdentity ''ann'' [''a'', ''b'']) (NewIdentity ''bob'' [''b'', ''c''])) = {''b''}"
  using delegation_narrows [OF identity_ok_new identity_ok_new, of "''ann''" "[''a'', ''b'']" "''bob''"
      "[''b'', ''c'']"] by (simp add: insert_commute)

text \<open>A core with a counting interceptor: the world is the number of calls that have entered it and not
  left it.\<close>

definition counting_link :: "int Interceptor" where
  "counting_link = \<lparr>ic_Outgoing = \<lambda>x n. (None, x, n + 1), ic_Inbound = \<lambda>x n. (None, x, n + 1),
     ic_Outbound = \<lambda>x _ n. (x, n - 1)\<rparr>"

definition counting_registry :: "int Registry" where
  "counting_registry =
    \<lparr>rg_voidID = 10, rg_errorID = 11, rg_creditID = 0, rg_hasCredit = False,
     rg_entries = [\<lparr>e_Method = echo, e_Factory = None\<rparr>],
     rg_byRequest = fmupd 1 \<lparr>e_Method = echo, e_Factory = None\<rparr> fmempty,
     rg_idSet = {2, 1, 10, 11}, rg_plainIDs = {}\<rparr>"

definition counting_core :: "int Core" where
  "counting_core = OnReady (AddInterceptor counting_link (NewCore counting_registry RoleClient DefaultConfig 0))"

definition counting_call :: "(CallError + CallID) \<times> int Core" where
  "counting_call = Core_Call 1 [7] None WithoutDeadline 1000 counting_core"

lemma counting_moves: "moves_by (\<lambda>n. n) 1 counting_link"
  by (simp add: moves_by_def counting_link_def)

lemma counting_unmoved: "unmoved_registry gauge counting_registry"
  by (simp add: unmoved_registry_def counting_registry_def EntryFor_def)

lemma counting_call_eval:
  "fst counting_call = Inr 0 \<and> c_world (snd counting_call) = 1 \<and> \<not> c_finished (snd counting_call)"
  by (simp add: counting_call_def counting_core_def Core_Call_def OnReady_def NewCore_def normalized_fields
      DefaultConfig_def counting_registry_def NewOutbox_def NewCallIDAllocator_def AddInterceptor_def Chain_Add_def
      Chain_Outgoing_def counting_link_def sample_Allocate MethodFor_def call_ctx_def send_request_def
      queue_request_def Let_def newCallContext_def Push_def FullFor_def QueuedFor_def queue_def request_header_def
      encoded_ctx_def WithoutDeadline_def zero_Ctx_def Ctx_HasDeadline_def MaxBodyCeiling_def Ctx_IsEmpty_def
      maybeCompress_def put_pending_def)

lemma counting_run:
  "gauged_run 0 (\<lambda>n. n) (NewCore counting_registry RoleClient DefaultConfig 0) (snd counting_call)"
proof -
  have "gauged_run 0 (\<lambda>n. n) (NewCore counting_registry RoleClient DefaultConfig 0) counting_core"
    unfolding counting_core_def
    by (intro gauged_run.ready gauged_run.interceptor gauged_run.start)
      (simp add: NewCore_def Let_def Chain_Len_def counting_moves)
  then show ?thesis unfolding counting_call_def by (rule gauged_run.call [OF _ surjective_pairing])
qed

end
