(* ===== verification/Transport.thy ===== *)
theory Transport
  imports Prelude "HOL-Library.Sublist"
begin

text \<open>
  The socket transport (\<open>rpcnet/transport.go\<close>, \<open>rpcnet/wait_unix.go\<close>): frames written to a
  non-blocking TCP socket, with a backlog of the bytes the socket did not take.  The system
  calls are a parameter, the record \<open>'n Sys\<close> of functions on the state \<open>'n\<close> of the network;
  \<open>honest_socket\<close> says what \<open>write(2)\<close> documents of them, that it reports how many of the given
  bytes it took.  Each call may also fail in \<open>syscall.RawConn\<close> itself (\<open>control\<close>).
\<close>

subsection \<open>System calls\<close>

datatype Errno = EAGAIN | EWOULDBLOCK | EINTR | OtherErrno string

datatype TransportStatus = StatusOK | StatusPending | StatusClosed | StatusErr

text \<open>A call through \<open>RawConn\<close>: \<open>Inl\<close> the control error, or the count and the error of the call.\<close>

record 'n Sys =
  sys_read :: "nat \<Rightarrow> 'n \<Rightarrow> (Errno + int \<times> bytes \<times> Errno option) \<times> 'n"
  sys_write :: "bytes \<Rightarrow> 'n \<Rightarrow> (Errno + int \<times> Errno option) \<times> 'n"
  sys_closeWrite :: "'n \<Rightarrow> 'n"
  sys_close :: "'n \<Rightarrow> 'n"
  sys_poll :: "bool \<Rightarrow> int \<Rightarrow> 'n \<Rightarrow> (Errno + int \<times> Errno option) \<times> 'n"

record SocketTransport =
  t_backlog :: bytes
  t_refused :: bool
  t_closed :: bool
  t_err :: "Errno option"

definition NewSocketTransport :: SocketTransport where
  "NewSocketTransport = \<lparr>t_backlog = [], t_refused = False, t_closed = False, t_err = None\<rparr>"

definition wouldBlock :: "Errno \<Rightarrow> bool" where
  "wouldBlock err \<longleftrightarrow> err = EAGAIN \<or> err = EWOULDBLOCK \<or> err = EINTR"

definition transport_write :: "'n Sys \<Rightarrow> bytes \<Rightarrow> 'n \<Rightarrow> (int \<times> Errno option) \<times> 'n" where
  "transport_write sys frame n =
    (case sys_write sys frame n of
       (Inl control, n) \<Rightarrow> ((0, Some control), n)
     | (Inr (written, err), n) \<Rightarrow> ((max written 0, err), n))"

text \<open>The bytes are the part of \<open>buf\<close> that the call filled.\<close>

definition transport_read :: "'n Sys \<Rightarrow> nat \<Rightarrow> 'n \<Rightarrow> (int \<times> bytes \<times> Errno option) \<times> 'n" where
  "transport_read sys buf n =
    (case sys_read sys buf n of
       (Inl control, n) \<Rightarrow> ((0, [], Some control), n)
     | (Inr (read, bytes, err), n) \<Rightarrow> ((max read 0, bytes, err), n))"

subsection \<open>Operations\<close>

definition Backlogged :: "SocketTransport \<Rightarrow> bool" where
  "Backlogged t \<longleftrightarrow> length (t_backlog t) > 0 \<or> t_refused t"

definition transport_fail :: "Errno \<Rightarrow> SocketTransport \<Rightarrow> TransportStatus \<times> SocketTransport" where
  "transport_fail err t = (StatusErr, t\<lparr>t_closed := True, t_err := Some err\<rparr>)"

text \<open>A round of the loop writes a part of the backlog, fails, or ends the loop.\<close>

function pushBacklog :: "'n Sys \<Rightarrow> SocketTransport \<Rightarrow> 'n \<Rightarrow> TransportStatus \<times> SocketTransport \<times> 'n" where
  "pushBacklog sys t n =
    (if length (t_backlog t) > 0 then
       (case transport_write sys (t_backlog t) n of ((written, err), n) \<Rightarrow>
          let t = (if written > 0 then t\<lparr>t_backlog := drop (nat written) (t_backlog t)\<rparr> else t) in
          (case err of
             Some e \<Rightarrow>
               if wouldBlock e then (StatusOK, t, n)
               else (case transport_fail e t of (status, t) \<Rightarrow> (status, t, n))
           | None \<Rightarrow> if written = 0 then (StatusOK, t, n) else pushBacklog sys t n))
     else (StatusOK, t, n))"
  by pat_completeness auto
termination
  by (relation "measure (\<lambda>(sys, t, n). length (t_backlog t))")
    (auto simp: transport_write_def split: prod.splits sum.splits)

declare pushBacklog.simps [simp del]

definition send_frame ::
  "'n Sys \<Rightarrow> bytes \<Rightarrow> SocketTransport \<Rightarrow> 'n \<Rightarrow> TransportStatus \<times> SocketTransport \<times> 'n" where
  "send_frame sys frame t n =
    (case transport_write sys frame n of ((written, err), n) \<Rightarrow>
       if written = int (length frame) then (StatusOK, t\<lparr>t_refused := False\<rparr>, n)
       else if err \<noteq> None \<and> \<not> wouldBlock (the err) then
         (case transport_fail (the err) t of (status, t) \<Rightarrow> (status, t, n))
       else if written \<le> 0 then (StatusPending, t\<lparr>t_refused := True\<rparr>, n)
       else (StatusOK, t\<lparr>t_refused := False, t_backlog := t_backlog t @ drop (nat written) frame\<rparr>, n))"

definition Transport_Send ::
  "'n Sys \<Rightarrow> bytes \<Rightarrow> SocketTransport \<Rightarrow> 'n \<Rightarrow> TransportStatus \<times> SocketTransport \<times> 'n" where
  "Transport_Send sys frame t n =
    (if t_closed t then (StatusClosed, t, n)
     else if length (t_backlog t) > 0 then
       (case pushBacklog sys t n of (status, t, n) \<Rightarrow>
          if status \<noteq> StatusOK then (status, t, n)
          else if length (t_backlog t) > 0 then (StatusPending, t\<lparr>t_refused := True\<rparr>, n)
          else send_frame sys frame t n)
     else send_frame sys frame t n)"

definition receive_bytes ::
  "'n Sys \<Rightarrow> nat \<Rightarrow> SocketTransport \<Rightarrow> 'n \<Rightarrow> (int \<times> bytes \<times> TransportStatus) \<times> SocketTransport \<times> 'n" where
  "receive_bytes sys buf t n =
    (case transport_read sys buf n of ((read, bytes, err), n) \<Rightarrow>
       (case err of
          Some e \<Rightarrow>
            if wouldBlock e then ((0, [], StatusPending), t, n)
            else (case transport_fail e t of (status, t) \<Rightarrow> ((0, [], status), t, n))
        | None \<Rightarrow>
            if read = 0 then ((0, [], StatusClosed), t\<lparr>t_closed := True\<rparr>, n)
            else ((read, bytes, StatusOK), t, n)))"

definition Receive ::
  "'n Sys \<Rightarrow> nat \<Rightarrow> SocketTransport \<Rightarrow> 'n \<Rightarrow> (int \<times> bytes \<times> TransportStatus) \<times> SocketTransport \<times> 'n" where
  "Receive sys buf t n =
    (if t_closed t then ((0, [], StatusClosed), t, n)
     else if length (t_backlog t) > 0 then
       (case pushBacklog sys t n of (status, t, n) \<Rightarrow>
          if status \<noteq> StatusOK then ((0, [], status), t, n) else receive_bytes sys buf t n)
     else receive_bytes sys buf t n)"

definition Transport_CloseSend :: "'n Sys \<Rightarrow> SocketTransport \<Rightarrow> 'n \<Rightarrow> SocketTransport \<times> 'n" where
  "Transport_CloseSend sys t n =
    (if t_closed t then (t, n)
     else (case pushBacklog sys t n of (_, t, n) \<Rightarrow> (t, sys_closeWrite sys n)))"

definition Transport_Close :: "'n Sys \<Rightarrow> SocketTransport \<Rightarrow> 'n \<Rightarrow> SocketTransport \<times> 'n" where
  "Transport_Close sys t n = (t\<lparr>t_closed := True\<rparr>, sys_close sys n)"

text \<open>\<open>poll(2)\<close>, for readability and, if asked for, writability.\<close>

definition poll_millis :: "duration \<Rightarrow> int" where
  "poll_millis timeout =
    (let millis = Milliseconds timeout;
         millis = (if millis = 0 \<and> timeout > 0 then 1 else millis)
     in min (max millis 0) 2147483647)"

definition waitReady :: "'n Sys \<Rightarrow> bool \<Rightarrow> duration \<Rightarrow> 'n \<Rightarrow> (Errno + bool) \<times> 'n" where
  "waitReady sys writable timeout n =
    (case sys_poll sys writable (poll_millis timeout) n of
       (Inl control, n) \<Rightarrow> (Inl control, n)
     | (Inr (ready, Some err), n) \<Rightarrow> (if err = EINTR then Inr False else Inl err, n)
     | (Inr (ready, None), n) \<Rightarrow> (Inr (ready > 0), n))"

definition WaitReady ::
  "'n Sys \<Rightarrow> bool \<Rightarrow> duration \<Rightarrow> SocketTransport \<Rightarrow> 'n \<Rightarrow> (Errno + bool) \<times> 'n" where
  "WaitReady sys writable timeout t n =
    (if t_closed t then (Inr True, n) else waitReady sys writable timeout n)"

subsection \<open>The stream of bytes\<close>

text \<open>\<open>wire n\<close> are the bytes the socket has taken so far; a write takes a prefix of what it is given
  and reports its length, and takes nothing when it reports no count.\<close>

definition honest_socket :: "'n Sys \<Rightarrow> ('n \<Rightarrow> bytes) \<Rightarrow> bool" where
  "honest_socket sys wire \<longleftrightarrow> (\<forall>b n. case sys_write sys b n of
       (Inl control, n') \<Rightarrow> wire n' = wire n
     | (Inr (written, err), n') \<Rightarrow> written \<le> int (length b) \<and> wire n' = wire n @ take (nat written) b)"

lemma honest_socketD:
  "honest_socket sys wire \<Longrightarrow> sys_write sys b n = (Inl control, n') \<Longrightarrow> wire n' = wire n"
  "honest_socket sys wire \<Longrightarrow> sys_write sys b n = (Inr (written, err), n')
    \<Longrightarrow> written \<le> int (length b) \<and> wire n' = wire n @ take (nat written) b"
  by (auto simp: honest_socket_def dest!: spec [where x = b] spec [where x = n])

lemma transport_write_honest:
  assumes "honest_socket sys wire" and "transport_write sys b n = ((k, err), n')"
  shows "0 \<le> k \<and> k \<le> int (length b) \<and> wire n' = wire n @ take (nat k) b"
  using assms(2)
  by (auto simp: transport_write_def max_def split: prod.splits sum.splits if_splits
      dest: honest_socketD [OF assms(1)])

text \<open>What has been sent: the bytes on the wire and those waiting behind them.\<close>

definition sent_bytes :: "('n \<Rightarrow> bytes) \<Rightarrow> SocketTransport \<Rightarrow> 'n \<Rightarrow> bytes" where
  "sent_bytes wire t n = wire n @ t_backlog t"

lemma sent_after_write:
  assumes "honest_socket sys wire" and "transport_write sys (t_backlog t) n = ((k, err), n')"
  shows "wire n' @ drop (nat k) (t_backlog t) = sent_bytes wire t n"
  using transport_write_honest [OF assms] by (simp add: sent_bytes_def)

text \<open>Pushing the backlog moves bytes from it to the wire, and nothing else.\<close>

lemma pushBacklog_sent:
  assumes h: "honest_socket sys wire" and "pushBacklog sys t n = (status, t', n')"
  shows "sent_bytes wire t' n' = sent_bytes wire t n
    \<and> (status = StatusOK \<and> t_closed t' = t_closed t \<or> status = StatusErr \<and> t_closed t')"
  using assms(2)
proof (induction "length (t_backlog t)" arbitrary: t n rule: less_induct)
  case less
  show ?case
  proof (cases "t_backlog t = []")
    case True
    then show ?thesis using less.prems by (subst (asm) pushBacklog.simps) simp
  next
    case False
    obtain k err m where w: "transport_write sys (t_backlog t) n = ((k, err), m)"
      by (metis prod.collapse)
    define u where "u = (if k > 0 then t\<lparr>t_backlog := drop (nat k) (t_backlog t)\<rparr> else t)"
    have k: "0 \<le> k" using transport_write_honest [OF h w] by simp
    have u: "sent_bytes wire u m = sent_bytes wire t n" "t_closed u = t_closed t"
      using sent_after_write [OF h w] transport_write_honest [OF h w]
      by (auto simp: u_def sent_bytes_def)
    show ?thesis
    proof (cases "err = None \<and> k \<noteq> 0")
      case True
      with less.prems False w have p: "pushBacklog sys u m = (status, t', n')"
        by (subst (asm) pushBacklog.simps) (simp add: u_def Let_def)
      have "length (t_backlog u) < length (t_backlog t)" using True False k by (simp add: u_def)
      from less.hyps [OF this p] show ?thesis using u by simp
    next
      case stop: False
      with less.prems False w show ?thesis
        using u by (subst (asm) pushBacklog.simps)
          (auto simp: u_def Let_def transport_fail_def sent_bytes_def split: option.splits if_splits)
    qed
  qed
qed

text \<open>A frame is taken as a whole or not at all, and never overtakes the bytes before it.\<close>

lemma send_frame_sent:
  assumes "honest_socket sys wire" and "send_frame sys frame t n = (status, t', n')"
    and "t_backlog t = []"
  shows "(status = StatusOK \<longrightarrow> sent_bytes wire t' n' = sent_bytes wire t n @ frame)
    \<and> (status = StatusPending \<longrightarrow> sent_bytes wire t' n' = sent_bytes wire t n)
    \<and> (status = StatusErr \<longrightarrow> t_closed t') \<and> status \<noteq> StatusClosed"
proof -
  obtain k err m where w: "transport_write sys frame n = ((k, err), m)" by (metis prod.collapse)
  note k = transport_write_honest [OF assms(1) w]
  from assms(2,3) w show ?thesis
    using k by (auto simp: send_frame_def sent_bytes_def transport_fail_def split: if_splits)
qed

lemma Transport_Send_sent:
  assumes "honest_socket sys wire" and "Transport_Send sys frame t n = (status, t', n')"
  shows "(status = StatusOK \<longrightarrow> sent_bytes wire t' n' = sent_bytes wire t n @ frame)
    \<and> (status = StatusPending \<or> status = StatusClosed \<longrightarrow> sent_bytes wire t' n' = sent_bytes wire t n)
    \<and> (status = StatusErr \<or> status = StatusClosed \<longrightarrow> t_closed t')"
proof (cases "t_closed t \<or> t_backlog t = []")
  case True
  have "send_frame sys frame t n = (status, t', n')" if "\<not> t_closed t"
    using that True assms(2) by (simp add: Transport_Send_def)
  with assms(2) True show ?thesis
    using send_frame_sent [OF assms(1), of frame t n status t' n']
    by (cases "t_closed t") (auto simp: Transport_Send_def)
next
  case False
  obtain s u m where p: "pushBacklog sys t n = (s, u, m)" by (metis prod.collapse)
  have q: "sent_bytes wire u m = sent_bytes wire t n"
    "s = StatusOK \<or> s = StatusErr \<and> t_closed u" using pushBacklog_sent [OF assms(1) p] by auto
  show ?thesis
  proof (cases "s = StatusOK \<and> t_backlog u = []")
    case True
    with False p assms(2) have "send_frame sys frame u m = (status, t', n')"
      by (simp add: Transport_Send_def)
    from send_frame_sent [OF assms(1) this] True q show ?thesis by auto
  next
    case stop: False
    with False p assms(2) q show ?thesis
      by (auto simp: Transport_Send_def sent_bytes_def split: if_splits)
  qed
qed

text \<open>The frames of a run of sends, and which of them were taken.\<close>

primrec send_all ::
  "'n Sys \<Rightarrow> bytes list \<Rightarrow> SocketTransport \<Rightarrow> 'n \<Rightarrow> bytes list \<times> SocketTransport \<times> 'n" where
  "send_all sys [] t n = ([], t, n)"
| "send_all sys (frame # frames) t n =
    (case Transport_Send sys frame t n of (status, t, n) \<Rightarrow>
       (case send_all sys frames t n of (taken, t, n) \<Rightarrow>
          ((if status = StatusOK then frame # taken else taken), t, n)))"

lemma Transport_Send_closed: "t_closed t \<Longrightarrow> Transport_Send sys frame t n = (StatusClosed, t, n)"
  by (simp add: Transport_Send_def)

lemma send_all_closed: "t_closed t \<Longrightarrow> send_all sys frames t n = ([], t, n)"
  by (induction frames) (simp_all add: Transport_Send_closed)

lemma send_all_sent:
  assumes "honest_socket sys wire" and "send_all sys frames t n = (taken, t', n')"
    and "\<not> t_closed t'"
  shows "sent_bytes wire t' n' = sent_bytes wire t n @ concat taken"
  using assms(2)
proof (induction frames arbitrary: t n taken)
  case (Cons frame frames)
  obtain s u m where s: "Transport_Send sys frame t n = (s, u, m)" by (metis prod.collapse)
  obtain more where r: "send_all sys frames u m = (more, t', n')"
    "taken = (if s = StatusOK then frame # more else more)"
    using Cons.prems s by (auto split: prod.splits)
  have "\<not> t_closed u" using r(1) send_all_closed [of u sys frames m] assms(3) by auto
  with Transport_Send_sent [OF assms(1) s] Cons.IH [OF r(1)] r(2) show ?case
    by (cases s) auto
qed simp

lemma send_all_subseq: "send_all sys frames t n = (taken, t', n') \<Longrightarrow> subseq taken frames"
  by (induction frames arbitrary: t n taken) (auto split: prod.splits if_splits)

text \<open>\<open>poll_millis\<close> waits no longer than asked, except for a timeout below a millisecond, which waits one.\<close>

lemma poll_millis_bound:
  "0 \<le> poll_millis d \<and> poll_millis d * Millisecond \<le> max d Millisecond
    \<and> (0 < d \<longrightarrow> 0 < poll_millis d) \<and> (d \<le> 0 \<longrightarrow> poll_millis d = 0)"
  by (auto simp: poll_millis_def Milliseconds_def Let_def min_def max_def)

end
