(* ===== verification/Session.thy ===== *)
theory Session
  imports CoreService Transport
begin

text \<open>
  A session (\<open>rpcnet/session.go\<close>): a core, the connection that carries its frames, and the socket
  transport under the connection.  The connection is the third-party package \<open>fomoxa\<close>, so its
  methods are a parameter, the record \<open>Net\<close>; it shares the transport with the session, and
  \<open>'n\<close> is everything else outside the program: the state of the connection, the sockets and the
  clock.  Verdicts of a handshake (\<open>'v\<close>) are opaque to the session.  \<open>EventOther\<close> is any kind of
  event that the session does not handle.
\<close>

subsection \<open>The connection\<close>

datatype 'v Event = EventReady | EventMessage u32 bytes | EventHandshakeFailed 'v | EventDisconnected
  | EventOther

datatype NetError = NetCongested | NetNotReady | NetSessionClosed | NetOther string

type_synonym 'n link = "SocketTransport \<times> 'n"

text \<open>\<open>net_New\<close> is \<open>NewConn\<close> for a client and \<open>NewPeerConn\<close> for a server, \<open>net_Closed\<close> is
  \<open>State() == StateClosed\<close>, \<open>net_Verdict\<close> prints a verdict, and \<open>net_Now\<close> is \<open>time.Now\<close>.\<close>

record ('v, 'n) Net =
  net_New :: "bool \<Rightarrow> 'n link \<Rightarrow> string option \<times> 'n link"
  net_Tick :: "gotime \<Rightarrow> 'n link \<Rightarrow> 'v Event list \<times> 'n link"
  net_Send :: "u32 \<Rightarrow> bytes \<Rightarrow> 'n link \<Rightarrow> NetError option \<times> 'n link"
  net_Closed :: "'n link \<Rightarrow> bool"
  net_Close :: "'n link \<Rightarrow> 'n link"
  net_Verdict :: "'v \<Rightarrow> string"
  net_Sys :: "'n Sys"
  net_Now :: "'n \<Rightarrow> gotime \<times> 'n"

subsection \<open>Waiting\<close>

record PlainMessage =
  pm_MessageID :: u32
  pm_Payload :: bytes

record Wait =
  wt_Timeout :: duration
  wt_Writable :: bool

record WaitPolicy =
  IdleCap :: duration
  WorkPoll :: duration

definition DefaultWaitPolicy :: WaitPolicy where
  "DefaultWaitPolicy = \<lparr>IdleCap = 250 * Millisecond, WorkPoll = 200 * 1000\<rparr>"

definition policy_normalized :: "WaitPolicy \<Rightarrow> WaitPolicy" where
  "policy_normalized p =
    (let defaults = DefaultWaitPolicy in
     p\<lparr>IdleCap := (if IdleCap p \<le> 0 then IdleCap defaults else IdleCap p),
       WorkPoll := (if WorkPoll p \<le> 0 then WorkPoll defaults else WorkPoll p)\<rparr>)"

definition Plan :: "WaitPolicy \<Rightarrow> 'w Core \<Rightarrow> bool \<Rightarrow> gotime \<Rightarrow> Wait" where
  "Plan p core netCongested now =
    (let p = policy_normalized p;
         timeout = IdleCap p;
         timeout = (if HasRunnableWork core then min timeout (WorkPoll p) else timeout);
         timeout = (case NextDeadline core of (deadline, ok) \<Rightarrow>
           if ok then min timeout (max (Time_Sub deadline now) 0) else timeout)
     in \<lparr>wt_Timeout = timeout, wt_Writable = netCongested \<or> HasUnsentFrames core\<rparr>)"

subsection \<open>State\<close>

record ('w, 'v, 'n) Session =
  s_link :: "'n link"
  s_core :: "'w Core"
  s_plain :: "PlainMessage list"
  s_refusal :: "'v option"

text \<open>The ids of the messages that the schema declares.\<close>

definition RequireDeclared :: "'w Registry \<Rightarrow> u32 list \<Rightarrow> RegistryError option" where
  "RequireDeclared registry declared = RequireDeclaredIn (\<lambda>id. id \<in> set declared) registry"

datatype SessionError = SessionRegistry RegistryError | SessionNet string

definition NewSession ::
  "('v, 'n) Net \<Rightarrow> 'n link \<Rightarrow> u32 list \<Rightarrow> 'w Registry \<Rightarrow> Role \<Rightarrow> Config \<Rightarrow> 'w
    \<Rightarrow> (SessionError + ('w, 'v, 'n) Session) \<times> 'n link" where
  "NewSession net transport schema registry role config w =
    (case RequireDeclared registry schema of
       Some err \<Rightarrow> (Inl (SessionRegistry err), transport)
     | None \<Rightarrow>
         (case net_New net (role = RoleClient) transport of
            (Some err, transport) \<Rightarrow> (Inl (SessionNet err), transport)
          | (None, transport) \<Rightarrow>
              (Inr \<lparr>s_link = transport, s_core = NewCore registry role config w, s_plain = [],
                 s_refusal = None\<rparr>, transport)))"

definition Session_Ready :: "('w, 'v, 'n) Session \<Rightarrow> bool" where
  "Session_Ready s = c_ready (s_core s)"

definition Session_Closed :: "('v, 'n) Net \<Rightarrow> ('w, 'v, 'n) Session \<Rightarrow> bool" where
  "Session_Closed net s = net_Closed net (s_link s)"

definition Refusal :: "('w, 'v, 'n) Session \<Rightarrow> 'v option" where
  "Refusal s = s_refusal s"

text \<open>A step of the application on the core of a session.\<close>

definition with_core :: "('w Core \<Rightarrow> 'w Core) \<Rightarrow> ('w, 'v, 'n) Session \<Rightarrow> ('w, 'v, 'n) Session" where
  "with_core f s = s\<lparr>s_core := f (s_core s)\<rparr>"

definition Session_Call ::
  "u32 \<Rightarrow> bytes \<Rightarrow> Ctx option \<Rightarrow> CallOptions \<Rightarrow> gotime \<Rightarrow> ('w, 'v, 'n) Session
    \<Rightarrow> (CallError + CallID) \<times> ('w, 'v, 'n) Session" where
  "Session_Call requestID body ctx options now s =
    (case Core_Call requestID body ctx options now (s_core s) of
       (r, c) \<Rightarrow> (r, s\<lparr>s_core := c\<rparr>))"

subsection \<open>Tick\<close>

definition deliveryOf :: "NetError option \<Rightarrow> Delivery" where
  "deliveryOf err =
    (case err of
       None \<Rightarrow> Accepted
     | Some NetCongested \<Rightarrow> Rejected
     | Some NetNotReady \<Rightarrow> Rejected
     | Some NetSessionClosed \<Rightarrow> Rejected
     | Some (NetOther _) \<Rightarrow> Accepted)"

definition session_sink :: "('v, 'n) Net \<Rightarrow> 'n link Sink" where
  "session_sink net frame link =
    (case net_Send net (og_MessageID frame) (og_Payload frame) link of
       (err, link) \<Rightarrow> (deliveryOf err, link))"

text \<open>The body of the loop over the events of the connection.\<close>

fun session_event :: "gotime \<Rightarrow> 'v Event \<Rightarrow> ('w, 'v, 'n) Session \<Rightarrow> ('w, 'v, 'n) Session" where
  "session_event now EventReady s = with_core OnReady s"
| "session_event now (EventMessage messageID payload) s =
    (case OnMessage messageID payload now (s_core s) of (mine, c) \<Rightarrow>
       let s = s\<lparr>s_core := c\<rparr> in
       if \<not> mine then
         s\<lparr>s_plain := s_plain s @ [\<lparr>pm_MessageID = messageID, pm_Payload = payload\<rparr>]\<rparr>
       else s)"
| "session_event now (EventHandshakeFailed verdict) s =
    with_core OnSessionEnd (s\<lparr>s_refusal := Some verdict\<rparr>)"
| "session_event now EventDisconnected s = with_core OnSessionEnd s"
| "session_event now EventOther s = s"

definition Session_Tick ::
  "('v, 'n) Net \<Rightarrow> gotime \<Rightarrow> ('w, 'v, 'n) Session \<Rightarrow> ('w, 'v, 'n) Session option" where
  "Session_Tick net now s =
    (case net_Tick net now (s_link s) of (events, link) \<Rightarrow>
       let s = fold (session_event now) events (s\<lparr>s_link := link\<rparr>);
           s = with_core (Tick now) s
       in case Core_Drain (session_sink net) (s_core s) (s_link s) of
            None \<Rightarrow> None
          | Some (c, link) \<Rightarrow> Some (s\<lparr>s_core := c, s_link := link\<rparr>))"

definition Session_TakeOutcomes :: "('w, 'v, 'n) Session \<Rightarrow> Outcome list \<times> ('w, 'v, 'n) Session" where
  "Session_TakeOutcomes s =
    (case TakeOutcomes (s_core s) of (taken, c) \<Rightarrow> (taken, s\<lparr>s_core := c\<rparr>))"

definition TakePlain :: "('w, 'v, 'n) Session \<Rightarrow> PlainMessage list \<times> ('w, 'v, 'n) Session" where
  "TakePlain s = (s_plain s, s\<lparr>s_plain := []\<rparr>)"

datatype SendPlainError = ErrNotPlain | PlainNet NetError

definition SendPlain ::
  "('v, 'n) Net \<Rightarrow> u32 \<Rightarrow> bytes \<Rightarrow> ('w, 'v, 'n) Session \<Rightarrow> SendPlainError option \<times> ('w, 'v, 'n) Session" where
  "SendPlain net messageID payload s =
    (if \<not> IsPlain messageID (c_registry (s_core s)) then (Some ErrNotPlain, s)
     else (case net_Send net messageID payload (s_link s) of
       (err, link) \<Rightarrow> (map_option PlainNet err, s\<lparr>s_link := link\<rparr>)))"

definition Session_Wait ::
  "('v, 'n) Net \<Rightarrow> WaitPolicy \<Rightarrow> gotime \<Rightarrow> ('w, 'v, 'n) Session \<Rightarrow> (Errno + bool) \<times> ('w, 'v, 'n) Session" where
  "Session_Wait net policy now s =
    (case s_link s of (transport, n) \<Rightarrow>
       let plan = Plan policy (s_core s) (Backlogged transport) now in
       (case WaitReady (net_Sys net) (wt_Writable plan) (wt_Timeout plan) transport n of
          (r, n) \<Rightarrow> (r, s\<lparr>s_link := (transport, n)\<rparr>)))"

definition Session_Close :: "('v, 'n) Net \<Rightarrow> ('w, 'v, 'n) Session \<Rightarrow> ('w, 'v, 'n) Session" where
  "Session_Close net s = with_core OnSessionEnd (s\<lparr>s_link := net_Close net (s_link s)\<rparr>)"

end
