(* ===== verification/SessionRuns.thy ===== *)
theory SessionRuns
  imports Session
begin

text \<open>
  What a session does over its life: every tick returns, the accounting of calls goes on through
  ticks, and closing the session completes every call that is still pending.  A core whose
  session has ended holds no pending call and starts none, as long as its connection reports
  no \<open>Ready\<close> after the end (\<open>orderly\<close>).
\<close>

subsection \<open>After the end\<close>

definition ended_ok :: "'w Core \<Rightarrow> bool" where
  "ended_ok c \<longleftrightarrow> (c_finished c \<longrightarrow> \<not> c_ready c \<and> c_pending c = fmempty)"

text \<open>\<open>orderly ended events\<close>: once the session has ended no \<open>Ready\<close> follows.\<close>

fun orderly :: "bool \<Rightarrow> 'v Event list \<Rightarrow> bool" where
  "orderly ended [] = True"
| "orderly ended (EventReady # events) \<longleftrightarrow> \<not> ended \<and> orderly ended events"
| "orderly ended (EventMessage m p # events) \<longleftrightarrow> orderly ended events"
| "orderly ended (EventOther # events) \<longleftrightarrow> orderly ended events"
| "orderly ended (_ # events) \<longleftrightarrow> orderly True events"

lemma fmempty_iff: "m = fmempty \<longleftrightarrow> (\<forall>k. fmlookup m k = None)"
  by (auto intro: fmap_ext)

lemma pending_calls_empty: "pending_calls c = {#} \<longleftrightarrow> c_pending c = fmempty"
  by (auto simp: pending_calls_def mset_set_empty_iff fmempty_iff fmdom_notD)

lemma ended_ok_step:
  assumes "same_static c c'" and "conserves c c'" and "ended_ok c"
  shows "ended_ok c'"
proof -
  from assms(2) have "pending_calls c = {#} \<Longrightarrow> pending_calls c' = {#}" by (auto simp: conserves_def)
  with assms(1,3) show ?thesis by (simp add: ended_ok_def same_static_def pending_calls_empty)
qed

lemma ended_ok_safe: "safe_step k c c' \<Longrightarrow> ended_ok c \<Longrightarrow> ended_ok c'"
  by (rule ended_ok_step) (auto simp: safe_static safe_conserves)

lemma ended_ok_Tick: "ended_ok c \<Longrightarrow> ended_ok (Tick now c)"
  by (rule ended_ok_step [OF static_Tick conserves_Tick])

lemma ended_ok_SessionEnd: "ended_ok c \<Longrightarrow> ended_ok (OnSessionEnd c) \<and> c_finished (OnSessionEnd c)
    \<and> c_pending (OnSessionEnd c) = fmempty"
  by (cases "c_finished c") (simp_all add: ended_ok_def OnSessionEnd_effect, simp_all add: OnSessionEnd_def)

lemma ended_ok_Call:
  assumes "ended_ok c" and "Core_Call requestID body ctx options now c = (r, c')" and "core_inv c"
  shows "ended_ok c'"
proof (cases "c_ready c")
  case False
  with assms(1,2) show ?thesis by (auto simp: Core_Call_def)
next
  case True
  with assms Core_Call_result [OF assms(2,3)] show ?thesis
    by (simp add: ended_ok_def call_result_def)
qed

subsection \<open>A tick of a session\<close>

definition session_ok :: "CallID list \<Rightarrow> Outcome list \<Rightarrow> 'w Core \<Rightarrow> bool" where
  "session_ok calls taken c \<longleftrightarrow> accounted calls taken c \<and> ended_ok c"

lemma session_ok_safe: "session_ok calls taken c \<Longrightarrow> safe_step k c c' \<Longrightarrow> session_ok calls taken c'"
  by (auto simp: session_ok_def intro: accounted_safe ended_ok_safe)

lemma session_ok_SessionEnd:
  "session_ok calls taken c \<Longrightarrow> session_ok calls taken (OnSessionEnd c)"
  by (simp add: session_ok_def accounted_SessionEnd ended_ok_SessionEnd)

lemma session_event_ok:
  assumes "orderly (c_finished (s_core s)) (event # events)" and "session_ok calls taken (s_core s)"
  shows "session_ok calls taken (s_core (session_event now event s))
    \<and> orderly (c_finished (s_core (session_event now event s))) events
    \<and> s_link (session_event now event s) = s_link s"
proof (cases event)
  case EventReady
  have "accounted calls taken (OnReady (s_core s))"
    using assms(2) by (simp add: session_ok_def accounted_settings)
  moreover have "ended_ok (OnReady (s_core s))" and "c_finished (OnReady (s_core s)) = c_finished (s_core s)"
    using assms(1) EventReady by (simp_all add: ended_ok_def OnReady_def)
  ultimately show ?thesis using assms(1) EventReady by (auto simp: with_core_def session_ok_def)
next
  case (EventMessage m p)
  obtain mine c where o: "OnMessage m p now (s_core s) = (mine, c)" by fastforce
  from safe_OnMessage [OF o] have "safe_step (ReadCallID p) (s_core s) c" .
  with session_ok_safe [OF assms(2) this] safe_static [OF this] assms(1) o EventMessage
  show ?thesis by (simp add: same_static_def Let_def)
next
  case (EventHandshakeFailed v)
  with assms session_ok_SessionEnd [OF assms(2)] show ?thesis
    by (simp add: with_core_def session_ok_def ended_ok_SessionEnd)
next
  case EventDisconnected
  with assms session_ok_SessionEnd [OF assms(2)] show ?thesis
    by (simp add: with_core_def session_ok_def ended_ok_SessionEnd)
qed (use assms in simp)

lemma session_events_ok:
  assumes "orderly (c_finished (s_core s)) events" and "session_ok calls taken (s_core s)"
  shows "session_ok calls taken (s_core (fold (session_event now) events s))
    \<and> s_link (fold (session_event now) events s) = s_link s"
  using assms
proof (induction events arbitrary: s)
  case (Cons event events)
  from session_event_ok [OF this(2,3)] Cons.IH [of "session_event now event s"] show ?case by simp
qed simp

lemma session_ok_Tick: "session_ok calls taken c \<Longrightarrow> session_ok calls taken (Tick now c)"
  by (auto simp: session_ok_def intro: accounted_conserves conserves_Tick ended_ok_Tick)

lemma session_ok_Drain:
  "session_ok calls taken c \<Longrightarrow> Core_Drain sink c s = Some (c', s') \<Longrightarrow> session_ok calls taken c'"
  using Core_Drain_settings [of sink c s c' s'] accounted_Drain [of calls taken c sink s c' s']
  by (simp add: session_ok_def ended_ok_def)

lemma core_inv_session_event:
  "core_inv (s_core s) \<Longrightarrow> core_inv (s_core (session_event now event s))"
proof (cases event)
  case (EventMessage m p)
  assume "core_inv (s_core s)"
  moreover obtain mine c where o: "OnMessage m p now (s_core s) = (mine, c)" by fastforce
  ultimately show ?thesis using safe_OnMessage [OF o] EventMessage by (simp add: safe_step_def Let_def)
qed (auto simp: with_core_def core_inv_SessionEnd, simp add: core_inv_def OnReady_def Core_Role_def)

lemma core_inv_session_events:
  "core_inv (s_core s) \<Longrightarrow> core_inv (s_core (fold (session_event now) events s))"
  by (induction events arbitrary: s) (simp_all add: core_inv_session_event)

lemma core_inv_Tick: "core_inv c \<Longrightarrow> core_inv (Tick now c)"
  using conserves_Tick by (auto simp: conserves_def)

text \<open>A tick of a session returns, whatever the connection reports and whether it takes the frames.\<close>

lemma Session_Tick_returns:
  assumes "core_inv (s_core s)"
  obtains s' where "Session_Tick net now s = Some s'"
proof -
  obtain events link where t: "net_Tick net now (s_link s) = (events, link)"
    by (metis prod.collapse)
  define u where "u = with_core (Tick now) (fold (session_event now) events (s\<lparr>s_link := link\<rparr>))"
  have "core_inv (s_core u)"
    unfolding u_def using assms by (simp add: with_core_def core_inv_Tick core_inv_session_events)
  then obtain c l where "Core_Drain (session_sink net) (s_core u) (s_link u) = Some (c, l)"
    by (rule Core_Drain_returns)
  with t show ?thesis by (intro that) (simp add: Session_Tick_def Let_def u_def [symmetric])
qed

lemma Session_Tick_ok:
  assumes "Session_Tick net now s = Some s'" and "session_ok calls taken (s_core s)"
    and "orderly (c_finished (s_core s)) (fst (net_Tick net now (s_link s)))"
  shows "session_ok calls taken (s_core s')"
proof -
  obtain events link where t: "net_Tick net now (s_link s) = (events, link)"
    by (metis prod.collapse)
  let ?u = "fold (session_event now) events (s\<lparr>s_link := link\<rparr>)"
  have "session_ok calls taken (s_core ?u)"
    using session_events_ok [of "s\<lparr>s_link := link\<rparr>" events] assms(2,3) t by simp
  then have u: "session_ok calls taken (s_core (with_core (Tick now) ?u))"
    by (simp add: with_core_def session_ok_Tick)
  obtain c l where d: "Core_Drain (session_sink net) (s_core (with_core (Tick now) ?u))
      (s_link (with_core (Tick now) ?u)) = Some (c, l)" "s_core s' = c"
    using assms(1) t by (auto simp: Session_Tick_def Let_def split: option.splits)
  from session_ok_Drain [OF u d(1)] d(2) show ?thesis by simp
qed

subsection \<open>Runs of a session\<close>

text \<open>What the application and the connection may do, with the calls started and the outcomes taken.
  The link may change between two steps, as the network does.\<close>

inductive session_reaches ::
  "('v, 'n) Net \<Rightarrow> ('w, 'v, 'n) Session \<Rightarrow> CallID list \<Rightarrow> Outcome list \<Rightarrow> ('w, 'v, 'n) Session \<Rightarrow> bool"
  for net s0 where
  start: "session_reaches net s0 [] [] s0"
| tick: "session_reaches net s0 calls taken s
    \<Longrightarrow> orderly (c_finished (s_core s)) (fst (net_Tick net now (s_link s)))
    \<Longrightarrow> Session_Tick net now s = Some s' \<Longrightarrow> session_reaches net s0 calls taken s'"
| call: "session_reaches net s0 calls taken s
    \<Longrightarrow> Session_Call requestID body ctx options now s = (Inr k, s')
    \<Longrightarrow> session_reaches net s0 (calls @ [k]) taken s'"
| call_refused: "session_reaches net s0 calls taken s
    \<Longrightarrow> Session_Call requestID body ctx options now s = (Inl e, s')
    \<Longrightarrow> session_reaches net s0 calls taken s'"
| send_item: "session_reaches net s0 calls taken s
    \<Longrightarrow> session_reaches net s0 calls taken (with_core (\<lambda>c. snd (SendItem k body c)) s)"
| close_send: "session_reaches net s0 calls taken s
    \<Longrightarrow> session_reaches net s0 calls taken (with_core (\<lambda>c. snd (CloseSend k c)) s)"
| grant: "session_reaches net s0 calls taken s
    \<Longrightarrow> session_reaches net s0 calls taken (with_core (\<lambda>c. snd (Core_Grant k items c)) s)"
| cancel: "session_reaches net s0 calls taken s
    \<Longrightarrow> session_reaches net s0 calls taken (with_core (Core_Cancel k) s)"
| take: "session_reaches net s0 calls taken s \<Longrightarrow> Session_TakeOutcomes s = (os, s')
    \<Longrightarrow> session_reaches net s0 calls (taken @ os) s'"
| take_plain: "session_reaches net s0 calls taken s
    \<Longrightarrow> session_reaches net s0 calls taken (snd (TakePlain s))"
| network: "session_reaches net s0 calls taken s
    \<Longrightarrow> session_reaches net s0 calls taken (s\<lparr>s_link := link\<rparr>)"
| close: "session_reaches net s0 calls taken s
    \<Longrightarrow> session_reaches net s0 calls taken (Session_Close net s)"

lemma session_ok_Call:
  assumes "session_ok calls taken c" and "Core_Call requestID body ctx options now c = (r, c')"
  shows "session_ok (calls @ (case r of Inr k \<Rightarrow> [k] | Inl e \<Rightarrow> [])) taken c'"
  using assms accounted_Call [of calls taken c requestID body ctx options now r c']
    ended_ok_Call [of c requestID body ctx options now r c']
  by (simp add: session_ok_def) (simp add: accounted_def)

lemma session_ok_take:
  "session_ok calls taken c \<Longrightarrow> TakeOutcomes c = (os, c') \<Longrightarrow> session_ok calls (taken @ os) c'"
  by (auto simp: session_ok_def intro: accounted_take) (auto simp: TakeOutcomes_def ended_ok_def)

lemma session_reaches_ok:
  assumes "session_reaches net s0 calls taken s" and "session_ok [] [] (s_core s0)"
  shows "session_ok calls taken (s_core s)"
  using assms
proof (induction rule: session_reaches.induct)
  case (tick calls taken s now s')
  then show ?case using Session_Tick_ok by blast
next
  case (call calls taken s requestID body ctx options now k s')
  then obtain c where "Core_Call requestID body ctx options now (s_core s) = (Inr k, c)" "s_core s' = c"
    by (auto simp: Session_Call_def split: prod.splits)
  with session_ok_Call [OF _ this(1)] call show ?case by auto
next
  case (call_refused calls taken s requestID body ctx options now e s')
  then obtain c where "Core_Call requestID body ctx options now (s_core s) = (Inl e, c)" "s_core s' = c"
    by (auto simp: Session_Call_def split: prod.splits)
  with session_ok_Call [OF _ this(1)] call_refused show ?case by auto
next
  case (send_item calls taken s k body)
  then show ?case using safe_SendItem session_ok_safe
    by (metis (no_types, lifting) Session.select_convs(2) Session.surjective Session.update_convs(2)
        prod.collapse with_core_def)
next
  case (close_send calls taken s k)
  then show ?case using safe_CloseSend session_ok_safe
    by (metis (no_types, lifting) Session.select_convs(2) Session.surjective Session.update_convs(2)
        prod.collapse with_core_def)
next
  case (grant calls taken s k items)
  then show ?case using safe_Core_Grant session_ok_safe
    by (metis (no_types, lifting) Session.select_convs(2) Session.surjective Session.update_convs(2)
        prod.collapse with_core_def)
next
  case (cancel calls taken s k)
  then show ?case using session_ok_safe [OF _ safe_Core_Cancel] by (simp add: with_core_def)
next
  case (take calls taken s os s')
  then show ?case using session_ok_take by (auto simp: Session_TakeOutcomes_def split: prod.splits)
qed (simp_all add: TakePlain_def Session_Close_def with_core_def session_ok_SessionEnd)

lemma session_ok_new: "session_ok [] [] (NewCore registry role config w)"
  by (simp add: session_ok_def accounted_new) (simp add: ended_ok_def NewCore_def Let_def)

text \<open>Closing leaves nothing pending: the outcomes taken before and after it complete every call.\<close>

lemma Session_Close_completes:
  assumes "session_ok calls taken (s_core s)"
  shows "mset calls = mset (terminals (taken @ fst (Session_TakeOutcomes (Session_Close net s))))"
proof -
  let ?c = "OnSessionEnd (s_core s)"
  have "accounted calls taken ?c" "c_pending ?c = fmempty"
    using assms by (simp_all add: session_ok_def accounted_SessionEnd ended_ok_SessionEnd)
  then show ?thesis
    by (simp add: accounted_def pending_calls_def Session_TakeOutcomes_def Session_Close_def
        with_core_def TakeOutcomes_def)
qed

subsection \<open>Waiting\<close>

text \<open>A wait ends at the next deadline: the poll for it is never longer, except that it lasts at
  least a millisecond if time is left.  It does not spin while the next deadline is to come.\<close>

lemma Plan_timeout:
  "0 \<le> wt_Timeout (Plan p c congested now)"
  "wt_Timeout (Plan p c congested now) \<le> IdleCap (policy_normalized p)"
  "HasRunnableWork c \<Longrightarrow> wt_Timeout (Plan p c congested now) \<le> WorkPoll (policy_normalized p)"
  "NextDeadline c = (d, True) \<Longrightarrow> wt_Timeout (Plan p c congested now) \<le> max (d - now) 0"
  "(\<And>d. NextDeadline c = (d, True) \<Longrightarrow> now < d) \<Longrightarrow> 0 < wt_Timeout (Plan p c congested now)"
  by (auto simp: Plan_def policy_normalized_def DefaultWaitPolicy_def Let_def Time_Sub_def max_i64_def
      min_i64_def min_def max_def split: prod.splits)

lemma Plan_poll:
  assumes "NextDeadline c = (d, True)"
  shows "poll_millis (wt_Timeout (Plan p c congested now)) * Millisecond \<le> max (d - now) Millisecond"
  using poll_millis_bound [of "wt_Timeout (Plan p c congested now)"]
    Plan_timeout(4) [OF assms, of p congested now]
  by (simp add: max_def split: if_splits)

end
