(* ===== verification/Client.thy ===== *)
theory Client
  imports SessionRuns CoreTypes
begin

text \<open>
  The blocking client (\<open>rpcnet/client.go\<close>) and the connection loop of the server
  (\<open>rpcnet/server.go\<close>).  Each loop that waits for the network is a partial function: \<open>None\<close> is the
  loop that never ends, and theory ClientRuns proves that the loops end.  The clock is read through
  \<open>net_Now\<close>.  \<open>Dial\<close> and \<open>Accept\<close> are outside the model: a client and a connection start from a
  link that is open.
\<close>

subsection \<open>State\<close>

datatype ConnectFailure = ConnectRefused | ConnectClosed | ConnectTimedOut

datatype 'v ConnectError =
  ConnectSession SessionError
  | ConnectError (ce_Failure: ConnectFailure) (ce_Verdict: "'v option") (ce_Reason: string)
  | ConnectWait Errno

datatype ClientError = ErrCallNotSent CallError | ErrNoFurtherOutcome CallID | ErrWait Errno

record ('w, 'v, 'n) Client =
  cl_session :: "('w, 'v, 'n) Session"
  cl_policy :: WaitPolicy
  cl_backlog :: "Outcome list"

abbreviation client_core :: "('w, 'v, 'n) Client \<Rightarrow> 'w Core" where
  "client_core c \<equiv> s_core (cl_session c)"

definition on_session ::
  "(('w, 'v, 'n) Session \<Rightarrow> ('w, 'v, 'n) Session) \<Rightarrow> ('w, 'v, 'n) Client \<Rightarrow> ('w, 'v, 'n) Client" where
  "on_session f c = c\<lparr>cl_session := f (cl_session c)\<rparr>"

text \<open>\<open>time.Now()\<close>, read through the link of a session.\<close>

definition read_clock :: "('v, 'n) Net \<Rightarrow> ('w, 'v, 'n) Session \<Rightarrow> gotime \<times> ('w, 'v, 'n) Session" where
  "read_clock net s =
    (case s_link s of (transport, n) \<Rightarrow>
       (case net_Now net n of (now, n) \<Rightarrow> (now, s\<lparr>s_link := (transport, n)\<rparr>)))"

subsection \<open>Operations\<close>

definition Pump :: "('v, 'n) Net \<Rightarrow> ('w, 'v, 'n) Client \<Rightarrow> ('w, 'v, 'n) Client option" where
  "Pump net c =
    (case read_clock net (cl_session c) of (now, s) \<Rightarrow>
       (case Session_Tick net now s of
          None \<Rightarrow> None
        | Some s \<Rightarrow>
            (case Session_TakeOutcomes s of (outcomes, s) \<Rightarrow>
               Some (c\<lparr>cl_session := s, cl_backlog := cl_backlog c @ outcomes\<rparr>))))"

definition Client_Close :: "('v, 'n) Net \<Rightarrow> ('w, 'v, 'n) Client \<Rightarrow> ('w, 'v, 'n) Client" where
  "Client_Close net c = on_session (Session_Close net) c"

text \<open>\<open>session.Wait(policy, time.Now())\<close>.\<close>

definition client_wait ::
  "('v, 'n) Net \<Rightarrow> ('w, 'v, 'n) Client \<Rightarrow> (Errno + bool) \<times> ('w, 'v, 'n) Client" where
  "client_wait net c =
    (case read_clock net (cl_session c) of (now, s) \<Rightarrow>
       (case Session_Wait net (cl_policy c) now s of (r, s) \<Rightarrow> (r, c\<lparr>cl_session := s\<rparr>)))"

definition Client_Call ::
  "('v, 'n) Net \<Rightarrow> u32 \<Rightarrow> bytes \<Rightarrow> Ctx option \<Rightarrow> CallOptions \<Rightarrow> ('w, 'v, 'n) Client
    \<Rightarrow> ((CallError + CallID) \<times> ('w, 'v, 'n) Client) option" where
  "Client_Call net requestID body ctx options c =
    (case read_clock net (cl_session c) of (now, s) \<Rightarrow>
       (case Session_Call requestID body ctx options now s of
          (Inl err, s) \<Rightarrow> Some (Inl err, c\<lparr>cl_session := s\<rparr>)
        | (Inr call, s) \<Rightarrow> map_option (\<lambda>c. (Inr call, c)) (Pump net (c\<lparr>cl_session := s\<rparr>))))"

text \<open>The loop over the backlog: the first outcome of the call, and the backlog without it.\<close>

fun take_outcome :: "CallID \<Rightarrow> Outcome list \<Rightarrow> (Outcome \<times> Outcome list) option" where
  "take_outcome call [] = None"
| "take_outcome call (outcome # backlog) =
    (if o_Call outcome = call then Some (outcome, backlog)
     else map_option (\<lambda>(found, rest). (found, outcome # rest)) (take_outcome call backlog))"

partial_function (option) Next ::
  "('v, 'n) Net \<Rightarrow> CallID \<Rightarrow> ('w, 'v, 'n) Client \<Rightarrow> ((ClientError + Outcome) \<times> ('w, 'v, 'n) Client) option" where
  "Next net call c =
    (case take_outcome call (cl_backlog c) of
       Some (outcome, rest) \<Rightarrow> Some (Inr outcome, c\<lparr>cl_backlog := rest\<rparr>)
     | None \<Rightarrow>
         if PendingRequestID call (client_core c) = None then Some (Inl (ErrNoFurtherOutcome call), c)
         else (case client_wait net c of
             (Inl err, c) \<Rightarrow> Some (Inl (ErrWait err), c)
           | (Inr _, c) \<Rightarrow> (case Pump net c of None \<Rightarrow> None | Some c \<Rightarrow> Next net call c)))"

definition InvokeWith ::
  "('v, 'n) Net \<Rightarrow> u32 \<Rightarrow> bytes \<Rightarrow> Ctx option \<Rightarrow> CallOptions \<Rightarrow> ('w, 'v, 'n) Client
    \<Rightarrow> ((ClientError + Outcome) \<times> ('w, 'v, 'n) Client) option" where
  "InvokeWith net requestID body ctx options c =
    (case Client_Call net requestID body ctx options c of
       None \<Rightarrow> None
     | Some (Inl err, c) \<Rightarrow> Some (Inl (ErrCallNotSent err), c)
     | Some (Inr call, c) \<Rightarrow> Next net call c)"

definition Invoke ::
  "('v, 'n) Net \<Rightarrow> u32 \<Rightarrow> bytes \<Rightarrow> ('w, 'v, 'n) Client
    \<Rightarrow> ((ClientError + Outcome) \<times> ('w, 'v, 'n) Client) option" where
  "Invoke net requestID body c = InvokeWith net requestID body None DefaultCallOptions c"

text \<open>The loop of \<open>Collect\<close>, with the outcomes so far; called with none.\<close>

partial_function (option) Collect ::
  "('v, 'n) Net \<Rightarrow> CallID \<Rightarrow> Outcome list \<Rightarrow> ('w, 'v, 'n) Client
    \<Rightarrow> ((Outcome list \<times> ClientError option) \<times> ('w, 'v, 'n) Client) option" where
  "Collect net call outcomes c =
    (case Next net call c of
       None \<Rightarrow> None
     | Some (Inl err, c) \<Rightarrow> Some ((outcomes, Some err), c)
     | Some (Inr outcome, c) \<Rightarrow>
         if Outcome_Terminates outcome then Some ((outcomes @ [outcome], None), c)
         else Collect net call (outcomes @ [outcome]) c)"

datatype SendError = SendFailed CallError | SendWait Errno

partial_function (option) Client_SendItem ::
  "('v, 'n) Net \<Rightarrow> CallID \<Rightarrow> bytes \<Rightarrow> ('w, 'v, 'n) Client
    \<Rightarrow> (SendError option \<times> ('w, 'v, 'n) Client) option" where
  "Client_SendItem net call body c =
    (case SendItem call body (client_core c) of (err, core) \<Rightarrow>
       let c = on_session (with_core (\<lambda>_. core)) c in
       if err \<noteq> Some ErrNoCredit \<and> err \<noteq> Some ErrCongested then
         map_option (\<lambda>c. (map_option SendFailed err, c)) (Pump net c)
       else if Session_Closed net (cl_session c) then Some (Some (SendFailed ErrNotReady), c)
       else (case client_wait net c of
           (Inl waitErr, c) \<Rightarrow> Some (Some (SendWait waitErr), c)
         | (Inr _, c) \<Rightarrow> (case Pump net c of None \<Rightarrow> None | Some c \<Rightarrow> Client_SendItem net call body c)))"

definition Client_CloseSend ::
  "('v, 'n) Net \<Rightarrow> CallID \<Rightarrow> ('w, 'v, 'n) Client \<Rightarrow> (CallError option \<times> ('w, 'v, 'n) Client) option" where
  "Client_CloseSend net call c =
    (case CloseSend call (client_core c) of (err, core) \<Rightarrow>
       map_option (\<lambda>c. (err, c)) (Pump net (on_session (with_core (\<lambda>_. core)) c)))"

definition Client_Grant ::
  "('v, 'n) Net \<Rightarrow> CallID \<Rightarrow> u32 \<Rightarrow> ('w, 'v, 'n) Client \<Rightarrow> (CallError option \<times> ('w, 'v, 'n) Client) option" where
  "Client_Grant net call items c =
    (case Core_Grant call items (client_core c) of (err, core) \<Rightarrow>
       map_option (\<lambda>c. (err, c)) (Pump net (on_session (with_core (\<lambda>_. core)) c)))"

definition Client_Cancel ::
  "('v, 'n) Net \<Rightarrow> CallID \<Rightarrow> ('w, 'v, 'n) Client \<Rightarrow> ('w, 'v, 'n) Client option" where
  "Client_Cancel net call c = Pump net (on_session (with_core (Core_Cancel call)) c)"

subsection \<open>Connecting\<close>

text \<open>The loop of \<open>Connect\<close>, until \<open>giveUp\<close>.\<close>

partial_function (option) connect_loop ::
  "('v, 'n) Net \<Rightarrow> gotime \<Rightarrow> ('w, 'v, 'n) Client
    \<Rightarrow> (('v ConnectError option) \<times> ('w, 'v, 'n) Client) option" where
  "connect_loop net giveUp client =
    (case Pump net client of
       None \<Rightarrow> None
     | Some client \<Rightarrow>
         if Session_Ready (cl_session client) then Some (None, client)
         else (case Refusal (cl_session client) of
           Some verdict \<Rightarrow> Some (Some (ConnectError ConnectRefused (Some verdict)
             (''rpcnet: the handshake failed: '' @ net_Verdict net verdict)), Client_Close net client)
         | None \<Rightarrow>
             if Session_Closed net (cl_session client) then
               Some (Some (ConnectError ConnectClosed None ''rpcnet: the server closed the session''),
                 Client_Close net client)
             else (case read_clock net (cl_session client) of (now, s) \<Rightarrow>
               let client = client\<lparr>cl_session := s\<rparr> in
               if \<not> Before now giveUp then
                 Some (Some (ConnectError ConnectTimedOut None ''rpcnet: no handshake before the timeout''),
                   Client_Close net client)
               else (case client_wait net client of
                   (Inl err, client) \<Rightarrow> Some (Some (ConnectWait err), Client_Close net client)
                 | (Inr _, client) \<Rightarrow> connect_loop net giveUp client))))"

definition Connect ::
  "('v, 'n) Net \<Rightarrow> 'n link \<Rightarrow> u32 list \<Rightarrow> 'w Registry \<Rightarrow> duration \<Rightarrow> Config \<Rightarrow> WaitPolicy \<Rightarrow> 'w
    \<Rightarrow> ('v ConnectError \<times> 'n link + 'v ConnectError option \<times> ('w, 'v, 'n) Client) option" where
  "Connect net transport schema registry timeout config policy w =
    (case NewSession net transport schema registry RoleClient config w of
       (Inl err, (t, n)) \<Rightarrow> Some (Inl (ConnectSession err, Transport_Close (net_Sys net) t n))
     | (Inr session, _) \<Rightarrow>
         (case read_clock net session of (now, session) \<Rightarrow>
            map_option Inr (connect_loop net (Time_Add now timeout)
              \<lparr>cl_session = session, cl_policy = policy_normalized policy, cl_backlog = []\<rparr>)))"

subsection \<open>The connection loop of the server\<close>

text \<open>The observer and the flag that \<open>Stop\<close> sets are parts of the world outside.\<close>

record 'o ServerObserver =
  so_Opened :: "nat \<Rightarrow> 'o \<Rightarrow> 'o"
  so_Outcome :: "nat \<Rightarrow> Outcome \<Rightarrow> 'o \<Rightarrow> 'o"
  so_Plain :: "nat \<Rightarrow> PlainMessage \<Rightarrow> 'o \<Rightarrow> 'o"
  so_Closed :: "nat \<Rightarrow> 'o \<Rightarrow> 'o"

definition NopObserver :: "'o ServerObserver" where
  "NopObserver = \<lparr>so_Opened = \<lambda>_ o'. o', so_Outcome = \<lambda>_ _ o'. o', so_Plain = \<lambda>_ _ o'. o', so_Closed = \<lambda>_ o'. o'\<rparr>"

record ('w, 'n, 'o) Server =
  sv_schema :: "u32 list"
  sv_registry :: "'w Registry"
  sv_config :: Config
  sv_policy :: WaitPolicy
  sv_observer :: "'o ServerObserver"
  sv_configure :: "('w Core \<Rightarrow> 'w Core) option"
  sv_stopped :: "'n link \<Rightarrow> bool"

definition report ::
  "('w, 'n, 'o) Server \<Rightarrow> nat \<Rightarrow> ('w, 'v, 'n) Session \<Rightarrow> 'o \<Rightarrow> ('w, 'v, 'n) Session \<times> 'o" where
  "report server connection session observed =
    (case Session_TakeOutcomes session of (outcomes, session) \<Rightarrow>
       let observed = fold (so_Outcome (sv_observer server) connection) outcomes observed in
       (case TakePlain session of (messages, session) \<Rightarrow>
          (session, fold (so_Plain (sv_observer server) connection) messages observed)))"

partial_function (option) serve_loop ::
  "('v, 'n) Net \<Rightarrow> ('w, 'n, 'o) Server \<Rightarrow> nat \<Rightarrow> ('w, 'v, 'n) Session \<Rightarrow> 'o
    \<Rightarrow> (('w, 'v, 'n) Session \<times> 'o) option" where
  "serve_loop net server connection session observed =
    (if sv_stopped server (s_link session) then Some (session, observed)
     else (case read_clock net session of (now, session) \<Rightarrow>
       (case Session_Tick net now session of
          None \<Rightarrow> None
        | Some session \<Rightarrow>
            (case report server connection session observed of (session, observed) \<Rightarrow>
               if Session_Closed net session then Some (session, observed)
               else (case read_clock net session of (now, session) \<Rightarrow>
                 (case Session_Wait net (sv_policy server) now session of
                    (Inl err, session) \<Rightarrow> Some (session, observed)
                  | (Inr _, session) \<Rightarrow> serve_loop net server connection session observed))))))"

definition serve ::
  "('v, 'n) Net \<Rightarrow> ('w, 'n, 'o) Server \<Rightarrow> nat \<Rightarrow> 'n link \<Rightarrow> 'w \<Rightarrow> 'o
    \<Rightarrow> (('n link + ('w, 'v, 'n) Session) \<times> 'o) option" where
  "serve net server connection transport w observed =
    (case NewSession net transport (sv_schema server) (sv_registry server) RoleServer (sv_config server) w of
       (Inl err, (t, n)) \<Rightarrow> Some (Inl (Transport_Close (net_Sys net) t n), observed)
     | (Inr session, _) \<Rightarrow>
         let observed = so_Opened (sv_observer server) connection observed;
             session = (case sv_configure server of None \<Rightarrow> session | Some configure \<Rightarrow> with_core configure session)
         in (case serve_loop net server connection session observed of
               None \<Rightarrow> None
             | Some (session, observed) \<Rightarrow>
                 (case report server connection (Session_Close net session) observed of
                    (session, observed) \<Rightarrow>
                      Some (Inr session, so_Closed (sv_observer server) connection observed))))"

end
