(* ===== verification/ClientRuns.thy ===== *)
theory ClientRuns
  imports Client
begin

text \<open>
  The loops of the client and of the server's connections end.  The argument is the same for each:
  a round reads the clock, the clock has advanced (\<open>clock_advances\<close>), and the time at which the
  loop gives up stays where it was: the deadline of the call, the end of the timeout, the time
  of the stop.  The rest is what a round does to the calls: those that leave the pending table are
  the ones whose outcomes come into the backlog.
\<close>

subsection \<open>Rounds keep the accounts\<close>

lemma conserves_same:
  "c_pending c' = c_pending c \<Longrightarrow> c_outcomes c' = c_outcomes c \<Longrightarrow> (core_inv c \<Longrightarrow> core_inv c') \<Longrightarrow> conserves c c'"
  by (auto simp: conserves_def pending_calls_def)

lemma conserves_SessionEnd: "conserves c (OnSessionEnd c)"
proof (cases "c_finished c")
  case True
  then show ?thesis by (simp add: OnSessionEnd_def conserving.step_refl)
next
  case False
  with core_inv_SessionEnd [of c] OnSessionEnd_effect(1,2) [OF False] show ?thesis
    by (simp add: conserves_def pending_calls_def mset_sortedKeys)
qed

lemma conserves_OnReady: "conserves c (OnReady c)"
  by (rule conserves_same) (simp_all add: OnReady_def core_inv_def Core_Role_def)

lemma conserves_session_event: "conserves (s_core s) (s_core (session_event now event s))"
proof (cases event)
  case (EventMessage m p)
  obtain mine c where o: "OnMessage m p now (s_core s) = (mine, c)" by fastforce
  from safe_conserves [OF safe_OnMessage [OF o]] o EventMessage show ?thesis by (simp add: Let_def)
qed (simp_all add: with_core_def conserves_SessionEnd conserves_OnReady conserving.step_refl)

interpretation session_conserving: preorder_steps "\<lambda>s t. conserves (s_core s) (s_core t)"
  by unfold_locales (auto intro: conserving.step_refl conserving.step_trans)

lemma conserves_Core_Drain: "Core_Drain sink c s = Some (c', s') \<Longrightarrow> conserves c c'"
  using Core_Drain_keeps [of sink c s c' s']
  by (auto simp: Core_Drain_def split: option.splits intro!: conserves_same)

lemma Session_TickE:
  assumes "Session_Tick net now s = Some s'"
  obtains events link c link' where "net_Tick net now (s_link s) = (events, link)"
    and "Core_Drain (session_sink net)
      (Tick now (s_core (fold (session_event now) events (s\<lparr>s_link := link\<rparr>)))) link = Some (c, link')"
    and "s_core s' = c" and "s_link s' = link'"
proof -
  obtain events link where t: "net_Tick net now (s_link s) = (events, link)"
    by (metis prod.collapse)
  have l: "s_link (fold (session_event now) es u) = s_link u" for es and u :: "('a, 'b, 'c) Session"
  proof (induction es arbitrary: u)
    case (Cons e es)
    have "s_link (session_event now e u) = s_link u"
      by (cases e) (auto simp: with_core_def Let_def split: prod.splits)
    with Cons show ?case by simp
  qed simp
  with assms t show ?thesis
    by (intro that [of events link]) (auto simp: Session_Tick_def Let_def with_core_def split: option.splits)
qed

lemma conserves_Session_Tick:
  assumes "Session_Tick net now s = Some s'"
  shows "conserves (s_core s) (s_core s')"
proof (rule Session_TickE [OF assms])
  fix events link c link'
  let ?u = "fold (session_event now) events (s\<lparr>s_link := link\<rparr>)"
  assume d: "Core_Drain (session_sink net) (Tick now (s_core ?u)) link = Some (c, link')" "s_core s' = c"
  have "conserves (s_core (s\<lparr>s_link := link\<rparr>)) (s_core ?u)"
    by (rule session_conserving.step_fold) (rule conserves_session_event)
  then have "conserves (s_core s) (s_core ?u)" by simp
  moreover have "conserves (s_core ?u) c"
    using conserving.step_trans [OF conserves_Tick conserves_Core_Drain [OF d(1)]] .
  ultimately show ?thesis unfolding d(2) by (rule conserving.step_trans)
qed

subsection \<open>Rounds keep the deadlines\<close>

lemma typed_session_event: "typed_step (s_core s) (s_core (session_event now event s))"
proof (cases event)
  case (EventMessage m p)
  obtain mine c where o: "OnMessage m p now (s_core s) = (mine, c)" by fastforce
  from typed_OnMessage [OF o] o EventMessage show ?thesis by (simp add: Let_def)
next
  case EventReady
  then show ?thesis by (auto simp: with_core_def OnReady_def intro: typed_same)
qed (simp_all add: with_core_def typed_SessionEnd typing.step_refl)

interpretation session_typing: preorder_steps "\<lambda>s t. typed_step (s_core s) (s_core t)"
  by unfold_locales (auto intro: typing.step_refl typing.step_trans)

text \<open>After a tick of the session a call that is still pending has its old deadline, which is later.\<close>

lemma Session_Tick_pending:
  assumes "Session_Tick net now s = Some s'" and "fmlookup (c_pending (s_core s')) k = Some r'"
  shows "\<exists>r. fmlookup (c_pending (s_core s)) k = Some r \<and> w_deadline r = w_deadline r'
    \<and> (w_deadline r' = 0 \<or> now < w_deadline r')"
proof (rule Session_TickE [OF assms(1)])
  fix events link c link'
  let ?u = "fold (session_event now) events (s\<lparr>s_link := link\<rparr>)"
  assume d: "Core_Drain (session_sink net) (Tick now (s_core ?u)) link = Some (c, link')" "s_core s' = c"
  have "c_pending c = c_pending (Tick now (s_core ?u))" using Core_Drain_settings [OF d(1)] by simp
  with assms(2) d(2) have l: "fmlookup (c_pending (Tick now (s_core ?u))) k = Some r'" by simp
  have "typed_step (s_core (s\<lparr>s_link := link\<rparr>)) (s_core ?u)"
    by (rule session_typing.step_fold) (rule typed_session_event)
  moreover have "fmlookup (c_pending (s_core ?u)) k = Some r'"
    using l by (simp add: Tick_pending split: if_splits)
  ultimately have "\<exists>r. fmlookup (c_pending (s_core s)) k = Some r \<and> w_deadline r = w_deadline r'"
    unfolding typed_step_def keeps_fixed_def fixed_part_def by fastforce
  moreover have "w_deadline r' = 0 \<or> now < w_deadline r'"
    using Tick_not_overdue [of now "s_core ?u" k] l by (auto simp: overdue_def)
  ultimately show ?thesis by blast
qed

subsection \<open>The clock\<close>

text \<open>\<open>\<tau> n\<close> is the last reading of the clock: every reading is later, and nothing turns it back.\<close>

definition clock_advances :: "('v, 'n) Net \<Rightarrow> ('n \<Rightarrow> gotime) \<Rightarrow> bool" where
  "clock_advances net \<tau> \<longleftrightarrow>
    (\<forall>n. \<tau> n < fst (net_Now net n) \<and> fst (net_Now net n) \<le> \<tau> (snd (net_Now net n)))
    \<and> (\<forall>now l. \<tau> (snd l) \<le> \<tau> (snd (snd (net_Tick net now l))))
    \<and> (\<forall>m p l. \<tau> (snd l) \<le> \<tau> (snd (snd (net_Send net m p l))))
    \<and> (\<forall>w d n. \<tau> n \<le> \<tau> (snd (sys_poll (net_Sys net) w d n)))"

definition last_reading :: "('n \<Rightarrow> gotime) \<Rightarrow> ('w, 'v, 'n) Session \<Rightarrow> gotime" where
  "last_reading \<tau> s = \<tau> (snd (s_link s))"

lemma clock_advancesD:
  assumes "clock_advances net \<tau>"
  shows "\<tau> n < fst (net_Now net n)" "fst (net_Now net n) \<le> \<tau> (snd (net_Now net n))"
    and "\<tau> (snd l) \<le> \<tau> (snd (snd (net_Tick net now l)))"
    and "\<tau> (snd l) \<le> \<tau> (snd (snd (net_Send net m p l)))"
    and "\<tau> n \<le> \<tau> (snd (sys_poll (net_Sys net) w d n))"
  using assms unfolding clock_advances_def by blast+

lemma read_clock_later:
  assumes "clock_advances net \<tau>" and "read_clock net s = (now, s')"
  shows "last_reading \<tau> s < now \<and> now \<le> last_reading \<tau> s' \<and> s_core s' = s_core s
    \<and> fst (s_link s') = fst (s_link s)"
proof -
  obtain t n where l: "s_link s = (t, n)" by fastforce
  with assms(2) clock_advancesD(1,2) [OF assms(1), of n] show ?thesis
    by (auto simp: read_clock_def last_reading_def split: prod.splits)
qed

lemma session_sink_later:
  assumes "clock_advances net \<tau>" and "session_sink net f l = (d, l')"
  shows "\<tau> (snd l) \<le> \<tau> (snd l')"
proof -
  have "l' = snd (net_Send net (og_MessageID f) (og_Payload f) l)"
    using assms(2) by (simp add: session_sink_def split: prod.splits)
  then show ?thesis using clock_advancesD(4) [OF assms(1)] by simp
qed

interpretation clock_kept: drain_rule "session_sink net" "\<lambda>b l. clock_advances net \<tau> \<longrightarrow> t \<le> \<tau> (snd l)"
  for net \<tau> t
  by unfold_locales (auto dest: session_sink_later)

lemma Session_Tick_later:
  assumes "clock_advances net \<tau>" and "Session_Tick net now s = Some s'"
  shows "last_reading \<tau> s \<le> last_reading \<tau> s'"
proof (rule Session_TickE [OF assms(2)])
  fix events link c link'
  let ?d = "Tick now (s_core (fold (session_event now) events (s\<lparr>s_link := link\<rparr>)))"
  assume t: "net_Tick net now (s_link s) = (events, link)"
    and d: "Core_Drain (session_sink net) ?d link = Some (c, link')" and l: "s_link s' = link'"
  obtain b where "Outbox_Drain (session_sink net) (c_outbox ?d) link = Some (b, link')"
    using d by (auto simp: Core_Drain_def split: option.splits)
  from clock_kept.Drain_P [OF this, of \<tau> "\<tau> (snd link)"] assms(1) have "\<tau> (snd link) \<le> \<tau> (snd link')"
    by simp
  moreover have "\<tau> (snd (s_link s)) \<le> \<tau> (snd link)"
    using clock_advancesD(3) [OF assms(1), of "s_link s" now] t by simp
  ultimately show ?thesis using l by (simp add: last_reading_def)
qed

lemma Session_Wait_later:
  assumes "clock_advances net \<tau>" and "Session_Wait net policy now s = (r, s')"
  shows "last_reading \<tau> s \<le> last_reading \<tau> s' \<and> s_core s' = s_core s"
proof -
  obtain t n where l: "s_link s = (t, n)" by fastforce
  have "\<tau> n \<le> \<tau> (snd (waitReady (net_Sys net) w d n))" for w d
    using clock_advancesD(5) [OF assms(1), of n w "poll_millis d"]
    by (auto simp: waitReady_def split: prod.splits sum.splits option.splits)
  then have "\<tau> n \<le> \<tau> (snd (WaitReady (net_Sys net) w d t n))" for w d by (simp add: WaitReady_def)
  with assms(2) l show ?thesis
    by (auto simp: Session_Wait_def Let_def last_reading_def split: prod.splits) (metis snd_conv)
qed

subsection \<open>Rounds of a client\<close>

abbreviation client_clock :: "('n \<Rightarrow> gotime) \<Rightarrow> ('w, 'v, 'n) Client \<Rightarrow> gotime" where
  "client_clock \<tau> c \<equiv> last_reading \<tau> (cl_session c)"

lemma client_wait_later:
  assumes "clock_advances net \<tau>" and "client_wait net c = (r, c')"
  shows "client_clock \<tau> c \<le> client_clock \<tau> c' \<and> client_core c' = client_core c
    \<and> cl_backlog c' = cl_backlog c"
proof -
  obtain now s where k: "read_clock net (cl_session c) = (now, s)" by fastforce
  obtain s' where w: "Session_Wait net (cl_policy c) now s = (r, s')" "c' = c\<lparr>cl_session := s'\<rparr>"
    using assms(2) k by (auto simp: client_wait_def split: prod.splits)
  from read_clock_later [OF assms(1) k] Session_Wait_later [OF assms(1) w(1)] w(2) show ?thesis by simp
qed

lemma PumpE:
  assumes "clock_advances net \<tau>" and "Pump net c = Some c'"
  obtains now where "client_clock \<tau> c < now" and "now \<le> client_clock \<tau> c'"
    and "core_inv (client_core c) \<Longrightarrow> core_inv (client_core c')"
    and "\<exists>new. cl_backlog c' = cl_backlog c @ c_outcomes (client_core c) @ new
      \<and> mset (terminals new) + pending_calls (client_core c') = pending_calls (client_core c)"
    and "\<And>k r'. fmlookup (c_pending (client_core c')) k = Some r'
      \<Longrightarrow> \<exists>r. fmlookup (c_pending (client_core c)) k = Some r \<and> w_deadline r = w_deadline r'
        \<and> (w_deadline r' = 0 \<or> now < w_deadline r')"
proof -
  obtain now s where k: "read_clock net (cl_session c) = (now, s)" by fastforce
  obtain t where t: "Session_Tick net now s = Some t"
    and c': "cl_session c' = t\<lparr>s_core := (s_core t)\<lparr>c_outcomes := []\<rparr>\<rparr>"
      "cl_backlog c' = cl_backlog c @ c_outcomes (s_core t)"
    using assms(2) k by (auto simp: Pump_def Session_TakeOutcomes_def TakeOutcomes_def
        split: option.splits)
  note 1 = read_clock_later [OF assms(1) k] and 2 = Session_Tick_later [OF assms(1) t]
    and 3 = conserves_Session_Tick [OF t]
  obtain new where n: "c_outcomes (s_core t) = c_outcomes (s_core s) @ new"
    "mset (terminals new) + pending_calls (s_core t) = pending_calls (s_core s)"
    using 3 by (auto simp: conserves_def)
  have i: "core_inv (c\<lparr>c_outcomes := []\<rparr>) = core_inv c" for c :: "'c Core"
    by (simp add: core_inv_def Core_Role_def)
  show ?thesis
  proof (rule that [of now])
    show "client_clock \<tau> c < now" "now \<le> client_clock \<tau> c'"
      using 1 2 c'(1) by (simp_all add: last_reading_def)
    show "core_inv (client_core c) \<Longrightarrow> core_inv (client_core c')"
      using 1 3 c'(1) by (simp add: conserves_def i)
    show "\<exists>new. cl_backlog c' = cl_backlog c @ c_outcomes (client_core c) @ new
      \<and> mset (terminals new) + pending_calls (client_core c') = pending_calls (client_core c)"
      using n 1 c' by (intro exI [of _ new]) (simp add: pending_calls_def)
    show "\<exists>r. fmlookup (c_pending (client_core c)) k = Some r \<and> w_deadline r = w_deadline r'
        \<and> (w_deadline r' = 0 \<or> now < w_deadline r')"
      if "fmlookup (c_pending (client_core c')) k = Some r'" for k r'
      using that Session_Tick_pending [OF t, of k r'] 1 c'(1) by simp
  qed
qed

lemma Pump_returns:
  assumes "core_inv (client_core c)"
  obtains c' where "Pump net c = Some c'"
proof -
  obtain now s where k: "read_clock net (cl_session c) = (now, s)" by fastforce
  then have "core_inv (s_core s)" using assms by (auto simp: read_clock_def split: prod.splits)
  then obtain t where t: "Session_Tick net now s = Some t" by (rule Session_Tick_returns)
  obtain os u where "Session_TakeOutcomes t = (os, u)" by fastforce
  with k t show ?thesis by (intro that) (simp add: Pump_def)
qed

subsection \<open>Waiting for an outcome\<close>

lemma take_outcome_Some:
  "take_outcome k xs = Some (x, ys) \<Longrightarrow>
    \<exists>before after. xs = before @ x # after \<and> ys = before @ after \<and> o_Call x = k
      \<and> (\<forall>y \<in> set before. o_Call y \<noteq> k)"
proof (induction xs arbitrary: ys)
  case (Cons a xs)
  show ?case
  proof (cases "o_Call a = k")
    case True
    with Cons.prems show ?thesis by (intro exI [of _ "[]"] exI [of _ xs]) simp
  next
    case False
    with Cons.prems obtain zs where z: "take_outcome k xs = Some (x, zs)" "ys = a # zs" by auto
    from Cons.IH [OF z(1)] obtain u v where "xs = u @ x # v" "zs = u @ v" "o_Call x = k"
      "\<forall>y \<in> set u. o_Call y \<noteq> k" by blast
    with z(2) False show ?thesis by (intro exI [of _ "a # u"] exI [of _ v]) simp
  qed
qed simp

lemma take_outcome_None: "take_outcome k xs = None \<longleftrightarrow> (\<forall>x \<in> set xs. o_Call x \<noteq> k)"
  by (induction xs) auto

text \<open>A call that a round completes has its outcome in the backlog.\<close>

definition answered_in :: "CallID \<Rightarrow> ('w, 'v, 'n) Client \<Rightarrow> bool" where
  "answered_in k c \<longleftrightarrow> k |\<in>| fmdom (c_pending (client_core c)) \<or> (\<exists>x \<in> set (cl_backlog c). o_Call x = k)"

lemma pending_calls_iff: "k \<in># pending_calls c \<longleftrightarrow> k |\<in>| fmdom (c_pending c)"
  by (simp add: pending_calls_def)

lemma Pump_answered:
  assumes "clock_advances net \<tau>" and "Pump net c = Some c'" and "answered_in k c"
  shows "answered_in k c'"
proof (rule PumpE [OF assms(1,2)])
  assume "\<exists>new. cl_backlog c' = cl_backlog c @ c_outcomes (client_core c) @ new
      \<and> mset (terminals new) + pending_calls (client_core c') = pending_calls (client_core c)"
  then obtain new where n: "cl_backlog c' = cl_backlog c @ c_outcomes (client_core c) @ new"
    "mset (terminals new) + pending_calls (client_core c') = pending_calls (client_core c)" by blast
  show ?thesis
  proof (cases "\<exists>x \<in> set (cl_backlog c). o_Call x = k")
    case True
    with n(1) show ?thesis by (auto simp: answered_in_def)
  next
    case False
    with assms(3) have "k \<in># pending_calls (client_core c)" by (simp add: answered_in_def pending_calls_iff)
    with n(2) have "k \<in># mset (terminals new) \<or> k \<in># pending_calls (client_core c')"
      by (metis union_iff)
    then show ?thesis using n(1) by (auto simp: answered_in_def pending_calls_iff terminals_def)
  qed
qed

text \<open>One round of a loop that waits for a call with a deadline: it ends the wait, or time is left.\<close>

lemma wait_and_pump:
  assumes "clock_advances net \<tau>" and "core_inv (client_core c)"
    and "client_wait net c = (Inr ready, d)"
    and "\<And>r. fmlookup (c_pending (client_core c)) k = Some r \<Longrightarrow> w_deadline r = D"
    and "D \<noteq> 0" and "answered_in k c"
  obtains e where "Pump net d = Some e" and "core_inv (client_core e)" and "answered_in k e"
    and "\<And>r. fmlookup (c_pending (client_core e)) k = Some r \<Longrightarrow> w_deadline r = D"
    and "k |\<in>| fmdom (c_pending (client_core e)) \<Longrightarrow> nat (D - client_clock \<tau> e) < nat (D - client_clock \<tau> c)"
proof -
  note w = client_wait_later [OF assms(1,3)]
  have di: "core_inv (client_core d)" using w assms(2) by simp
  then obtain e where e: "Pump net d = Some e" by (rule Pump_returns)
  have da: "answered_in k d" using w assms(6) by (simp add: answered_in_def)
  show ?thesis
  proof (rule PumpE [OF assms(1) e])
    fix now
    assume n: "client_clock \<tau> d < now" "now \<le> client_clock \<tau> e"
      and i: "core_inv (client_core d) \<Longrightarrow> core_inv (client_core e)"
      and p: "\<And>k r'. fmlookup (c_pending (client_core e)) k = Some r'
      \<Longrightarrow> \<exists>r. fmlookup (c_pending (client_core d)) k = Some r \<and> w_deadline r = w_deadline r'
        \<and> (w_deadline r' = 0 \<or> now < w_deadline r')"
    have dl: "w_deadline r = D \<and> now < D" if "fmlookup (c_pending (client_core e)) k = Some r" for r
      using p [OF that] assms(4,5) w by auto
    show ?thesis
    proof (rule that [OF e i [OF di] Pump_answered [OF assms(1) e da]])
      show "w_deadline r = D" if "fmlookup (c_pending (client_core e)) k = Some r" for r
        using dl [OF that] by simp
      show "nat (D - client_clock \<tau> e) < nat (D - client_clock \<tau> c)"
        if "k |\<in>| fmdom (c_pending (client_core e))"
      proof -
        from that obtain r where "fmlookup (c_pending (client_core e)) k = Some r"
          by (auto simp: fmlookup_dom_iff)
        from dl [OF this] n w show ?thesis by simp
      qed
    qed
  qed
qed

lemma PendingRequestID_None: "PendingRequestID k c = None \<longleftrightarrow> k |\<notin>| fmdom (c_pending c)"
  by (simp add: PendingRequestID_def fmlookup_dom_iff)

text \<open>The measure of a loop over the outcomes of a call: the time left, then the outcomes at hand.\<close>

definition wait_measure :: "('n \<Rightarrow> gotime) \<Rightarrow> gotime \<Rightarrow> CallID \<Rightarrow> ('w, 'v, 'n) Client \<Rightarrow> nat \<times> nat" where
  "wait_measure \<tau> D k c =
    (if k |\<in>| fmdom (c_pending (client_core c)) then Suc (nat (D - client_clock \<tau> c)) else 0,
     length (filter (\<lambda>x. o_Call x = k) (cl_backlog c)))"

definition before_deadline :: "gotime \<Rightarrow> CallID \<Rightarrow> ('w, 'v, 'n) Client \<Rightarrow> bool" where
  "before_deadline D k c \<longleftrightarrow> core_inv (client_core c)
    \<and> (\<forall>r. fmlookup (c_pending (client_core c)) k = Some r \<longrightarrow> w_deadline r = D)"

lemma Next_from_backlog:
  assumes "take_outcome k (cl_backlog c) = Some (x, rest)"
  shows "Next net k c = Some (Inr x, c\<lparr>cl_backlog := rest\<rparr>) \<and> o_Call x = k
    \<and> (wait_measure \<tau> D k (c\<lparr>cl_backlog := rest\<rparr>), wait_measure \<tau> D k c) \<in> less_than <*lex*> less_than"
proof -
  obtain u v where "cl_backlog c = u @ x # v" "rest = u @ v" "o_Call x = k"
    using take_outcome_Some [OF assms] by blast
  with assms show ?thesis by (subst Next.simps) (simp add: wait_measure_def)
qed

lemma Next_returns:
  assumes "clock_advances net \<tau>" and "before_deadline D k c" and "D \<noteq> 0"
  shows "\<exists>r c'. Next net k c = Some (r, c') \<and> before_deadline D k c'
    \<and> (case r of Inr x \<Rightarrow> o_Call x = k
            \<and> (wait_measure \<tau> D k c', wait_measure \<tau> D k c) \<in> less_than <*lex*> less_than
       | Inl e \<Rightarrow> answered_in k c \<longrightarrow> (\<exists>errno. e = ErrWait errno))"
  using assms(2)
proof (induction "nat (D - client_clock \<tau> c)" arbitrary: c rule: less_induct)
  case less
  show ?case
  proof (cases "take_outcome k (cl_backlog c)")
    case (Some p)
    then obtain x rest where "take_outcome k (cl_backlog c) = Some (x, rest)" by (cases p) auto
    from Next_from_backlog [OF this, of net \<tau> D] less.prems show ?thesis
      by (simp add: before_deadline_def)
  next
    case None
    show ?thesis
    proof (cases "k |\<in>| fmdom (c_pending (client_core c))")
      case False
      then have "\<not> answered_in k c" using None by (auto simp: answered_in_def take_outcome_None)
      with None False less.prems show ?thesis
        by (subst Next.simps) (simp add: PendingRequestID_None)
    next
      case pend: True
      then have pr: "PendingRequestID k (client_core c) \<noteq> None" and a: "answered_in k c"
        by (simp_all add: PendingRequestID_None answered_in_def)
      obtain r d where w: "client_wait net c = (r, d)" by fastforce
      show ?thesis
      proof (cases r)
        case (Inl err)
        with client_wait_later [OF assms(1) w] less.prems have "before_deadline D k d"
          by (simp add: before_deadline_def)
        with w None pr Inl show ?thesis by (subst Next.simps) auto
      next
        case (Inr ready)
        have ci: "core_inv (client_core c)"
          and dl: "\<And>r. fmlookup (c_pending (client_core c)) k = Some r \<Longrightarrow> w_deadline r = D"
          using less.prems by (simp_all add: before_deadline_def)
        from wait_and_pump [OF assms(1) ci w [unfolded Inr] dl assms(3) a]
        obtain e where e: "Pump net d = Some e" "before_deadline D k e" "answered_in k e"
          "k |\<in>| fmdom (c_pending (client_core e)) \<Longrightarrow> nat (D - client_clock \<tau> e) < nat (D - client_clock \<tau> c)"
          unfolding before_deadline_def by metis
        have step: "Next net k c = Next net k e"
          using w Inr e(1) None pr by (subst Next.simps) auto
        have m: "(wait_measure \<tau> D k e, wait_measure \<tau> D k c) \<in> less_than <*lex*> less_than"
          using e(4) pend by (auto simp: wait_measure_def)
        have tr: "trans (less_than <*lex*> less_than)" by (simp add: trans_lex_prod)
        show ?thesis
        proof (cases "k |\<in>| fmdom (c_pending (client_core e))")
          case True
          from less.hyps [OF e(4) [OF True] e(2)] obtain r' c' where n: "Next net k e = Some (r', c')"
            "before_deadline D k c'" "case r' of Inr x \<Rightarrow> o_Call x = k
              \<and> (wait_measure \<tau> D k c', wait_measure \<tau> D k e) \<in> less_than <*lex*> less_than
            | Inl err \<Rightarrow> answered_in k e \<longrightarrow> (\<exists>errno. err = ErrWait errno)" by blast
          show ?thesis
          proof (cases r')
            case (Inl err)
            with n e(3) show ?thesis unfolding step by simp
          next
            case (Inr x)
            with n transD [OF tr _ m] show ?thesis unfolding step by simp
          qed
        next
          case False
          with e(3) have "take_outcome k (cl_backlog e) \<noteq> None"
            by (auto simp: answered_in_def take_outcome_None)
          then obtain x rest where "take_outcome k (cl_backlog e) = Some (x, rest)" by fastforce
          from Next_from_backlog [OF this, of net \<tau> D] transD [OF tr _ m] e(2) show ?thesis
            unfolding step by (fastforce simp: before_deadline_def)
        qed
      qed
    qed
  qed
qed

subsection \<open>Collecting a stream\<close>

text \<open>\<open>Collect\<close> returns; all it returns are outcomes of the call, and only the last may end it.\<close>

lemma Collect_returns:
  assumes "clock_advances net \<tau>" and "before_deadline D k c" and "D \<noteq> 0"
  shows "\<exists>got e c'. Collect net k outcomes c = Some ((outcomes @ got, e), c')
    \<and> (\<forall>x \<in> set got. o_Call x = k) \<and> (\<forall>x \<in> set (butlast got). \<not> Outcome_Terminates x)
    \<and> (e = None \<longleftrightarrow> got \<noteq> [] \<and> Outcome_Terminates (last got))"
  using assms(2)
proof (induction "wait_measure \<tau> D k c" arbitrary: c outcomes rule: wf_induct_rule
    [OF wf_lex_prod [OF wf_less_than wf_less_than]])
  case (1 c)
  from Next_returns [OF assms(1) "1.prems" assms(3)] obtain r d where n: "Next net k c = Some (r, d)"
    "before_deadline D k d" "case r of Inr x \<Rightarrow> o_Call x = k
            \<and> (wait_measure \<tau> D k d, wait_measure \<tau> D k c) \<in> less_than <*lex*> less_than
       | Inl e \<Rightarrow> answered_in k c \<longrightarrow> (\<exists>errno. e = ErrWait errno)" by blast
  show ?case
  proof (cases r)
    case (Inl e)
    with n(1) show ?thesis by (subst Collect.simps) auto
  next
    case (Inr x)
    show ?thesis
    proof (cases "Outcome_Terminates x")
      case True
      with n Inr show ?thesis by (subst Collect.simps) (auto intro!: exI [of _ "[x]"])
    next
      case False
      with n Inr have step: "Collect net k outcomes c = Collect net k (outcomes @ [x]) d"
        by (subst Collect.simps) simp
      from n(3) Inr have m: "(wait_measure \<tau> D k d, wait_measure \<tau> D k c) \<in> less_than <*lex*> less_than"
        and x: "o_Call x = k" by simp_all
      from "1.hyps" [OF m n(2)] obtain got e c' where g:
        "Collect net k ((outcomes @ [x])) d = Some (((outcomes @ [x]) @ got, e), c')"
        "\<forall>x \<in> set got. o_Call x = k" "\<forall>x \<in> set (butlast got). \<not> Outcome_Terminates x"
        "e = None \<longleftrightarrow> got \<noteq> [] \<and> Outcome_Terminates (last got)" by blast
      show ?thesis unfolding step
        using g x False by (intro exI [of _ "x # got"] exI [of _ e] exI [of _ c']) auto
    qed
  qed
qed

subsection \<open>Sending under credit\<close>

lemma SendItem_blocked:
  assumes "SendItem k body c = (Some err, c')" and "err = ErrNoCredit \<or> err = ErrCongested"
  shows "k |\<in>| fmdom (c_pending c) \<and> c_pending c' = c_pending c"
  using assms by (auto simp: SendItem_def Let_def fmlookup_dom_iff split: option.splits if_splits prod.splits bool.splits)

lemma Client_SendItem_returns:
  assumes "clock_advances net \<tau>" and "before_deadline D k c" and "D \<noteq> 0"
  shows "\<exists>err c'. Client_SendItem net k body c = Some (err, c')
    \<and> err \<noteq> Some (SendFailed ErrNoCredit) \<and> err \<noteq> Some (SendFailed ErrCongested)"
  using assms(2)
proof (induction "fst (wait_measure \<tau> D k c)" arbitrary: c rule: less_induct)
  case less
  obtain err core where s: "SendItem k body (client_core c) = (err, core)" by fastforce
  let ?c = "on_session (with_core (\<lambda>_. core)) c"
  have i: "core_inv (client_core ?c)"
    using safe_SendItem [OF s] less.prems
    by (simp add: on_session_def with_core_def safe_step_def before_deadline_def)
  show ?case
  proof (cases "err \<noteq> Some ErrNoCredit \<and> err \<noteq> Some ErrCongested")
    case True
    from i obtain d where "Pump net ?c = Some d" by (rule Pump_returns)
    with True s show ?thesis by (subst Client_SendItem.simps) (auto simp: Let_def)
  next
    case False
    then obtain x where x: "err = Some x" "x = ErrNoCredit \<or> x = ErrCongested" by auto
    note b = SendItem_blocked [OF s [unfolded x(1)] x(2)]
    have p: "k |\<in>| fmdom (c_pending (client_core ?c))" "client_clock \<tau> ?c = client_clock \<tau> c"
      using b by (simp_all add: on_session_def with_core_def last_reading_def)
    have dl: "w_deadline r = D" if "fmlookup (c_pending (client_core ?c)) k = Some r" for r
      using that b less.prems by (simp add: on_session_def with_core_def before_deadline_def)
    obtain r d where w: "client_wait net ?c = (r, d)" by fastforce
    show ?thesis
    proof (cases "Session_Closed net (cl_session ?c) \<or> (\<exists>e. r = Inl e)")
      case True
      with False s w show ?thesis by (subst Client_SendItem.simps) (auto simp: Let_def)
    next
      case open': False
      then obtain ready where r: "r = Inr ready" by (cases r) auto
      have a: "answered_in k ?c" using p(1) by (simp add: answered_in_def)
      from wait_and_pump [OF assms(1) i w [unfolded r] dl assms(3) a] obtain e where e:
        "Pump net d = Some e" "before_deadline D k e"
        "k |\<in>| fmdom (c_pending (client_core e)) \<Longrightarrow> nat (D - client_clock \<tau> e) < nat (D - client_clock \<tau> ?c)"
        unfolding before_deadline_def by metis
      have step: "Client_SendItem net k body c = Client_SendItem net k body e"
        using False s w r open' e(1) by (subst Client_SendItem.simps) (auto simp: Let_def)
      have "fst (wait_measure \<tau> D k e) < fst (wait_measure \<tau> D k c)"
        using e(3) b p(2) by (simp add: wait_measure_def)
      from less.hyps [OF this e(2)] show ?thesis unfolding step .
    qed
  qed
qed

subsection \<open>Connecting\<close>

text \<open>\<open>Connect\<close> ends by its timeout: with a client that is ready, or with an error and a closed session.\<close>

lemma SessionEnd_finished: "c_finished (OnSessionEnd c)"
  by (cases "c_finished c") (simp_all add: OnSessionEnd_effect, simp add: OnSessionEnd_def)

lemma Client_Close_finished: "c_finished (client_core (Client_Close net c))"
  by (simp add: Client_Close_def on_session_def Session_Close_def with_core_def SessionEnd_finished)

lemma connect_loop_returns:
  assumes "clock_advances net \<tau>" and "core_inv (client_core c)"
  shows "\<exists>err c'. connect_loop net giveUp c = Some (err, c')
    \<and> (case err of None \<Rightarrow> Session_Ready (cl_session c') | Some _ \<Rightarrow> c_finished (client_core c'))"
  using assms(2)
proof (induction "nat (giveUp - client_clock \<tau> c)" arbitrary: c rule: less_induct)
  case less
  from less.prems obtain d where d: "Pump net c = Some d" by (rule Pump_returns)
  have di: "core_inv (client_core d)" and dc: "client_clock \<tau> c < client_clock \<tau> d"
    using less.prems by (auto intro: PumpE [OF assms(1) d])
  obtain now s where k: "read_clock net (cl_session d) = (now, s)" by fastforce
  let ?d = "d\<lparr>cl_session := s\<rparr>"
  note now = read_clock_later [OF assms(1) k]
  obtain r e where w: "client_wait net ?d = (r, e)" by fastforce
  note we = client_wait_later [OF assms(1) w]
  show ?case
  proof (cases "Session_Ready (cl_session d) \<or> Refusal (cl_session d) \<noteq> None
      \<or> Session_Closed net (cl_session d) \<or> \<not> Before now giveUp \<or> (\<exists>err. r = Inl err)")
    case True
    with d k w show ?thesis
      by (subst connect_loop.simps, cases "Refusal (cl_session d)")
        (auto simp: Let_def Client_Close_finished)
  next
    case False
    then obtain ready where r: "r = Inr ready" by (cases r) auto
    with False d k w have step: "connect_loop net giveUp c = connect_loop net giveUp e"
      by (subst connect_loop.simps) (auto simp: Let_def)
    have "core_inv (client_core e)" using di now we by simp
    moreover have "nat (giveUp - client_clock \<tau> e) < nat (giveUp - client_clock \<tau> c)"
      using False now we dc by simp
    ultimately show ?thesis using less.hyps step by simp
  qed
qed

subsection \<open>Serving a connection\<close>

text \<open>The loop of a connection ends by the time of the stop at the latest; what every report keeps,
  the loop keeps.\<close>

lemma report_core: "report server k s o' = (s', o'') \<Longrightarrow> s_link s' = s_link s
    \<and> s_core s' = (s_core s)\<lparr>c_outcomes := []\<rparr> \<and> s_plain s' = []"
  by (auto simp: report_def Session_TakeOutcomes_def TakeOutcomes_def TakePlain_def Let_def
      split: prod.splits)

lemma serve_loop_returns:
  fixes s :: "('w, 'v, 'n) Session" and P :: "'o \<Rightarrow> bool"
  assumes "clock_advances net \<tau>" and "core_inv (s_core s)"
    and "\<And>link. T \<le> \<tau> (snd link) \<Longrightarrow> sv_stopped server link"
    and "\<And>(u :: ('w, 'v, 'n) Session) o'. P o' \<Longrightarrow> P (snd (report server k u o'))" and "P o'"
  shows "\<exists>s' o''. serve_loop net server k s o' = Some (s', o'') \<and> core_inv (s_core s') \<and> P o''"
  using assms(2,5)
proof (induction "nat (T - last_reading \<tau> s)" arbitrary: s o' rule: less_induct)
  case less
  show ?case
  proof (cases "sv_stopped server (s_link s)")
    case True
    with less.prems show ?thesis by (subst serve_loop.simps) simp
  next
    case False
    then have lt: "last_reading \<tau> s < T"
      using assms(3) [of "s_link s"] by (auto simp: last_reading_def not_le [symmetric])
    obtain now u where c1: "read_clock net s = (now, u)" by fastforce
    note n1 = read_clock_later [OF assms(1) c1]
    have "core_inv (s_core u)" using n1 less.prems by simp
    then obtain v where v: "Session_Tick net now u = Some v" by (rule Session_Tick_returns)
    have vi: "core_inv (s_core v)"
      using conserves_Session_Tick [OF v] \<open>core_inv (s_core u)\<close> by (simp add: conserves_def)
    obtain x p where x: "report server k v o' = (x, p)" by fastforce
    note xr = report_core [OF x]
    have px: "P p" using assms(4) [OF less.prems(2), of v] x by simp
    have xi: "core_inv (s_core x)" using vi xr by (simp add: core_inv_def Core_Role_def)
    obtain now' y where c2: "read_clock net x = (now', y)" by fastforce
    note n2 = read_clock_later [OF assms(1) c2]
    obtain r z where w: "Session_Wait net (sv_policy server) now' y = (r, z)" by fastforce
    note wz = Session_Wait_later [OF assms(1) w]
    have zi: "core_inv (s_core z)" using xi n2 wz by simp
    show ?thesis
    proof (cases "Session_Closed net x \<or> (\<exists>err. r = Inl err)")
      case True
      with False c1 v x c2 w xi zi px show ?thesis by (subst serve_loop.simps) auto
    next
      case go: False
      then obtain ready where r: "r = Inr ready" by (cases r) auto
      with False go c1 v x c2 w have step: "serve_loop net server k s o' = serve_loop net server k z p"
        by (subst serve_loop.simps) auto
      have "last_reading \<tau> s < last_reading \<tau> z"
        using n1 Session_Tick_later [OF assms(1) v] xr n2 wz by (simp add: last_reading_def)
      then have "nat (T - last_reading \<tau> z) < nat (T - last_reading \<tau> s)" using lt by simp
      from less.hyps [OF this zi px] show ?thesis unfolding step .
    qed
  qed
qed

subsection \<open>What the observer of a server sees\<close>

datatype observation = Opened | Observed Outcome | Heard PlainMessage | Closed

definition log_observer :: "(nat \<times> observation) list ServerObserver" where
  "log_observer = \<lparr>so_Opened = \<lambda>k log. log @ [(k, Opened)], so_Outcome = \<lambda>k x log. log @ [(k, Observed x)],
     so_Plain = \<lambda>k m log. log @ [(k, Heard m)], so_Closed = \<lambda>k log. log @ [(k, Closed)]\<rparr>"

lemma fold_log: "fold (\<lambda>x log. log @ [f x]) xs log = log @ map f xs"
  by (induction xs arbitrary: log) simp_all

lemma report_log:
  assumes "sv_observer server = log_observer"
  shows "snd (report server k s log) = log @ map (\<lambda>x. (k, Observed x)) (c_outcomes (s_core s))
    @ map (\<lambda>m. (k, Heard m)) (s_plain s)"
  by (simp add: report_def assms log_observer_def fold_log Session_TakeOutcomes_def TakeOutcomes_def
      TakePlain_def Let_def)

text \<open>What \<open>Configuring\<close> does to the core of a new connection keeps its invariant.\<close>

definition configure_ok :: "('w, 'n, 'o) Server \<Rightarrow> bool" where
  "configure_ok server \<longleftrightarrow>
    (case sv_configure server of None \<Rightarrow> True | Some configure \<Rightarrow> \<forall>c. core_inv c \<longrightarrow> core_inv (configure c))"

definition reports_of :: "nat \<Rightarrow> (nat \<times> observation) list \<Rightarrow> (nat \<times> observation) list \<Rightarrow> bool" where
  "reports_of k before log \<longleftrightarrow> (\<exists>mid. log = before @ mid
    \<and> (\<forall>x \<in> set mid. fst x = k \<and> snd x \<noteq> Opened \<and> snd x \<noteq> Closed))"

lemma reports_of_report:
  assumes "sv_observer server = log_observer" and "reports_of k before log"
  shows "reports_of k before (snd (report server k s log))"
proof -
  obtain mid where "log = before @ mid" "\<forall>x \<in> set mid. fst x = k \<and> snd x \<noteq> Opened \<and> snd x \<noteq> Closed"
    using assms(2) by (auto simp: reports_of_def)
  then show ?thesis unfolding reports_of_def report_log [OF assms(1)]
    by (intro exI [of _ "mid @ map (\<lambda>x. (k, Observed x)) (c_outcomes (s_core s))
      @ map (\<lambda>m. (k, Heard m)) (s_plain s)"]) auto
qed

lemma serve_returns:
  assumes "clock_advances net \<tau>" and "\<And>link. T \<le> \<tau> (snd link) \<Longrightarrow> sv_stopped server link"
    and "sv_observer server = log_observer" and "configure_ok server"
    and "NewSession net link (sv_schema server) (sv_registry server) RoleServer (sv_config server) w
      = (Inr s, link')"
  shows "\<exists>s' mid. serve net server k link w log
      = Some (Inr s', log @ (k, Opened) # mid @ [(k, Closed)])
    \<and> (\<forall>x \<in> set mid. fst x = k \<and> snd x \<noteq> Opened \<and> snd x \<noteq> Closed)
    \<and> c_finished (s_core s') \<and> c_outcomes (s_core s') = [] \<and> s_plain s' = []"
proof -
  let ?log = "log @ [(k, Opened)]"
  let ?s = "case sv_configure server of None \<Rightarrow> s | Some configure \<Rightarrow> with_core configure s"
  have "core_inv (s_core s)"
    using assms(5) by (auto simp: NewSession_def core_inv_new split: option.splits prod.splits)
  then have i: "core_inv (s_core ?s)"
    using assms(4) by (auto simp: configure_ok_def with_core_def split: option.splits)
  have o: "so_Opened (sv_observer server) k log = ?log" by (simp add: assms(3) log_observer_def)
  have start: "reports_of k ?log ?log" by (simp add: reports_of_def)
  from serve_loop_returns [OF assms(1) i assms(2), where P = "reports_of k ?log",
      OF _ reports_of_report [OF assms(3)] start]
  obtain u p where u: "serve_loop net server k ?s ?log = Some (u, p)" "reports_of k ?log p" by blast
  obtain s' q where r: "report server k (Session_Close net u) p = (s', q)" by fastforce
  have q: "reports_of k ?log q" using reports_of_report [OF assms(3) u(2), of "Session_Close net u"] r by simp
  then obtain mid where m: "q = ?log @ mid"
    "\<forall>x \<in> set mid. fst x = k \<and> snd x \<noteq> Opened \<and> snd x \<noteq> Closed" by (auto simp: reports_of_def)
  have e: "serve net server k link w log = Some (Inr s', q @ [(k, Closed)])"
    using assms(5) u(1) r by (simp add: serve_def o Let_def)
      (simp add: assms(3) log_observer_def)
  have f: "c_finished (s_core s')" "c_outcomes (s_core s') = []" "s_plain s' = []"
    using report_core [OF r] by (simp_all add: Session_Close_def with_core_def SessionEnd_finished)
  show ?thesis using e m f by (intro exI [of _ s'] exI [of _ mid]) simp
qed

end
