(* ===== verification/ServerLife.thy ===== *)
theory ServerLife
  imports ClientRuns
begin

text \<open>
  The life of a server (\<open>rpcnet/server.go\<close>): binding, the goroutine of \<open>Run\<close>, one goroutine for each
  connection, \<open>Stop\<close> and the wait group, as steps that interleave in every order.  The places of a
  goroutine are constructors; every load and store of the flag \<open>stopped\<close>, every \<open>Accept\<close> and every
  change of the wait group is a step.  One round of a connection (tick, report, wait) is a step
  too: the handlers' world and the observer are shared by the connections, and an application
  has to synchronise its use of them.  What a connection does to them in one round is what
  \<open>serve\<close> of theory Client does (\<open>serve_alone\<close>).
\<close>

subsection \<open>Binding\<close>

datatype BindError = BindRegistry RegistryError | BindNet string

text \<open>\<open>net.ResolveTCPAddr\<close> and \<open>net.ListenTCP\<close> are parameters.  The flag starts as false.\<close>

definition Bind ::
  "(string \<Rightarrow> string + 'a) \<Rightarrow> ('a \<Rightarrow> string + 'l) \<Rightarrow> string \<Rightarrow> u32 list \<Rightarrow> 'w Registry \<Rightarrow> Config
    \<Rightarrow> BindError + ('l \<times> ('w, 'n, 'o) Server)" where
  "Bind resolve listen address schema registry config =
    (case RequireDeclared registry schema of
       Some err \<Rightarrow> Inl (BindRegistry err)
     | None \<Rightarrow>
         (case resolve address of
            Inl err \<Rightarrow> Inl (BindNet err)
          | Inr resolved \<Rightarrow>
              (case listen resolved of
                 Inl err \<Rightarrow> Inl (BindNet err)
               | Inr listener \<Rightarrow> Inr (listener,
                   \<lparr>sv_schema = schema, sv_registry = registry, sv_config = config,
                    sv_policy = DefaultWaitPolicy, sv_observer = NopObserver, sv_configure = None,
                    sv_stopped = \<lambda>_. False\<rparr>))))"

definition WithPolicy :: "WaitPolicy \<Rightarrow> ('w, 'n, 'o) Server \<Rightarrow> ('w, 'n, 'o) Server" where
  "WithPolicy policy server = server\<lparr>sv_policy := policy_normalized policy\<rparr>"

definition Observing :: "'o ServerObserver \<Rightarrow> ('w, 'n, 'o) Server \<Rightarrow> ('w, 'n, 'o) Server" where
  "Observing observer server = server\<lparr>sv_observer := observer\<rparr>"

definition Configuring :: "('w Core \<Rightarrow> 'w Core) \<Rightarrow> ('w, 'n, 'o) Server \<Rightarrow> ('w, 'n, 'o) Server" where
  "Configuring configure server = server\<lparr>sv_configure := Some configure\<rparr>"

subsection \<open>State\<close>

text \<open>The places of \<open>Run\<close>: before the load of the flag in the head of the loop, in \<open>AcceptTCP\<close>, after an
  error (with or without \<open>net.ErrClosed\<close>), with a connection before the second load of the flag,
  with a connection that is to be counted, returned.  A connection is the link that its
  \<open>NewSocketTransport\<close> makes, or \<open>None\<close> where that fails.\<close>

datatype 'n accepting = RunHead | RunAccept | RunFailed bool | RunAccepted "'n link option"
  | RunCounting "'n link option" | RunReturned

text \<open>The places of \<open>serve\<close>: at its start, before the load of the flag in the head of its loop, in the
  body, after the loop, returned with the closed session if there was one, and after the
  deferred \<open>Done\<close>.\<close>

datatype ('w, 'v, 'n) connecting = ServeStart "'n link option" | ServeHead "('w, 'v, 'n) Session"
  | ServeRound "('w, 'v, 'n) Session" | ServeEnd "('w, 'v, 'n) Session"
  | ServeReturned "('w, 'v, 'n) Session option" | ServeDone "('w, 'v, 'n) Session option"

record ('w, 'v, 'n, 'o) Serving =
  sr_stopped :: bool
  sr_listening :: bool
  sr_nextConnection :: u64
  sr_connections :: int
  sr_run :: "'n accepting"
  sr_conns :: "(u64 \<times> ('w, 'v, 'n) connecting) list"
  sr_world :: 'w
  sr_observed :: 'o

definition Start :: "'w \<Rightarrow> 'o \<Rightarrow> ('w, 'v, 'n, 'o) Serving" where
  "Start w observed = \<lparr>sr_stopped = False, sr_listening = True, sr_nextConnection = 0,
     sr_connections = 0, sr_run = RunHead, sr_conns = [], sr_world = w, sr_observed = observed\<rparr>"

subsection \<open>Run\<close>

text \<open>\<open>AcceptTCP\<close> may give any connection or fail while the listener is open, and gives
  \<open>net.ErrClosed\<close> once it is closed.  A connection accepted too late is closed and forgotten.\<close>

inductive run_step :: "('w, 'v, 'n, 'o) Serving \<Rightarrow> ('w, 'v, 'n, 'o) Serving \<Rightarrow> bool" where
  head: "sr_run s = RunHead \<Longrightarrow>
    run_step s (s\<lparr>sr_run := if sr_stopped s then RunReturned else RunAccept\<rparr>)"
| accept: "sr_run s = RunAccept \<Longrightarrow> sr_listening s \<Longrightarrow> run_step s (s\<lparr>sr_run := RunAccepted t\<rparr>)"
| fail: "sr_run s = RunAccept \<Longrightarrow> run_step s (s\<lparr>sr_run := RunFailed (\<not> sr_listening s)\<rparr>)"
| failed: "sr_run s = RunFailed closed \<Longrightarrow>
    run_step s (s\<lparr>sr_run := if sr_stopped s \<or> closed then RunReturned else RunHead\<rparr>)"
| accepted: "sr_run s = RunAccepted t \<Longrightarrow>
    run_step s (s\<lparr>sr_run := if sr_stopped s then RunReturned else RunCounting t\<rparr>)"
| counting: "sr_run s = RunCounting t \<Longrightarrow> connection = sr_nextConnection s + 1 \<Longrightarrow>
    run_step s (s\<lparr>sr_nextConnection := connection, sr_connections := sr_connections s + 1,
      sr_run := RunHead, sr_conns := sr_conns s @ [(connection, ServeStart t)]\<rparr>)"

subsection \<open>Stop\<close>

text \<open>Two steps; a further \<open>Stop\<close> changes nothing.  \<open>Wait\<close> returns in a state whose wait group is at 0.\<close>

inductive stop_step :: "('w, 'v, 'n, 'o) Serving \<Rightarrow> ('w, 'v, 'n, 'o) Serving \<Rightarrow> bool" where
  store: "\<not> sr_stopped s \<Longrightarrow> stop_step s (s\<lparr>sr_stopped := True\<rparr>)"
| close: "sr_stopped s \<Longrightarrow> sr_listening s \<Longrightarrow> stop_step s (s\<lparr>sr_listening := False\<rparr>)"

definition Wait_returns :: "('w, 'v, 'n, 'o) Serving \<Rightarrow> bool" where
  "Wait_returns s \<longleftrightarrow> sr_connections s = 0"

subsection \<open>A connection\<close>

definition put_world :: "'w \<Rightarrow> ('w, 'v, 'n) Session \<Rightarrow> ('w, 'v, 'n) Session" where
  "put_world w = with_core (\<lambda>c. c\<lparr>c_world := w\<rparr>)"

definition get_world :: "('w, 'v, 'n) Session \<Rightarrow> 'w" where
  "get_world s = c_world (s_core s)"

text \<open>The body of the loop of \<open>serve\<close>; the flag tells whether the loop goes on.\<close>

definition serve_round ::
  "('v, 'n) Net \<Rightarrow> ('w, 'n, 'o) Server \<Rightarrow> nat \<Rightarrow> ('w, 'v, 'n) Session \<Rightarrow> 'o
    \<Rightarrow> (bool \<times> ('w, 'v, 'n) Session \<times> 'o) option" where
  "serve_round net server connection session observed =
    (case read_clock net session of (now, session) \<Rightarrow>
       (case Session_Tick net now session of
          None \<Rightarrow> None
        | Some session \<Rightarrow>
            (case report server connection session observed of (session, observed) \<Rightarrow>
               if Session_Closed net session then Some (False, session, observed)
               else (case read_clock net session of (now, session) \<Rightarrow>
                 (case Session_Wait net (sv_policy server) now session of
                    (Inl err, session) \<Rightarrow> Some (False, session, observed)
                  | (Inr _, session) \<Rightarrow> Some (True, session, observed))))))"

fun serve_step ::
  "('v, 'n) Net \<Rightarrow> ('w, 'n, 'o) Server \<Rightarrow> bool \<Rightarrow> nat \<Rightarrow> ('w, 'v, 'n) connecting \<Rightarrow> 'w \<Rightarrow> 'o
    \<Rightarrow> (('w, 'v, 'n) connecting \<times> 'w \<times> 'o) option" where
  "serve_step net server stopped connection (ServeStart None) w observed =
    Some (ServeReturned None, w, observed)"
| "serve_step net server stopped connection (ServeStart (Some transport)) w observed =
    (case NewSession net transport (sv_schema server) (sv_registry server) RoleServer (sv_config server) w of
       (Inl err, _) \<Rightarrow> Some (ServeReturned None, w, observed)
     | (Inr session, _) \<Rightarrow>
         let observed = so_Opened (sv_observer server) connection observed;
             session = (case sv_configure server of None \<Rightarrow> session | Some configure \<Rightarrow> with_core configure session)
         in Some (ServeHead session, get_world session, observed))"
| "serve_step net server stopped connection (ServeHead session) w observed =
    Some (if stopped then ServeEnd session else ServeRound session, w, observed)"
| "serve_step net server stopped connection (ServeRound session) w observed =
    (case serve_round net server connection (put_world w session) observed of
       None \<Rightarrow> None
     | Some (go, session, observed) \<Rightarrow>
         Some (if go then ServeHead session else ServeEnd session, get_world session, observed))"
| "serve_step net server stopped connection (ServeEnd session) w observed =
    (case report server connection (Session_Close net (put_world w session)) observed of
       (session, observed) \<Rightarrow>
         Some (ServeReturned (Some session), get_world session, so_Closed (sv_observer server) connection observed))"
| "serve_step net server stopped connection (ServeReturned session) w observed = None"
| "serve_step net server stopped connection (ServeDone session) w observed = None"

text \<open>What a place of a connection brings about in its next step: in the body of the loop the outcomes
  and the plain messages that the session holds after the tick, after the loop those that it
  holds once it is closed.\<close>

definition held_by :: "('w, 'v, 'n) Session \<Rightarrow> observation list" where
  "held_by session = map Observed (c_outcomes (s_core session)) @ map Heard (s_plain session)"

fun produced :: "('v, 'n) Net \<Rightarrow> ('w, 'v, 'n) connecting \<Rightarrow> 'w \<Rightarrow> observation list" where
  "produced net (ServeRound session) w =
    (case read_clock net (put_world w session) of (now, session) \<Rightarrow>
       (case Session_Tick net now session of None \<Rightarrow> [] | Some session \<Rightarrow> held_by session))"
| "produced net (ServeEnd session) w = held_by (Session_Close net (put_world w session))"
| "produced net p w = []"

inductive conn_step ::
  "('v, 'n) Net \<Rightarrow> ('w, 'n, 'o) Server \<Rightarrow> ('w, 'v, 'n, 'o) Serving \<Rightarrow> ('w, 'v, 'n, 'o) Serving \<Rightarrow> bool"
  for net server where
  serve: "i < length (sr_conns s) \<Longrightarrow> sr_conns s ! i = (connection, p)
    \<Longrightarrow> serve_step net server (sr_stopped s) (unat connection) p (sr_world s) (sr_observed s) = Some (p', w, observed)
    \<Longrightarrow> conn_step net server s
      (s\<lparr>sr_conns := (sr_conns s)[i := (connection, p')], sr_world := w, sr_observed := observed\<rparr>)"
| finished: "i < length (sr_conns s) \<Longrightarrow> sr_conns s ! i = (connection, ServeReturned session)
    \<Longrightarrow> conn_step net server s (s\<lparr>sr_conns := (sr_conns s)[i := (connection, ServeDone session)],
      sr_connections := sr_connections s - 1\<rparr>)"

text \<open>A step of a server is a step of one of its goroutines or of a caller of \<open>Stop\<close>.\<close>

definition server_step ::
  "('v, 'n) Net \<Rightarrow> ('w, 'n, 'o) Server \<Rightarrow> ('w, 'v, 'n, 'o) Serving \<Rightarrow> ('w, 'v, 'n, 'o) Serving \<Rightarrow> bool" where
  "server_step net server s s' \<longleftrightarrow> run_step s s' \<or> stop_step s s' \<or> conn_step net server s s'"


inductive_cases run_stepE: "run_step s s'"
inductive_cases stop_stepE: "stop_step s s'"
inductive_cases conn_stepE: "conn_step net server s s'"

lemmas step_elims = run_stepE stop_stepE conn_stepE

subsection \<open>Histories\<close>

text \<open>A step with what it brings about, each entry with the number of its connection, and the runs with
  what their steps brought about, in order.  Neither looks at the observer.\<close>

inductive makes :: "('v, 'n) Net \<Rightarrow> ('w, 'n, 'o) Server \<Rightarrow> ('w, 'v, 'n, 'o) Serving
    \<Rightarrow> (nat \<times> observation) list \<Rightarrow> ('w, 'v, 'n, 'o) Serving \<Rightarrow> bool" for net server where
  running: "run_step s s' \<Longrightarrow> makes net server s [] s'"
| stopping: "stop_step s s' \<Longrightarrow> makes net server s [] s'"
| serving: "i < length (sr_conns s) \<Longrightarrow> sr_conns s ! i = (connection, p)
    \<Longrightarrow> serve_step net server (sr_stopped s) (unat connection) p (sr_world s) (sr_observed s) = Some (p', w, observed)
    \<Longrightarrow> makes net server s (map (Pair (unat connection)) (produced net p (sr_world s)))
      (s\<lparr>sr_conns := (sr_conns s)[i := (connection, p')], sr_world := w, sr_observed := observed\<rparr>)"
| leaving: "i < length (sr_conns s) \<Longrightarrow> sr_conns s ! i = (connection, ServeReturned session)
    \<Longrightarrow> makes net server s [] (s\<lparr>sr_conns := (sr_conns s)[i := (connection, ServeDone session)],
      sr_connections := sr_connections s - 1\<rparr>)"

inductive history :: "('v, 'n) Net \<Rightarrow> ('w, 'n, 'o) Server \<Rightarrow> ('w, 'v, 'n, 'o) Serving
    \<Rightarrow> (nat \<times> observation) list \<Rightarrow> ('w, 'v, 'n, 'o) Serving \<Rightarrow> bool" for net server s where
  nothing: "history net server s [] s"
| more: "history net server s made s' \<Longrightarrow> makes net server s' new s''
    \<Longrightarrow> history net server s (made @ new) s''"

lemma makes_step: "(\<exists>made. makes net server s made s') \<longleftrightarrow> server_step net server s s'"
proof
  assume "\<exists>made. makes net server s made s'"
  then obtain made where "makes net server s made s'" ..
  then show "server_step net server s s'"
    by cases (auto simp: server_step_def intro: conn_step.intros)
next
  assume "server_step net server s s'"
  then show "\<exists>made. makes net server s made s'"
    unfolding server_step_def
  proof (elim disjE)
    assume "conn_step net server s s'"
    then show ?thesis by cases (blast intro: makes.serving makes.leaving)+
  qed (blast intro: makes.running makes.stopping)+
qed

lemma history_reaches: "history net server s made s' \<Longrightarrow> (server_step net server)\<^sup>*\<^sup>* s s'"
proof (induction rule: history.induct)
  case (more made s' new s'')
  have "server_step net server s' s''" using more.hyps(2) makes_step by blast
  with more.IH show ?case by (rule rtranclp.rtrancl_into_rtrancl)
qed simp

lemma reached_history:
  assumes "(server_step net server)\<^sup>*\<^sup>* s s'"
  obtains made where "history net server s made s'"
proof -
  have "\<exists>made. history net server s made s'" using assms
  proof (induction rule: rtranclp_induct)
    case (step u v)
    then show ?case using makes_step [of net server u v] by (blast intro: history.more)
  qed (blast intro: history.nothing)
  then show ?thesis using that by blast
qed

lemma history_trans:
  "history net server u later v \<Longrightarrow> history net server s made u \<Longrightarrow> history net server s (made @ later) v"
proof (induction rule: history.induct)
  case (more later v new x)
  then show ?case using history.more [of net server s "made @ later" v new x] by simp
qed simp

subsection \<open>One connection by itself\<close>

lemma serve_loop_rounds:
  "serve_loop net server connection s o' =
    (if sv_stopped server (s_link s) then Some (s, o')
     else case serve_round net server connection s o' of
            None \<Rightarrow> None
          | Some (go, s, o') \<Rightarrow> if go then serve_loop net server connection s o' else Some (s, o'))"
  by (subst serve_loop.simps) (auto simp: serve_round_def split: prod.splits option.splits sum.splits)

lemma put_get_world [simp]: "put_world (get_world s) s = s"
  by (simp add: put_world_def get_world_def with_core_def)

text \<open>The steps of a connection that no other interrupts, under a flag that is read from its link.\<close>

fun reads_flag :: "('w, 'n, 'o) Server \<Rightarrow> ('w, 'v, 'n) connecting \<Rightarrow> bool" where
  "reads_flag server (ServeHead s) = sv_stopped server (s_link s)"
| "reads_flag server p = False"

inductive alone :: "('v, 'n) Net \<Rightarrow> ('w, 'n, 'o) Server \<Rightarrow> nat \<Rightarrow> ('w, 'v, 'n) connecting \<times> 'w \<times> 'o
    \<Rightarrow> observation list \<Rightarrow> ('w, 'v, 'n) connecting \<times> 'w \<times> 'o \<Rightarrow> bool" for net server k where
  here: "alone net server k x [] x"
| further: "serve_step net server (reads_flag server p) k p w o' = Some x \<Longrightarrow> alone net server k x made y
    \<Longrightarrow> alone net server k (p, w, o') (produced net p w @ made) y"

lemma alone_one:
  "serve_step net server (reads_flag server p) k p w o' = Some x \<Longrightarrow> alone net server k (p, w, o') (produced net p w) x"
  using alone.further [OF _ alone.here] by fastforce

lemma alone_trans:
  "alone net server k x made y \<Longrightarrow> alone net server k y rest z \<Longrightarrow> alone net server k x (made @ rest) z"
  by (induction rule: alone.induct) (auto intro: alone.intros)

lemma alone_loop:
  fixes s :: "('w, 'v, 'n) Session" and o' :: 'o
  assumes "serve_loop net server k s o' = Some (s', p)"
  shows "\<exists>made. alone net server k (ServeHead s, get_world s, o') made (ServeEnd s', get_world s', p)"
proof -
  have "\<forall>s' p. x = (s', p) \<longrightarrow>
      (\<exists>made. alone net server k (ServeHead s, get_world s, o') made (ServeEnd s', get_world s', p))"
    if "serve_loop net server k s o' = Some x"
    for x :: "('w, 'v, 'n) Session \<times> 'o" and net :: "('v, 'n) Net" and server :: "('w, 'n, 'o) Server" and s k o'
    using that
  proof (rule serve_loop.raw_induct [rotated])
    fix f :: "('v, 'n) Net \<Rightarrow> ('w, 'n, 'o) Server \<Rightarrow> nat \<Rightarrow> ('w, 'v, 'n) Session \<Rightarrow> 'o
      \<Rightarrow> (('w, 'v, 'n) Session \<times> 'o) option"
    fix net server k s o' x
    assume IH: "\<And>net server k s o' x. f net server k s o' = Some x \<Longrightarrow> \<forall>s' p. x = (s', p) \<longrightarrow>
        (\<exists>made. alone net server k (ServeHead s, get_world s, o') made (ServeEnd s', get_world s', p))"
      and eq: "(if sv_stopped server (s_link s) then Some (s, o')
        else case read_clock net s of (now, s) \<Rightarrow> (case Session_Tick net now s of None \<Rightarrow> None
          | Some s \<Rightarrow> (case report server k s o' of (s, o') \<Rightarrow>
              if Session_Closed net s then Some (s, o')
              else (case read_clock net s of (now, s) \<Rightarrow>
                (case Session_Wait net (sv_policy server) now s of
                   (Inl err, s) \<Rightarrow> Some (s, o') | (Inr _, s) \<Rightarrow> f net server k s o'))))) = Some x"
    show "\<forall>s' p. x = (s', p) \<longrightarrow>
        (\<exists>made. alone net server k (ServeHead s, get_world s, o') made (ServeEnd s', get_world s', p))"
    proof (cases "sv_stopped server (s_link s)")
      case True
      then have "alone net server k (ServeHead s, get_world s, o') (produced net (ServeHead s) (get_world s))
          (ServeEnd s, get_world s, o')" by (intro alone_one) simp
      with True eq show ?thesis by auto
    next
      case False
      note flag = this
      have "serve_round net server k s o' \<noteq> None"
        using eq flag by (auto simp: serve_round_def split: option.splits prod.splits sum.splits)
      then obtain go u q where r: "serve_round net server k s o' = Some (go, u, q)" by auto
      obtain made where two: "alone net server k (ServeHead s, get_world s, o') made
          (if go then ServeHead u else ServeEnd u, get_world u, q)"
      proof
        show "alone net server k (ServeHead s, get_world s, o')
            (produced net (ServeHead s) (get_world s) @ produced net (ServeRound s) (get_world s))
            (if go then ServeHead u else ServeEnd u, get_world u, q)"
          using flag r by (intro alone.further [OF _ alone_one]) (auto split: if_splits)
      qed
      have rest: "(if go then f net server k u q else Some (u, q)) = Some x"
        using eq flag r by (auto simp: serve_round_def split: option.splits prod.splits sum.splits if_splits)
      show ?thesis
      proof (cases go)
        case True
        with rest IH have "\<forall>s' p. x = (s', p) \<longrightarrow>
            (\<exists>made. alone net server k (ServeHead u, get_world u, q) made (ServeEnd s', get_world s', p))" by auto
        with two True alone_trans show ?thesis by fastforce
      qed (use two rest in auto)
    qed
  qed
  with assms show ?thesis by blast
qed

lemma serve_alone:
  assumes "serve net server k transport w o' = Some (Inr s, p)"
  shows "\<exists>made. alone net server k (ServeStart (Some transport), w, o') made (ServeReturned (Some s), get_world s, p)"
proof -
  obtain s0 link where n: "NewSession net transport (sv_schema server) (sv_registry server) RoleServer
      (sv_config server) w = (Inr s0, link)"
    using assms by (auto simp: serve_def split: prod.splits sum.splits)
  let ?s = "case sv_configure server of None \<Rightarrow> s0 | Some configure \<Rightarrow> with_core configure s0"
    and ?o = "so_Opened (sv_observer server) k o'"
  obtain u q r where l: "serve_loop net server k ?s ?o = Some (u, q)"
    and r: "report server k (Session_Close net u) q = (s, r)" "p = so_Closed (sv_observer server) k r"
    using assms n by (auto simp: serve_def Let_def split: prod.splits option.splits)
  have "alone net server k (ServeEnd u, get_world u, q) (produced net (ServeEnd u) (get_world u))
      (ServeReturned (Some s), get_world s, p)"
    using r by (intro alone_one) (auto split: prod.splits)
  moreover obtain made where "alone net server k (ServeHead ?s, get_world ?s, ?o) made (ServeEnd u, get_world u, q)"
    using alone_loop [OF l] ..
  ultimately have "alone net server k (ServeHead ?s, get_world ?s, ?o) (made @ produced net (ServeEnd u) (get_world u))
      (ServeReturned (Some s), get_world s, p)" by (rule alone_trans [rotated])
  moreover have "serve_step net server (reads_flag server (ServeStart (Some transport))) k (ServeStart (Some transport)) w o'
      = Some (ServeHead ?s, get_world ?s, ?o)" using n by (simp add: Let_def)
  ultimately show ?thesis by (blast intro: alone.further)
qed

subsection \<open>What every step keeps\<close>

fun conn_ok :: "('w, 'v, 'n) connecting \<Rightarrow> bool" where
  "conn_ok (ServeHead s) \<longleftrightarrow> core_inv (s_core s)"
| "conn_ok (ServeRound s) \<longleftrightarrow> core_inv (s_core s)"
| "conn_ok (ServeReturned (Some s)) \<longleftrightarrow> c_finished (s_core s) \<and> c_outcomes (s_core s) = [] \<and> s_plain s = []"
| "conn_ok (ServeDone (Some s)) \<longleftrightarrow> c_finished (s_core s) \<and> c_outcomes (s_core s) = [] \<and> s_plain s = []"
| "conn_ok p = True"

fun is_done :: "('w, 'v, 'n) connecting \<Rightarrow> bool" where
  "is_done (ServeDone _) = True"
| "is_done _ = False"

definition open_conns :: "(u64 \<times> ('w, 'v, 'n) connecting) list \<Rightarrow> nat" where
  "open_conns conns = sum_list (map (\<lambda>x. if is_done (snd x) then 0 else 1) conns)"

lemma sum_list_set:
  fixes f :: "'a \<Rightarrow> nat"
  assumes "i < length xs"
  shows "sum_list (map f (xs[i := x])) + f (xs ! i) = sum_list (map f xs) + f x"
  using assms
proof (induction xs arbitrary: i)
  case (Cons y ys)
  show ?case
  proof (cases i)
    case (Suc j)
    with Cons.IH [of j] Cons.prems show ?thesis by simp
  qed simp
qed simp

definition conn_ids :: "nat \<Rightarrow> u64 list" where
  "conn_ids n = map (\<lambda>i. word_of_nat (Suc i)) [0..<n]"

definition life_inv :: "('w, 'v, 'n, 'o) Serving \<Rightarrow> bool" where
  "life_inv s \<longleftrightarrow> map fst (sr_conns s) = conn_ids (length (sr_conns s))
    \<and> sr_nextConnection s = word_of_nat (length (sr_conns s))
    \<and> sr_connections s = int (open_conns (sr_conns s))
    \<and> (\<not> sr_listening s \<longrightarrow> sr_stopped s) \<and> (sr_run s = RunReturned \<longrightarrow> sr_stopped s)
    \<and> (sr_run s = RunFailed True \<longrightarrow> \<not> sr_listening s)
    \<and> (\<forall>x \<in> set (sr_conns s). conn_ok (snd x))"

lemma core_inv_world [simp]: "core_inv (c\<lparr>c_world := w\<rparr>) = core_inv c"
  by (simp add: core_inv_def Core_Role_def)

lemma core_inv_outcomes: "core_inv (c\<lparr>c_outcomes := xs\<rparr>) = core_inv c"
  by (simp add: core_inv_def Core_Role_def)

lemma core_put_world [simp]: "s_core (put_world w s) = (s_core s)\<lparr>c_world := w\<rparr>"
  by (simp add: put_world_def with_core_def)

lemma read_clock_core: "read_clock net s = (now, s') \<Longrightarrow> s_core s' = s_core s \<and> s_plain s' = s_plain s"
  by (auto simp: read_clock_def split: prod.splits)

lemma Session_Wait_core: "Session_Wait net policy now s = (r, s') \<Longrightarrow> s_core s' = s_core s"
  by (auto simp: Session_Wait_def Let_def split: prod.splits)

lemma serve_round_returns:
  assumes "core_inv (s_core s)"
  obtains go s' p where "serve_round net server k s o' = Some (go, s', p)" "core_inv (s_core s')"
proof -
  obtain now u where c1: "read_clock net s = (now, u)" by fastforce
  have ui: "core_inv (s_core u)" using read_clock_core [OF c1] assms by simp
  then obtain v where v: "Session_Tick net now u = Some v" by (rule Session_Tick_returns)
  have vi: "core_inv (s_core v)" using conserves_Session_Tick [OF v] ui by (simp add: conserves_def)
  obtain x p where x: "report server k v o' = (x, p)" by fastforce
  have xi: "core_inv (s_core x)" using report_core [OF x] vi by (simp add: core_inv_outcomes)
  obtain now' y where c2: "read_clock net x = (now', y)" by fastforce
  obtain r z where w: "Session_Wait net (sv_policy server) now' y = (r, z)" by fastforce
  have zi: "core_inv (s_core z)" using xi read_clock_core [OF c2] Session_Wait_core [OF w] by simp
  show ?thesis
  proof (cases "Session_Closed net x")
    case True
    with c1 v x show ?thesis by (intro that [OF _ xi, of False p]) (simp add: serve_round_def)
  next
    case False
    with c1 v x c2 w show ?thesis
      by (cases r) (auto intro!: that [OF _ zi] simp: serve_round_def)
  qed
qed

lemma serve_step_ok:
  assumes "serve_step net server stopped k p w o' = Some (p', w', o'')" and "conn_ok p" and "configure_ok server"
  shows "conn_ok p' \<and> \<not> is_done p \<and> \<not> is_done p'"
  using assms
proof (cases rule: serve_step.cases [of "(net, server, stopped, k, p, w, o')"])
  case (2 net server stopped k transport w o')
  with assms show ?thesis
    by (auto simp: NewSession_def core_inv_new configure_ok_def with_core_def Let_def
        split: prod.splits sum.splits option.splits)
next
  case (3 net server stopped k s w o')
  with assms show ?thesis by (cases stopped) auto
next
  case (4 net server stopped k s w o')
  have "core_inv (s_core (put_world w s))" using 4 assms(2) by simp
  then obtain go u q where "serve_round net server k (put_world w s) o' = Some (go, u, q)" "core_inv (s_core u)"
    by (rule serve_round_returns)
  with 4 assms show ?thesis by (cases go) auto
next
  case (5 net server stopped k s w o')
  obtain u q where r: "report server k (Session_Close net (put_world w s)) o' = (u, q)" by fastforce
  with 5 assms(1) report_core [OF r] show ?thesis
    by (auto simp: Session_Close_def with_core_def SessionEnd_finished)
qed auto

lemma open_conns_update:
  assumes "i < length xs"
  shows "open_conns (xs[i := x]) + (if is_done (snd (xs ! i)) then 0 else 1)
    = open_conns xs + (if is_done (snd x) then 0 else 1)"
  using sum_list_set [OF assms, of "\<lambda>x. if is_done (snd x) then 0 else 1" x] by (simp add: open_conns_def)

lemma map_fst_update: "i < length xs \<Longrightarrow> xs ! i = (k, p) \<Longrightarrow> map fst (xs[i := (k, p')]) = map fst xs"
  by (simp add: map_update) (metis fst_conv list_update_id nth_map)

lemma life_inv_Start: "life_inv (Start w o')"
  by (simp add: life_inv_def Start_def conn_ids_def open_conns_def)

lemma life_inv_step:
  assumes "server_step net server s s'" and "life_inv s" and "configure_ok server"
  shows "life_inv s'"
  using assms(1) unfolding server_step_def
proof (elim disjE)
  assume "run_step s s'"
  then show ?thesis using assms(2)
    by cases (auto simp: life_inv_def conn_ids_def open_conns_def)
next
  assume "stop_step s s'"
  then show ?thesis using assms(2) by cases (auto simp: life_inv_def)
next
  assume "conn_step net server s s'"
  then show ?thesis
  proof cases
    case (serve i k p p' w o')
    have "(k, p) \<in> set (sr_conns s)" using serve(2,3) by (metis nth_mem)
    then have "conn_ok p" using assms(2) by (force simp: life_inv_def)
    from serve_step_ok [OF serve(4) this assms(3)]
    have ok: "conn_ok p'" "\<not> is_done p" "\<not> is_done p'" by simp_all
    have "\<forall>x \<in> set ((sr_conns s)[i := (k, p')]). conn_ok (snd x)"
      using assms(2) ok(1) set_update_subset_insert [of "sr_conns s" i "(k, p')"] by (fastforce simp: life_inv_def)
    then show ?thesis using assms(2) serve ok open_conns_update [OF serve(2), of "(k, p')"]
      by (simp add: life_inv_def map_fst_update)
  next
    case (finished i k session)
    have "(k, ServeReturned session) \<in> set (sr_conns s)" using finished(2,3) by (metis nth_mem)
    then have "conn_ok (ServeReturned session)" using assms(2) by (force simp: life_inv_def)
    then have ok: "conn_ok (ServeDone session)" by (cases session) auto
    have "\<forall>x \<in> set ((sr_conns s)[i := (k, ServeDone session)]). conn_ok (snd x)"
      using assms(2) ok set_update_subset_insert [of "sr_conns s" i "(k, ServeDone session)"]
      by (fastforce simp: life_inv_def)
    then show ?thesis using assms(2) finished open_conns_update [OF finished(2), of "(k, ServeDone session)"]
      by (simp add: life_inv_def map_fst_update)
  qed
qed

lemma life_inv_reaches:
  assumes "(server_step net server)\<^sup>*\<^sup>* s s'" and "life_inv s" and "configure_ok server"
  shows "life_inv s'"
  using assms by (induction rule: rtranclp_induct) (auto intro: life_inv_step)

subsection \<open>What the observer sees\<close>

text \<open>The observations of one connection, and those that its place allows.\<close>

definition seen_of :: "nat \<Rightarrow> (nat \<times> observation) list \<Rightarrow> observation list" where
  "seen_of k log = map snd (filter (\<lambda>x. fst x = k) log)"

definition quiet :: "observation list \<Rightarrow> bool" where
  "quiet mid \<longleftrightarrow> Opened \<notin> set mid \<and> Closed \<notin> set mid"

definition opened :: "observation list \<Rightarrow> bool" where
  "opened seen \<longleftrightarrow> (\<exists>mid. seen = Opened # mid \<and> quiet mid)"

definition opened_closed :: "observation list \<Rightarrow> bool" where
  "opened_closed seen \<longleftrightarrow> (\<exists>mid. seen = Opened # mid @ [Closed] \<and> quiet mid)"

fun seen_at :: "('w, 'v, 'n) connecting \<Rightarrow> observation list \<Rightarrow> bool" where
  "seen_at (ServeStart _) seen = (seen = [])"
| "seen_at (ServeReturned None) seen = (seen = [])"
| "seen_at (ServeReturned (Some _)) seen = opened_closed seen"
| "seen_at (ServeDone None) seen = (seen = [])"
| "seen_at (ServeDone (Some _)) seen = opened_closed seen"
| "seen_at _ seen = opened seen"

definition logged :: "(u64 \<times> ('w, 'v, 'n) connecting) list \<Rightarrow> (nat \<times> observation) list \<Rightarrow> bool" where
  "logged conns log \<longleftrightarrow> (\<forall>x \<in> set conns. seen_at (snd x) (seen_of (unat (fst x)) log))
    \<and> (\<forall>x \<in> set log. fst x \<in> (\<lambda>x. unat (fst x)) ` set conns)"

lemma seen_of_simps [simp]:
  "seen_of k [] = []" "seen_of k (xs @ ys) = seen_of k xs @ seen_of k ys"
  "seen_of k (map (Pair j) ms) = (if j = k then ms else [])"
  by (simp_all add: seen_of_def filter_map comp_def)

text \<open>A report passes on all that the session holds.\<close>

lemma report_seen:
  assumes "sv_observer server = log_observer" and "report server k s log = (s', log')"
  shows "log' = log @ map (Pair k) (held_by s)"
  using report_log [OF assms(1), of k s log] assms(2) by (simp add: held_by_def comp_def)

definition noted :: "observation \<Rightarrow> bool" where
  "noted x \<longleftrightarrow> x \<noteq> Opened \<and> x \<noteq> Closed"

lemma noted_simps [simp]:
  "noted (Observed x)" "noted (Heard m)" "\<not> noted Opened" "\<not> noted Closed"
  by (simp_all add: noted_def)

lemma quiet_noted: "quiet mid \<longleftrightarrow> (\<forall>x \<in> set mid. noted x)"
  by (auto simp: quiet_def noted_def)

lemma quiet_held_by [simp]: "quiet (held_by s)"
  by (auto simp: quiet_def held_by_def)

lemma noted_quiet: "quiet mid \<Longrightarrow> filter noted mid = mid"
  by (simp add: quiet_noted)

lemma quiet_append [simp]: "quiet (xs @ ys) \<longleftrightarrow> quiet xs \<and> quiet ys"
  by (auto simp: quiet_def)

lemma opened_quiet: "opened seen \<Longrightarrow> quiet ms \<Longrightarrow> opened (seen @ ms)"
  by (fastforce simp: opened_def)

lemma quiet_produced [simp]: "quiet (produced net p w)"
  by (cases p) (auto simp: quiet_def held_by_def split: prod.splits option.splits)

lemma serve_round_seen:
  assumes "serve_round net server k (put_world w s) log = Some (go, s', log')" and "sv_observer server = log_observer"
  shows "log' = log @ map (Pair k) (produced net (ServeRound s) w)"
  using assms(1) report_seen [OF assms(2)]
  by (auto simp: serve_round_def split: prod.splits option.splits sum.splits if_splits)

text \<open>A step of a connection appends what its place brings about, beside the opening and the closing.\<close>

lemma serve_step_seen:
  assumes "serve_step net server stopped k p w log = Some (p', w', log')"
    and "sv_observer server = log_observer"
  obtains ms where "log' = log @ map (Pair k) ms" "\<And>seen. seen_at p seen \<Longrightarrow> seen_at p' (seen @ ms)"
    "filter noted ms = produced net p w"
  using assms(1)
proof (cases rule: serve_step.cases [of "(net, server, stopped, k, p, w, log)"])
  case (1 net server stopped k w log)
  with assms show ?thesis by (intro that [of "[]"]) auto
next
  case (2 net server stopped k transport w log)
  show ?thesis
  proof (cases "fst (NewSession net transport (sv_schema server) (sv_registry server) RoleServer
      (sv_config server) w)")
    case (Inl err)
    with 2 assms show ?thesis by (intro that [of "[]"]) (auto split: prod.splits)
  next
    case (Inr s)
    with 2 assms show ?thesis
      by (intro that [of "[Opened]"])
        (auto simp: Let_def log_observer_def opened_def quiet_def split: prod.splits option.splits)
  qed
next
  case (3 net server stopped k s w log)
  with assms show ?thesis by (intro that [of "[]"]) (auto split: if_splits)
next
  case (4 net server stopped k s w log)
  then obtain go u where r: "serve_round net server k (put_world w s) log = Some (go, u, log')"
    and p: "p' = (if go then ServeHead u else ServeEnd u)"
    using assms(1) by (auto split: option.splits prod.splits)
  have "log' = log @ map (Pair k) (produced net (ServeRound s) w)"
    using serve_round_seen [OF r] assms(2) 4 by simp
  with p 4 show ?thesis
    by (intro that [of "produced net (ServeRound s) w"])
      (auto simp del: produced.simps intro: opened_quiet noted_quiet)
next
  case (5 net server stopped k s w log)
  then obtain u q where r: "report server k (Session_Close net (put_world w s)) log = (u, q)"
    and p: "p' = ServeReturned (Some u)" "log' = q @ [(k, Closed)]"
    using assms by (auto simp: log_observer_def split: prod.splits)
  have "q = log @ map (Pair k) (produced net (ServeEnd s) w)"
    using report_seen [OF _ r] assms(2) 5 by simp
  with p 5 show ?thesis
    by (intro that [of "produced net (ServeEnd s) w @ [Closed]"])
      (auto simp: opened_def opened_closed_def noted_quiet)
qed simp_all

text \<open>So the log of a connection by itself, and of a history of the server, holds what was brought about.\<close>

lemma alone_seen:
  assumes "alone net server k x made y" and "sv_observer server = log_observer"
  shows "\<exists>ms. snd (snd y) = snd (snd x) @ map (Pair k) ms \<and> filter noted ms = made"
  using assms(1)
proof (induction rule: alone.induct)
  case (further p w log x made y)
  obtain p' w' log' where x: "x = (p', w', log')" by (cases x) auto
  obtain ms where "log' = log @ map (Pair k) ms" "filter noted ms = produced net p w"
    using serve_step_seen [OF further.hyps(1) [unfolded x] assms(2)] by metis
  moreover obtain ns where "snd (snd y) = log' @ map (Pair k) ns" "filter noted ns = made"
    using further.IH x by auto
  ultimately show ?case by (intro exI [of _ "ms @ ns"]) simp
qed simp

definition noted_in :: "(nat \<times> observation) list \<Rightarrow> (nat \<times> observation) list" where
  "noted_in log = filter (\<lambda>x. snd x \<noteq> Opened \<and> snd x \<noteq> Closed) log"

lemma noted_in_simps [simp]:
  "noted_in [] = []" "noted_in (xs @ ys) = noted_in xs @ noted_in ys"
  "noted_in (map (Pair k) ms) = map (Pair k) (filter noted ms)"
  by (simp_all add: noted_in_def filter_map comp_def noted_def [abs_def])

lemma history_seen:
  assumes "history net server s made s'" and "sv_observer server = log_observer"
  shows "noted_in (sr_observed s') = noted_in (sr_observed s) @ made"
  using assms(1)
proof (induction rule: history.induct)
  case (more made s' new s'')
  have "noted_in (sr_observed s'') = noted_in (sr_observed s') @ new"
    using more.hyps(2)
  proof cases
    case (serving i k p p' w log)
    obtain ms where "log = sr_observed s' @ map (Pair (unat k)) ms" "filter noted ms = produced net p (sr_world s')"
      using serve_step_seen [OF serving(5) assms(2)] by metis
    with serving show ?thesis by simp
  qed (auto elim: run_stepE stop_stepE)
  with more.IH show ?case by simp
qed simp

lemma serve_made:
  assumes "clock_advances net \<tau>" and "\<And>link. T \<le> \<tau> (snd link) \<Longrightarrow> sv_stopped server link"
    and "sv_observer server = log_observer" and "configure_ok server"
    and "NewSession net link (sv_schema server) (sv_registry server) RoleServer (sv_config server) w
      = (Inr s, link')"
  shows "\<exists>s' made log'. serve net server k link w log = Some (Inr s', log')
    \<and> log' = log @ (k, Opened) # map (Pair k) made @ [(k, Closed)]
    \<and> alone net server k (ServeStart (Some link), w, log) made (ServeReturned (Some s'), get_world s', log')
    \<and> c_finished (s_core s') \<and> c_outcomes (s_core s') = [] \<and> s_plain s' = []"
proof -
  from assms have ended: "\<exists>s' mid. serve net server k link w log
      = Some (Inr s', log @ (k, Opened) # mid @ [(k, Closed)])
    \<and> (\<forall>x \<in> set mid. fst x = k \<and> snd x \<noteq> Opened \<and> snd x \<noteq> Closed)
    \<and> c_finished (s_core s') \<and> c_outcomes (s_core s') = [] \<and> s_plain s' = []"
    by (rule serve_returns)
  then obtain s' mid where e: "serve net server k link w log = Some (Inr s', log @ (k, Opened) # mid @ [(k, Closed)])"
    and mid: "\<forall>x \<in> set mid. fst x = k \<and> snd x \<noteq> Opened \<and> snd x \<noteq> Closed"
    and f: "c_finished (s_core s')" "c_outcomes (s_core s') = []" "s_plain s' = []"
    by (elim exE conjE)
  obtain made where a: "alone net server k (ServeStart (Some link), w, log) made
      (ServeReturned (Some s'), get_world s', log @ (k, Opened) # mid @ [(k, Closed)])"
    using serve_alone [OF e] ..
  obtain ms where ms: "(k, Opened) # mid @ [(k, Closed)] = map (Pair k) ms" "filter noted ms = made"
    using alone_seen [OF a assms(3)] by (simp only: snd_conv same_append_eq) (elim exE conjE)
  have "mid = noted_in ((k, Opened) # mid @ [(k, Closed)])" using mid by (simp add: noted_in_def)
  also have "\<dots> = map (Pair k) made" unfolding ms(1) by (simp add: ms(2))
  finally show ?thesis using e a f by blast
qed

lemma distinct_conn_ids:
  assumes "n < 2 ^ 64"
  shows "distinct (conn_ids n)"
proof -
  have "inj_on (\<lambda>i. word_of_nat (Suc i) :: u64) {0..<n}"
  proof (rule inj_onI)
    fix i j assume i: "i \<in> {0..<n}" "j \<in> {0..<n}" and e: "(word_of_nat (Suc i) :: u64) = word_of_nat (Suc j)"
    have "unat (word_of_nat (Suc i) :: u64) = Suc i" "unat (word_of_nat (Suc j) :: u64) = Suc j"
      using i assms by (simp_all only: unat_of_nat take_bit_nat_eq_self_iff) simp_all
    with e show "i = j" by simp
  qed
  then show ?thesis by (simp add: conn_ids_def distinct_map)
qed

lemma seen_of_Nil: "k \<notin> fst ` set log \<Longrightarrow> seen_of k log = []"
  by (force simp: seen_of_def filter_empty_conv)

lemma logged_new:
  assumes "logged conns log" and "k \<notin> fst ` set conns"
  shows "logged (conns @ [(k, ServeStart t)]) log"
proof -
  have "unat k \<notin> fst ` set log"
  proof
    assume "unat k \<in> fst ` set log"
    then obtain x where "x \<in> set conns" "unat k = unat (fst x)" using assms(1) by (auto simp: logged_def)
    then show False using assms(2) by (simp add: word_unat_eq_iff [symmetric])
  qed
  with assms(1) show ?thesis by (auto simp: logged_def seen_of_Nil)
qed

lemma logged_update:
  assumes "logged conns log" and "distinct (map fst conns)" and "i < length conns" and "conns ! i = (k, p)"
    and "\<And>seen. seen_at p seen \<Longrightarrow> seen_at p' (seen @ ms)"
  shows "logged (conns[i := (k, p')]) (log @ map (Pair (unat k)) ms)"
proof -
  let ?conns = "conns[i := (k, p')]" and ?log = "log @ map (Pair (unat k)) ms"
  have ids: "map fst ?conns = map fst conns" using assms(3,4) by (rule map_fst_update)
  then have "fst ` set ?conns = fst ` set conns" by (metis list.set_map)
  then have "unat ` fst ` set ?conns = unat ` fst ` set conns" by (rule arg_cong)
  then have same: "(\<lambda>x. unat (fst x)) ` set ?conns = (\<lambda>x. unat (fst x)) ` set conns"
    by (simp only: image_image)
  have "(k, p) \<in> set conns" using assms(3,4) by (metis nth_mem)
  then have mem: "unat k \<in> (\<lambda>x. unat (fst x)) ` set conns" by (rule rev_image_eqI) simp
  have at: "seen_at (snd (?conns ! j)) (seen_of (unat (fst (?conns ! j))) ?log)" if j: "j < length conns" for j
  proof -
    have at: "seen_at (snd (conns ! j)) (seen_of (unat (fst (conns ! j))) log)"
      using assms(1) j by (simp add: logged_def)
    show ?thesis
    proof (cases "j = i")
      case True
      with at assms(4) have "seen_at p (seen_of (unat k) log)" by simp
      from assms(5) [OF this] show ?thesis using True assms(3) by simp
    next
      case False
      have "map fst conns ! j \<noteq> map fst conns ! i"
        using nth_eq_iff_index_eq [OF assms(2)] False j assms(3) by simp
      then have "fst (conns ! j) \<noteq> k" using assms(3,4) j by simp
      then have "unat k \<noteq> unat (fst (conns ! j))" by (metis word_unat_eq_iff)
      with at False show ?thesis by simp
    qed
  qed
  have "\<forall>x \<in> set ?conns. seen_at (snd x) (seen_of (unat (fst x)) ?log)"
    using at by (metis (no_types, lifting) in_set_conv_nth length_list_update)
  moreover have "\<forall>x \<in> set ?log. fst x \<in> (\<lambda>x. unat (fst x)) ` set ?conns"
  proof
    fix x assume "x \<in> set ?log"
    then have "x \<in> set log \<or> fst x = unat k" by auto
    then show "fst x \<in> (\<lambda>x. unat (fst x)) ` set ?conns"
      unfolding same using assms(1) mem by (metis logged_def)
  qed
  ultimately show ?thesis unfolding logged_def ..
qed

lemma logged_step:
  assumes "server_step net server s s'" and "life_inv s" and "logged (sr_conns s) (sr_observed s)"
    and "sv_observer server = log_observer" and "length (sr_conns s') < 2 ^ 64"
  shows "logged (sr_conns s') (sr_observed s')"
  using assms(1) unfolding server_step_def
proof (elim disjE)
  assume "stop_step s s'"
  then show ?thesis using assms(3) by cases auto
next
  assume "run_step s s'"
  then show ?thesis
  proof cases
    case (counting t k)
    have "conn_ids (length (sr_conns s')) = map fst (sr_conns s) @ [k]"
      using assms(2) counting by (simp add: life_inv_def conn_ids_def)
    then have "k \<notin> fst ` set (sr_conns s)" using distinct_conn_ids [OF assms(5)] by simp
    with assms(3) counting show ?thesis by (simp add: logged_new)
  qed (use assms(3) in auto)
next
  assume step: "conn_step net server s s'"
  have "length (sr_conns s') = length (sr_conns s)" using step by cases simp_all
  then have dist: "distinct (map fst (sr_conns s))"
    using assms(2,5) distinct_conn_ids by (simp add: life_inv_def)
  show ?thesis using step
  proof cases
    case (serve i k p p' w log)
    obtain ms where ms: "log = sr_observed s @ map (Pair (unat k)) ms"
      "\<And>seen. seen_at p seen \<Longrightarrow> seen_at p' (seen @ ms)"
      using serve_step_seen [OF serve(4) assms(4)] by metis
    from logged_update [OF assms(3) dist serve(2,3) ms(2)] serve(1) ms(1) show ?thesis by simp
  next
    case (finished i k session)
    have "seen_at (ServeDone session) (seen @ [])" if "seen_at (ServeReturned session) seen" for seen
      using that by (cases session) auto
    from logged_update [OF assms(3) dist finished(2,3) this] finished(1) show ?thesis by simp
  qed
qed

lemma conns_grow: "server_step net server s s' \<Longrightarrow> length (sr_conns s) \<le> length (sr_conns s')"
  by (auto simp: server_step_def elim!: step_elims)

lemma logged_reaches:
  assumes "(server_step net server)\<^sup>*\<^sup>* (Start w []) s" and "configure_ok server"
    and "sv_observer server = log_observer" and "length (sr_conns s) < 2 ^ 64"
  shows "logged (sr_conns s) (sr_observed s)"
  using assms(1,4)
proof (induction rule: rtranclp_induct)
  case base
  then show ?case by (simp add: logged_def Start_def)
next
  case (step s s')
  have "life_inv s" using life_inv_reaches [OF step(1) life_inv_Start assms(2)] .
  moreover have "logged (sr_conns s) (sr_observed s)" using step(3,4) conns_grow [OF step(2)] by simp
  ultimately show ?case using logged_step [OF step(2)] assms(3) step(4) by blast
qed

subsection \<open>Stopping\<close>

text \<open>The steps that a goroutine has left once the flag is set.\<close>

fun run_left :: "'n accepting \<Rightarrow> nat" where
  "run_left RunReturned = 0"
| "run_left RunAccept = 2"
| "run_left (RunCounting _) = 7"
| "run_left _ = 1"

fun conn_left :: "('w, 'v, 'n) connecting \<Rightarrow> nat" where
  "conn_left (ServeDone _) = 0"
| "conn_left (ServeReturned _) = 1"
| "conn_left (ServeEnd _) = 2"
| "conn_left (ServeHead _) = 3"
| "conn_left (ServeRound _) = 4"
| "conn_left (ServeStart _) = 4"

definition steps_left :: "('w, 'v, 'n, 'o) Serving \<Rightarrow> nat" where
  "steps_left s = run_left (sr_run s) + sum_list (map (\<lambda>x. conn_left (snd x)) (sr_conns s))
    + (if sr_listening s then 1 else 0)"

lemma serve_step_left:
  assumes "serve_step net server True k p w o' = Some (p', w', o'')"
  shows "conn_left p' < conn_left p"
  using assms by (cases rule: serve_step.cases [of "(net, server, True, k, p, w, o')"])
    (auto simp: Let_def split: prod.splits sum.splits option.splits)

lemma stopped_step:
  assumes "server_step net server s s'" and "sr_stopped s"
  shows "sr_stopped s' \<and> steps_left s' < steps_left s"
  using assms(1) unfolding server_step_def
proof (elim disjE)
  assume "run_step s s'"
  then show ?thesis using assms(2) by cases (auto simp: steps_left_def)
next
  assume "stop_step s s'"
  then show ?thesis using assms(2) by cases (auto simp: steps_left_def)
next
  assume "conn_step net server s s'"
  then show ?thesis
  proof cases
    case (serve i k p p' w o')
    have "conn_left p' < conn_left p" using serve(4) assms(2) by (auto intro: serve_step_left)
    then show ?thesis
      using sum_list_set [OF serve(2), of "\<lambda>x. conn_left (snd x)" "(k, p')"] serve assms(2)
      by (simp add: steps_left_def)
  next
    case (finished i k session)
    then show ?thesis
      using sum_list_set [OF finished(2), of "\<lambda>x. conn_left (snd x)" "(k, ServeDone session)"] assms(2)
      by (simp add: steps_left_def)
  qed
qed

lemma stopped_steps:
  assumes "(server_step net server ^^ n) s s'" and "sr_stopped s"
  shows "sr_stopped s' \<and> n + steps_left s' \<le> steps_left s"
  using assms
proof (induction n arbitrary: s')
  case (Suc n)
  then obtain u where "(server_step net server ^^ n) s u" "server_step net server u s'" by auto
  with Suc.IH [of u] Suc.prems(2) stopped_step [of net server u s'] show ?case by fastforce
qed simp

text \<open>A stopped server that has no step left.\<close>

lemma stuck_stopped:
  assumes "life_inv s" and "sr_stopped s" and "\<nexists>s'. server_step net server s s'"
  shows "sr_run s = RunReturned \<and> \<not> sr_listening s \<and> Wait_returns s
    \<and> (\<forall>x \<in> set (sr_conns s). is_done (snd x))"
proof -
  have no: "\<not> run_step s s'" "\<not> stop_step s s'" "\<not> conn_step net server s s'" for s'
    using assms(3) by (auto simp: server_step_def)
  have r: "sr_run s = RunReturned" using no(1) by (cases "sr_run s") (auto intro: run_step.intros)
  have l: "\<not> sr_listening s" using no(2) stop_step.close [OF assms(2)] by blast
  have d: "is_done (snd (sr_conns s ! i))" if i: "i < length (sr_conns s)" for i
  proof (rule ccontr)
    assume n: "\<not> is_done (snd (sr_conns s ! i))"
    obtain k p where kp: "sr_conns s ! i = (k, p)" by fastforce
    have ok: "conn_ok p" using assms(1) i kp by (metis life_inv_def nth_mem snd_conv)
    have "\<exists>x. serve_step net server (sr_stopped s) (unat k) p (sr_world s) (sr_observed s) = Some x \<or> (\<exists>u. p = ServeReturned u)"
    proof (cases p)
      case (ServeStart t)
      then show ?thesis by (cases t) (auto simp: Let_def split: prod.splits sum.splits)
    next
      case (ServeRound u)
      with ok have "core_inv (s_core (put_world (sr_world s) u))" by simp
      then obtain go v q where "serve_round net server (unat k) (put_world (sr_world s) u) (sr_observed s) = Some (go, v, q)"
        by (rule serve_round_returns)
      with ServeRound show ?thesis by simp
    qed (use n kp in \<open>auto split: prod.splits\<close>)
    then show False using no(3) kp i by (metis conn_step.finished conn_step.serve prod_cases3)
  qed
  then have "\<forall>x \<in> set (sr_conns s). is_done (snd x)" by (metis in_set_conv_nth)
  moreover from this have "open_conns (sr_conns s) = 0" by (auto simp: open_conns_def)
  ultimately show ?thesis using r l assms(1) by (simp add: life_inv_def Wait_returns_def)
qed

text \<open>Once \<open>Run\<close> has returned no connection is added, and if none is open then nothing is reported any
  more.\<close>

lemma returned_step:
  assumes "server_step net server s s'" and "sr_run s = RunReturned"
  shows "sr_run s' = RunReturned \<and> map fst (sr_conns s') = map fst (sr_conns s)"
  using assms unfolding server_step_def
  by (auto elim!: step_elims simp: map_fst_update)

lemma open_conns_length: "open_conns conns = length (filter (\<lambda>(_, p). \<not> is_done p) conns)"
  by (induction conns) (auto simp: open_conns_def)

lemma open_conns_0: "open_conns conns = 0 \<longleftrightarrow> (\<forall>x \<in> set conns. is_done (snd x))"
  by (auto simp: open_conns_def)

lemma all_done_step:
  assumes "server_step net server s s'" and "sr_run s = RunReturned" and "\<forall>x \<in> set (sr_conns s). is_done (snd x)"
  shows "sr_run s' = RunReturned \<and> sr_conns s' = sr_conns s \<and> sr_observed s' = sr_observed s"
  using assms(1) unfolding server_step_def
proof (elim disjE)
  assume "conn_step net server s s'"
  then have False
  proof cases
    case (serve i k p p' w o')
    then have "is_done p" using assms(3) by (metis nth_mem snd_conv)
    with serve(4) show False by (cases p) auto
  next
    case (finished i k session)
    then show False using assms(3) by (metis is_done.simps(6) nth_mem snd_conv)
  qed
  then show ?thesis ..
qed (use assms(2) in \<open>auto elim!: step_elims\<close>)

lemma all_done_steps:
  assumes "(server_step net server)\<^sup>*\<^sup>* s s'" and "life_inv s" and "sr_run s = RunReturned" and "Wait_returns s"
  shows "sr_conns s' = sr_conns s \<and> sr_observed s' = sr_observed s"
proof -
  have finished: "\<forall>x \<in> set (sr_conns s). is_done (snd x)"
    using assms(2,4) by (simp add: life_inv_def Wait_returns_def open_conns_0)
  have "sr_run s' = RunReturned \<and> sr_conns s' = sr_conns s \<and> sr_observed s' = sr_observed s"
    using assms(1)
  proof (induction rule: rtranclp_induct)
    case (step u v)
    with finished all_done_step [OF step(2)] show ?case by simp
  qed (simp add: assms(3))
  then show ?thesis by simp
qed

text \<open>What a run of a stopped server ends in.\<close>

definition cleared :: "(nat \<times> observation) list \<Rightarrow> u64 \<times> ('w, 'v, 'n) connecting \<Rightarrow> bool" where
  "cleared log x \<longleftrightarrow>
    (case snd x of
       ServeDone None \<Rightarrow> seen_of (unat (fst x)) log = []
     | ServeDone (Some s) \<Rightarrow> opened_closed (seen_of (unat (fst x)) log)
         \<and> c_finished (s_core s) \<and> c_outcomes (s_core s) = [] \<and> s_plain s = []
     | _ \<Rightarrow> False)"

lemma stuck_cleared:
  assumes "life_inv s" and "logged (sr_conns s) (sr_observed s)" and "\<forall>x \<in> set (sr_conns s). is_done (snd x)"
  shows "\<forall>x \<in> set (sr_conns s). cleared (sr_observed s) x"
proof
  fix x assume x: "x \<in> set (sr_conns s)"
  then have "is_done (snd x)" "conn_ok (snd x)" "seen_at (snd x) (seen_of (unat (fst x)) (sr_observed s))"
    using assms by (simp_all add: life_inv_def logged_def)
  then show "cleared (sr_observed s) x"
    by (cases "snd x" rule: conn_ok.cases) (auto simp: cleared_def)
qed

text \<open>A run that ends, with what it brought about.\<close>

lemma stopped_run:
  assumes "(server_step net server)\<^sup>*\<^sup>* (Start w []) s" and "configure_ok server"
    and "sv_observer server = log_observer" and "sr_stopped s" and "\<nexists>s'. server_step net server s s'"
    and "length (sr_conns s) < 2 ^ 64"
  shows "sr_run s = RunReturned \<and> \<not> sr_listening s \<and> Wait_returns s
    \<and> (\<forall>x \<in> set (sr_conns s). cleared (sr_observed s) x)"
proof -
  have i: "life_inv s" using life_inv_reaches [OF assms(1) life_inv_Start assms(2)] .
  from stuck_stopped [OF i assms(4,5)] have e: "sr_run s = RunReturned" "\<not> sr_listening s" "Wait_returns s"
    "\<forall>x \<in> set (sr_conns s). is_done (snd x)" by simp_all
  from stuck_cleared [OF i logged_reaches [OF assms(1-3,6)] e(4)] e show ?thesis by simp
qed

end
