(* ===== verification/NetExamples.thy ===== *)
theory NetExamples
  imports ServerLife Examples
begin

text \<open>
  A small network to evaluate sessions on: a clock that advances by a nanosecond with every
  reading, a socket that takes at most four bytes at a time, and a connection that reports
  \<open>Ready\<close> and takes every frame.
\<close>

type_synonym net_state = "gotime \<times> bytes"

definition sample_sys :: "net_state Sys" where
  "sample_sys = \<lparr>sys_read = (\<lambda>_ n. (Inr (0, [], Some EAGAIN), n)),
     sys_write = (\<lambda>b (t, wire). (Inr (int (length (take 4 b)), None), (t, wire @ take 4 b))),
     sys_closeWrite = (\<lambda>n. n), sys_close = (\<lambda>n. n), sys_poll = (\<lambda>_ _ n. (Inr (1, None), n))\<rparr>"

definition sample_net :: "(unit, net_state) Net" where
  "sample_net = \<lparr>net_New = (\<lambda>_ link. (None, link)), net_Tick = (\<lambda>_ link. ([EventReady], link)),
     net_Send = (\<lambda>_ payload (t, (clock, wire)). (None, (t, (clock, wire @ payload)))),
     net_Closed = (\<lambda>(t, _). t_closed t), net_Close = (\<lambda>(t, n). (t\<lparr>t_closed := True\<rparr>, n)),
     net_Verdict = (\<lambda>_. []), net_Sys = sample_sys,
     net_Now = (\<lambda>(clock, wire). (clock + 1, (clock + 1, wire)))\<rparr>"

definition sample_link :: "net_state link" where
  "sample_link = (NewSocketTransport, (0, []))"

lemma sample_honest: "honest_socket sample_sys snd"
  by (auto simp: honest_socket_def sample_sys_def min_def)

lemma sample_clock: "clock_advances sample_net fst"
  by (auto simp: clock_advances_def sample_net_def sample_sys_def)

definition sample_session :: "(unit world, unit, net_state) Session" where
  "sample_session = \<lparr>s_link = sample_link,
     s_core = NewCore sample_registry RoleClient DefaultConfig empty_world, s_plain = [], s_refusal = None\<rparr>"

definition sample_schema :: "u32 list" where
  "sample_schema = [1, 2, 3, 4, 10, 11, 12]"

lemma sample_declared: "RequireDeclared sample_registry sample_schema = None"
  by (simp add: RequireDeclared_def RequireDeclaredIn_def sample_registry_def sample_schema_def echo_def
      count_def Unary_def ServerStream_def zero_Method_def MessageIDs_def)

lemma sample_NewSession: "NewSession sample_net sample_link sample_schema sample_registry RoleClient
    DefaultConfig empty_world = (Inr sample_session, sample_link)"
  by (simp add: NewSession_def sample_declared) (simp add: sample_net_def sample_session_def)

text \<open>The session after its first tick, and after a call.\<close>

lemma sample_core_idle: "Tick now (sample_core role) = sample_core role"
  by (simp add: Tick_def expirePending_def expireInflight_def Let_def sortedKeys_def
      sorted_list_of_fset.rep_eq)

lemma sample_core_drain: "Core_Drain sink (sample_core role) s = Some (sample_core role, s)"
proof -
  have b: "c_outbox (sample_core role) = NewOutbox 64 1024 65536"
    by (simp add: sample_defs)
  have "drainCredits sink (NewOutbox p t q) s = (True, NewOutbox p t q, s)" for p t q
    by (simp add: drainCredits_def ready_credits_def NewOutbox_def sorted_list_of_fset.rep_eq)
  moreover have "drainFrames sink (NewOutbox p t q) s = Some (NewOutbox p t q, s)" for p t q
    by (subst drainFrames.simps) (simp add: NewOutbox_def)
  ultimately have "Outbox_Drain sink (NewOutbox p t q) s = Some (NewOutbox p t q, s)" for p t q
    by (simp add: Outbox_Drain_def)
  then show ?thesis by (simp add: Core_Drain_def b sample_defs)
qed

lemma sample_Tick: "Session_Tick sample_net 5 sample_session
    = Some (sample_session\<lparr>s_core := sample_core RoleClient\<rparr>)"
proof -
  have t: "net_Tick sample_net 5 link = ([EventReady], link)" for link by (simp add: sample_net_def)
  have "with_core (Tick 5) (fold (session_event 5) [EventReady] (sample_session\<lparr>s_link := sample_link\<rparr>))
      = sample_session\<lparr>s_core := sample_core RoleClient\<rparr>"
    by (simp add: with_core_def sample_session_def sample_core_def [symmetric] sample_core_idle)
  then show ?thesis
    by (simp only: Session_Tick_def t prod.case Let_def Session.select_convs sample_core_drain option.case)
      (simp add: sample_session_def sample_core_drain)
qed

lemma sample_call_record:
  "\<exists>r. c_pending (snd sample_call) = fmupd 0 r fmempty \<and> w_deadline r = 2000001000"
proof -
  obtain r where "c_pending (snd sample_call) = fmupd 0 r (c_pending (sample_core RoleClient))"
    "w_deadline r = deadline_of (call_ctx None (Within (2 * Second))) 1000"
    using Core_Call_bare [OF sample_call_eq] by auto
  then show ?thesis
    by (intro exI [of _ r]) (simp add: call_ctx_def Within_def deadline_of_def Ctx_HasDeadline_def
        zero_Ctx_def millisOf_def Milliseconds_def)
qed

lemma sample_call_deadline: "NextDeadline (snd sample_call) = (2000001000, True)"
proof -
  obtain r where r: "c_pending (snd sample_call) = fmupd 0 r fmempty" "w_deadline r = 2000001000"
    using sample_call_record by blast
  have "c_inflight (snd sample_call) = fmempty"
    using Core_Call_result [OF sample_call_eq sample_core_inv] by (simp add: call_result_def)
  with r show ?thesis
    by (simp add: NextDeadline_def Let_def sortedKeys_def sorted_list_of_fset.rep_eq earlier_def)
qed

lemma sample_session_reaches:
  "session_reaches sample_net sample_session [0] [] (sample_session\<lparr>s_core := snd sample_call\<rparr>)"
proof -
  have "session_reaches sample_net sample_session [] [] (sample_session\<lparr>s_core := sample_core RoleClient\<rparr>)"
    by (rule session_reaches.tick [OF session_reaches.start _ sample_Tick])
      (simp add: sample_net_def sample_session_def NewCore_def Let_def)
  from session_reaches.call [OF this, of 1 "[7]" None "Within (2 * Second)" 1000 0] show ?thesis
    by (simp add: Session_Call_def sample_call_eq [simplified])
qed

subsection \<open>A client and a server\<close>

definition sample_client :: "(unit world, unit, net_state) Client" where
  "sample_client = \<lparr>cl_session = sample_session\<lparr>s_core := snd sample_call\<rparr>, cl_policy = DefaultWaitPolicy,
     cl_backlog = []\<rparr>"

lemma sample_client_waits: "before_deadline 2000001000 0 sample_client" "answered_in 0 sample_client"
proof -
  have i: "core_inv (snd sample_call)" using reaches_accounted [OF sample_reaches accounted_new]
    by (simp add: accounted_def)
  obtain r where "c_pending (snd sample_call) = fmupd 0 r fmempty" "w_deadline r = 2000001000"
    using sample_call_record by blast
  with i show "before_deadline 2000001000 0 sample_client" "answered_in 0 sample_client"
    by (simp_all add: before_deadline_def answered_in_def sample_client_def)
qed

text \<open>The server is stopped when its clock shows 100.\<close>

definition sample_server :: "(unit world, net_state, (nat \<times> observation) list) Server" where
  "sample_server = \<lparr>sv_schema = sample_schema, sv_registry = sample_registry, sv_config = DefaultConfig,
     sv_policy = DefaultWaitPolicy, sv_observer = log_observer, sv_configure = None,
     sv_stopped = (\<lambda>link. 100 \<le> fst (snd link))\<rparr>"

lemma sample_accepts: "NewSession sample_net sample_link sample_schema sample_registry RoleServer
    DefaultConfig empty_world = (Inr (sample_session\<lparr>s_core :=
      NewCore sample_registry RoleServer DefaultConfig empty_world\<rparr>), sample_link)"
  by (simp add: NewSession_def sample_declared) (simp add: sample_net_def sample_session_def)

text \<open>\<open>Stop\<close> between the second load of the flag and the wait group: \<open>Stop\<close> has returned and \<open>Wait\<close>
  returns, and a connection is opened after that.\<close>

definition sample_stopped :: "(unit world, unit, net_state, (nat \<times> observation) list) Serving" where
  "sample_stopped = (Start empty_world [])\<lparr>sr_run := RunCounting (Some sample_link), sr_stopped := True,
     sr_listening := False\<rparr>"

definition sample_overtaken :: "(unit world, unit, net_state, (nat \<times> observation) list) Serving" where
  "sample_overtaken = sample_stopped\<lparr>sr_run := RunHead, sr_nextConnection := 1, sr_connections := 1,
     sr_conns := [(1, ServeHead (sample_session\<lparr>s_core := NewCore sample_registry RoleServer DefaultConfig empty_world\<rparr>))],
     sr_observed := [(1, Opened)]\<rparr>"

lemma sample_stopped_reached:
  "(server_step sample_net sample_server)\<^sup>*\<^sup>* (Start empty_world []) sample_stopped"
proof -
  let ?R = "server_step sample_net sample_server"
    and ?s = "Start empty_world [] :: (unit world, unit, net_state, (nat \<times> observation) list) Serving"
  have "?R ?s (?s\<lparr>sr_run := RunAccept\<rparr>)"
    using run_step.head [of ?s] by (simp add: server_step_def Start_def)
  moreover have "?R (?s\<lparr>sr_run := RunAccept\<rparr>) (?s\<lparr>sr_run := RunAccepted (Some sample_link)\<rparr>)"
    using run_step.accept [of "?s\<lparr>sr_run := RunAccept\<rparr>" "Some sample_link"] by (simp add: server_step_def Start_def)
  moreover have "?R (?s\<lparr>sr_run := RunAccepted (Some sample_link)\<rparr>) (?s\<lparr>sr_run := RunCounting (Some sample_link)\<rparr>)"
    using run_step.accepted [of "?s\<lparr>sr_run := RunAccepted (Some sample_link)\<rparr>" "Some sample_link"]
    by (simp add: server_step_def Start_def)
  moreover have "?R (?s\<lparr>sr_run := RunCounting (Some sample_link)\<rparr>)
      (?s\<lparr>sr_run := RunCounting (Some sample_link), sr_stopped := True\<rparr>)"
    using stop_step.store [of "?s\<lparr>sr_run := RunCounting (Some sample_link)\<rparr>"] by (simp add: server_step_def Start_def)
  moreover have "?R (?s\<lparr>sr_run := RunCounting (Some sample_link), sr_stopped := True\<rparr>) sample_stopped"
    using stop_step.close [of "?s\<lparr>sr_run := RunCounting (Some sample_link), sr_stopped := True\<rparr>"]
    by (simp add: server_step_def Start_def sample_stopped_def)
  ultimately show ?thesis by (meson rtranclp.intros)
qed

lemma sample_overtaken_reached: "(server_step sample_net sample_server)\<^sup>*\<^sup>* sample_stopped sample_overtaken"
proof -
  let ?u = "sample_stopped\<lparr>sr_nextConnection := 1, sr_connections := 1, sr_run := RunHead,
     sr_conns := [(1, ServeStart (Some sample_link))]\<rparr>"
  have "run_step sample_stopped ?u"
    using run_step.counting [of sample_stopped "Some sample_link" 1] by (simp add: sample_stopped_def Start_def)
  moreover have "conn_step sample_net sample_server ?u sample_overtaken"
    using conn_step.serve [of 0 ?u 1 "ServeStart (Some sample_link)" sample_net sample_server]
    by (simp add: sample_stopped_def sample_overtaken_def Start_def sample_server_def sample_accepts
        get_world_def NewCore_def Let_def log_observer_def)
  ultimately have "server_step sample_net sample_server sample_stopped ?u"
    "server_step sample_net sample_server ?u sample_overtaken" by (simp_all add: server_step_def)
  then show ?thesis by (meson rtranclp.intros)
qed

lemma wait_overtaken:
  "\<exists>s s'. (server_step sample_net sample_server)\<^sup>*\<^sup>* (Start empty_world []) s
    \<and> sr_stopped s \<and> \<not> sr_listening s \<and> Wait_returns s \<and> sr_observed s = []
    \<and> (server_step sample_net sample_server)\<^sup>*\<^sup>* s s' \<and> sr_observed s' = [(1, Opened)]"
  using sample_stopped_reached sample_overtaken_reached
  by (intro exI [of _ sample_stopped] exI [of _ sample_overtaken])
    (simp add: sample_stopped_def sample_overtaken_def Start_def Wait_returns_def)

end
