(* ===== verification/Runtime.thy ===== *)
theory Runtime
  imports BodyCodec
begin

text \<open>
  The runtime of the generated codecs (\<open>examples/demo/generated/runtime.go\<close>): the little-endian
  writer, and the reader with its allocation limits.  A signed integer of Go is the word of its
  width, read as a signed number by \<open>sint\<close>; a float is the word of its bits, because the code only
  moves the bits.  A failed read leaves the reader as it was.
\<close>

subsection \<open>Errors and limits\<close>

datatype DecodeError =
    UnexpectedEOF (Needed: nat) (Remaining_bytes: nat)
  | InvalidBool (InvalidByte: u8)
  | InvalidUTF8
  | LengthOverflow (Overflow_Length: nat) (Overflow_Limit: int)

fun DecodeError_Error :: "DecodeError \<Rightarrow> string" where
  "DecodeError_Error (UnexpectedEOF needed remaining) =
    ''unexpected eof: needed '' @ fmt_d needed @ '' bytes, '' @ fmt_d remaining @ '' remaining''"
| "DecodeError_Error (InvalidBool value) =
    ''invalid bool: 0x'' @ fmt_02X value @ '' is neither 0x00 nor 0x01''"
| "DecodeError_Error InvalidUTF8 = ''invalid utf-8 in string''"
| "DecodeError_Error (LengthOverflow len limit) =
    ''length overflow: length '' @ fmt_d len @ '' exceeds limit ''
      @ (if limit < 0 then ''-'' @ fmt_d (nat (- limit)) else fmt_d (nat limit))"

record Limits =
  MaxStringLen :: int
  MaxBytesLen :: int
  MaxArrayCount :: int

definition UnlimitedLimits :: Limits where
  "UnlimitedLimits = \<lparr>MaxStringLen = max_u32, MaxBytesLen = max_u32, MaxArrayCount = max_u32\<rparr>"

subsection \<open>Fixed widths, little endian\<close>

definition PutUint16 :: "16 word \<Rightarrow> bytes" where
  "PutUint16 v = [ucast v, ucast (drop_bit 8 v)]"

definition Uint16 :: "bytes \<Rightarrow> 16 word" where
  "Uint16 b = ucast (b ! 0) OR push_bit 8 (ucast (b ! 1))"

definition PutUint64 :: "u64 \<Rightarrow> bytes" where
  "PutUint64 v = PutUint32 (ucast v) @ PutUint32 (ucast (drop_bit 32 v))"

definition Uint64 :: "bytes \<Rightarrow> u64" where
  "Uint64 b = ucast (Uint32 b) OR push_bit 32 (ucast (Uint32 (drop 4 b)))"

lemma length_PutUint [simp]: "length (PutUint16 v) = 2" "length (PutUint64 w) = 8"
  by (simp_all add: PutUint16_def PutUint64_def)

lemma PutUint_not_Nil [simp]: "PutUint16 v \<noteq> []" "PutUint64 w \<noteq> []"
  by (metis length_PutUint(1) list.size(3) zero_neq_numeral,
      metis length_PutUint(2) list.size(3) zero_neq_numeral)

lemma Uint16_PutUint16 [simp]: "Uint16 (PutUint16 v @ r) = v"
  unfolding Uint16_def PutUint16_def
proof (rule bit_word_eqI)
  fix n assume "n < LENGTH(16)"
  then consider "n < 8" | "8 \<le> n" "n < 16" by force
  then show "bit (ucast (([ucast v, ucast (drop_bit 8 v)] @ r) ! 0)
      OR push_bit 8 (ucast (([ucast v, ucast (drop_bit 8 v)] @ r) ! 1)) :: 16 word) n = bit v n"
    by cases (auto simp: bit_simps)
qed

lemma Uint64_PutUint64 [simp]: "Uint64 (PutUint64 v @ r) = v"
proof -
  have "ucast (ucast v :: u32) OR push_bit 32 (ucast (ucast (drop_bit 32 v) :: u32)) = v"
    by (rule bit_word_eqI) (auto simp: bit_simps)
  then show ?thesis by (simp add: Uint64_def PutUint64_def)
qed

subsection \<open>Writing\<close>

record Writer =
  wr_buf :: bytes

definition NewWriter :: Writer where
  "NewWriter = \<lparr>wr_buf = []\<rparr>"

definition Writer_Bytes :: "Writer \<Rightarrow> bytes" where
  "Writer_Bytes w = wr_buf w"

definition Writer_Len :: "Writer \<Rightarrow> nat" where
  "Writer_Len w = length (wr_buf w)"

definition append_bytes :: "bytes \<Rightarrow> Writer \<Rightarrow> Writer" where
  "append_bytes b w = w\<lparr>wr_buf := wr_buf w @ b\<rparr>"

definition WriteBool :: "bool \<Rightarrow> Writer \<Rightarrow> Writer" where
  "WriteBool value w = (if value then append_bytes [0x01] w else append_bytes [0x00] w)"

definition WriteI8 :: "8 word \<Rightarrow> Writer \<Rightarrow> Writer" where
  "WriteI8 value w = append_bytes [value] w"

definition WriteU8 :: "u8 \<Rightarrow> Writer \<Rightarrow> Writer" where
  "WriteU8 value w = append_bytes [value] w"

definition WriteU16 :: "16 word \<Rightarrow> Writer \<Rightarrow> Writer" where
  "WriteU16 value w = append_bytes (PutUint16 value) w"

definition WriteI16 :: "16 word \<Rightarrow> Writer \<Rightarrow> Writer" where
  "WriteI16 value w = WriteU16 value w"

definition WriteU32 :: "u32 \<Rightarrow> Writer \<Rightarrow> Writer" where
  "WriteU32 value w = append_bytes (PutUint32 value) w"

definition WriteI32 :: "u32 \<Rightarrow> Writer \<Rightarrow> Writer" where
  "WriteI32 value w = WriteU32 value w"

definition WriteU64 :: "u64 \<Rightarrow> Writer \<Rightarrow> Writer" where
  "WriteU64 value w = append_bytes (PutUint64 value) w"

definition WriteI64 :: "u64 \<Rightarrow> Writer \<Rightarrow> Writer" where
  "WriteI64 value w = WriteU64 value w"

definition WriteF32 :: "u32 \<Rightarrow> Writer \<Rightarrow> Writer" where
  "WriteF32 value w = WriteU32 value w"

definition WriteF64 :: "u64 \<Rightarrow> Writer \<Rightarrow> Writer" where
  "WriteF64 value w = WriteU64 value w"

definition WriteString :: "string \<Rightarrow> Writer \<Rightarrow> Writer" where
  "WriteString value w = append_bytes (bytes_of_string value) (WriteU32 (word_of_nat (length value)) w)"

definition WriteBytes :: "bytes \<Rightarrow> Writer \<Rightarrow> Writer" where
  "WriteBytes value w = append_bytes value (WriteU32 (word_of_nat (length value)) w)"

definition WriteArrayCount :: "nat \<Rightarrow> Writer \<Rightarrow> Writer" where
  "WriteArrayCount count w = WriteU32 (word_of_nat count) w"

subsection \<open>Reading\<close>

record Reader =
  rd_buf :: bytes
  rd_pos :: nat
  rd_limits :: Limits

type_synonym 'a reading = "(DecodeError + 'a) \<times> Reader"

definition NewReaderWithLimits :: "bytes \<Rightarrow> Limits \<Rightarrow> Reader" where
  "NewReaderWithLimits buf limits = \<lparr>rd_buf = buf, rd_pos = 0, rd_limits = limits\<rparr>"

definition NewReader :: "bytes \<Rightarrow> Reader" where
  "NewReader buf = \<lparr>rd_buf = buf, rd_pos = 0, rd_limits = UnlimitedLimits\<rparr>"

definition Position :: "Reader \<Rightarrow> nat" where
  "Position r = rd_pos r"

definition Reader_Remaining :: "Reader \<Rightarrow> nat" where
  "Reader_Remaining r = length (rd_buf r) - rd_pos r"

definition Reader_IsEmpty :: "Reader \<Rightarrow> bool" where
  "Reader_IsEmpty r \<longleftrightarrow> Reader_Remaining r = 0"

definition FieldAbsent :: "Reader \<Rightarrow> bool" where
  "FieldAbsent r \<longleftrightarrow> Reader_Remaining r = 0"

definition Reader_Limits :: "Reader \<Rightarrow> Limits" where
  "Reader_Limits r = rd_limits r"

definition Reader_take :: "nat \<Rightarrow> Reader \<Rightarrow> bytes reading" where
  "Reader_take len r =
    (if len > Reader_Remaining r then (Inl (UnexpectedEOF len (Reader_Remaining r)), r)
     else (Inr (take len (drop (rd_pos r) (rd_buf r))), r\<lparr>rd_pos := rd_pos r + len\<rparr>))"

text \<open>\<open>value, err := read; return f(value), err\<close>.\<close>

definition and_then :: "'a reading \<Rightarrow> ('a \<Rightarrow> 'b) \<Rightarrow> 'b reading" where
  "and_then res f = (case res of (Inl err, r) \<Rightarrow> (Inl err, r) | (Inr value, r) \<Rightarrow> (Inr (f value), r))"

definition ReaderU8 :: "Reader \<Rightarrow> u8 reading" where
  "ReaderU8 r = and_then (Reader_take 1 r) (\<lambda>bytes. bytes ! 0)"

definition ReadBool :: "Reader \<Rightarrow> bool reading" where
  "ReadBool r =
    (case ReaderU8 r of
       (Inl err, r) \<Rightarrow> (Inl err, r)
     | (Inr value, r) \<Rightarrow>
         if value = 0x00 then (Inr False, r)
         else if value = 0x01 then (Inr True, r)
         else (Inl (InvalidBool value), r\<lparr>rd_pos := rd_pos r - 1\<rparr>))"

definition ReaderI8 :: "Reader \<Rightarrow> 8 word reading" where
  "ReaderI8 r = ReaderU8 r"

definition ReaderU16 :: "Reader \<Rightarrow> 16 word reading" where
  "ReaderU16 r = and_then (Reader_take 2 r) Uint16"

definition ReaderI16 :: "Reader \<Rightarrow> 16 word reading" where
  "ReaderI16 r = ReaderU16 r"

definition ReaderU32 :: "Reader \<Rightarrow> u32 reading" where
  "ReaderU32 r = and_then (Reader_take 4 r) Uint32"

definition ReaderI32 :: "Reader \<Rightarrow> u32 reading" where
  "ReaderI32 r = ReaderU32 r"

definition ReaderU64 :: "Reader \<Rightarrow> u64 reading" where
  "ReaderU64 r = and_then (Reader_take 8 r) Uint64"

definition ReaderI64 :: "Reader \<Rightarrow> u64 reading" where
  "ReaderI64 r = ReaderU64 r"

definition ReaderF32 :: "Reader \<Rightarrow> u32 reading" where
  "ReaderF32 r = ReaderU32 r"

definition ReaderF64 :: "Reader \<Rightarrow> u64 reading" where
  "ReaderF64 r = ReaderU64 r"

definition readLength :: "int \<Rightarrow> Reader \<Rightarrow> nat reading" where
  "readLength limit r =
    (let start = rd_pos r in
     case ReaderU32 r of
       (Inl err, r) \<Rightarrow> (Inl err, r)
     | (Inr len, r) \<Rightarrow>
         if int (unat len) > limit
         then (Inl (LengthOverflow (unat len) limit), r\<lparr>rd_pos := start\<rparr>)
         else (Inr (unat len), r))"

definition takeChecked :: "nat \<Rightarrow> nat \<Rightarrow> Reader \<Rightarrow> bytes reading" where
  "takeChecked len start r =
    (let remaining = Reader_Remaining r in
     if len > remaining then (Inl (UnexpectedEOF len remaining), r\<lparr>rd_pos := start\<rparr>)
     else Reader_take len r)"

definition ReaderBytes :: "Reader \<Rightarrow> bytes reading" where
  "ReaderBytes r =
    (let start = rd_pos r in
     case readLength (MaxBytesLen (rd_limits r)) r of
       (Inl err, r) \<Rightarrow> (Inl err, r)
     | (Inr len, r) \<Rightarrow> takeChecked len start r)"

definition ReaderString :: "Reader \<Rightarrow> string reading" where
  "ReaderString r =
    (let start = rd_pos r in
     case readLength (MaxStringLen (rd_limits r)) r of
       (Inl err, r) \<Rightarrow> (Inl err, r)
     | (Inr len, r) \<Rightarrow>
         (case takeChecked len start r of
            (Inl err, r) \<Rightarrow> (Inl err, r)
          | (Inr bytes, r) \<Rightarrow>
              if \<not> utf8_valid bytes then (Inl InvalidUTF8, r\<lparr>rd_pos := start\<rparr>)
              else (Inr (string_of_bytes bytes), r)))"

definition ReadArrayCount :: "Reader \<Rightarrow> nat reading" where
  "ReadArrayCount r = readLength (MaxArrayCount (rd_limits r)) r"

lemmas reader_defs = Reader_take_def and_then_def ReaderU8_def ReadBool_def ReaderU16_def ReaderU32_def
  ReaderU64_def ReaderI8_def ReaderI16_def ReaderI32_def ReaderI64_def ReaderF32_def ReaderF64_def
  readLength_def takeChecked_def ReaderBytes_def ReaderString_def ReadArrayCount_def Let_def

subsection \<open>A failed read changes nothing; a successful one only moves forward\<close>

text \<open>What every method of the reader promises.\<close>

definition well_behaved :: "(Reader \<Rightarrow> 'a reading) \<Rightarrow> bool" where
  "well_behaved read \<longleftrightarrow> (\<forall>r. case read r of
       (Inl err, r') \<Rightarrow> r' = r
     | (Inr v, r') \<Rightarrow> \<exists>n. r' = r\<lparr>rd_pos := rd_pos r + n\<rparr> \<and> n \<le> Reader_Remaining r)"

lemma well_behavedI:
  assumes "\<And>r err r'. read r = (Inl err, r') \<Longrightarrow> r' = r"
    and "\<And>r v r'. read r = (Inr v, r') \<Longrightarrow> \<exists>n. r' = r\<lparr>rd_pos := rd_pos r + n\<rparr> \<and> n \<le> Reader_Remaining r"
  shows "well_behaved read"
  using assms by (auto simp: well_behaved_def split: prod.splits sum.splits)

lemma well_behavedD:
  "well_behaved read \<Longrightarrow> read r = (Inl err, r') \<Longrightarrow> r' = r"
  "well_behaved read \<Longrightarrow> read r = (Inr v, r') \<Longrightarrow> \<exists>n. r' = r\<lparr>rd_pos := rd_pos r + n\<rparr> \<and> n \<le> Reader_Remaining r"
  by (auto simp: well_behaved_def dest!: spec [where x = r])

lemma take_behaves: "well_behaved (Reader_take n)"
  by (rule well_behavedI) (auto simp: Reader_take_def not_less split: if_splits)

lemma and_then_behaves: "well_behaved read \<Longrightarrow> well_behaved (\<lambda>r. and_then (read r) f)"
  by (rule well_behavedI)
    (auto simp: and_then_def split: prod.splits sum.splits dest: well_behavedD)

lemma fixed_width_behave:
  "well_behaved ReaderU8" "well_behaved ReaderU16" "well_behaved ReaderU32" "well_behaved ReaderU64"
  "well_behaved ReaderI8" "well_behaved ReaderI16" "well_behaved ReaderI32" "well_behaved ReaderI64"
  "well_behaved ReaderF32" "well_behaved ReaderF64"
  unfolding ReaderU8_def [abs_def] ReaderU16_def [abs_def] ReaderU32_def [abs_def]
    ReaderU64_def [abs_def] ReaderI8_def [abs_def] ReaderI16_def [abs_def] ReaderI32_def [abs_def]
    ReaderI64_def [abs_def] ReaderF32_def [abs_def] ReaderF64_def [abs_def]
  by (intro and_then_behaves take_behaves)+

lemma ReadBool_behaves: "well_behaved ReadBool"
proof (rule well_behavedI)
  fix r err r' assume "ReadBool r = (Inl err, r')"
  then show "r' = r"
    by (auto simp: ReadBool_def ReaderU8_def and_then_def Reader_take_def split: prod.splits sum.splits if_splits)
next
  fix r v r' assume "ReadBool r = (Inr v, r')"
  then show "\<exists>n. r' = r\<lparr>rd_pos := rd_pos r + n\<rparr> \<and> n \<le> Reader_Remaining r"
    by (auto simp: ReadBool_def split: prod.splits sum.splits if_splits
        dest!: well_behavedD(2) [OF fixed_width_behave(1)])
qed

lemma reset_advanced [simp]: "r\<lparr>rd_pos := n, rd_pos := m\<rparr> = r\<lparr>rd_pos := m\<rparr>" "r\<lparr>rd_pos := rd_pos r\<rparr> = r"
  by simp_all

lemma readLength_behaves: "well_behaved (readLength limit)"
proof (rule well_behavedI)
  fix r err r' assume "readLength limit r = (Inl err, r')"
  then show "r' = r"
    by (auto simp: readLength_def Let_def split: prod.splits sum.splits if_splits
        dest!: well_behavedD [OF fixed_width_behave(3)])
next
  fix r v r' assume "readLength limit r = (Inr v, r')"
  then show "\<exists>n. r' = r\<lparr>rd_pos := rd_pos r + n\<rparr> \<and> n \<le> Reader_Remaining r"
    by (auto simp: readLength_def Let_def split: prod.splits sum.splits if_splits
        dest!: well_behavedD(2) [OF fixed_width_behave(3)])
qed

lemma moved_twice:
  "n \<le> length b - p \<Longrightarrow> m \<le> length b - (p + n)
    \<Longrightarrow> \<exists>k. r\<lparr>rd_pos := p + n + m\<rparr> = r\<lparr>rd_pos := p + k\<rparr> \<and> k \<le> length b - p"
  by (intro exI [where x = "n + m"]) (simp add: add.assoc)

lemma takeChecked_cases:
  "takeChecked len start r = (Inl err, r') \<Longrightarrow> r' = r\<lparr>rd_pos := start\<rparr>"
  "takeChecked len start r = (Inr b, r') \<Longrightarrow>
     r' = r\<lparr>rd_pos := rd_pos r + len\<rparr> \<and> len \<le> Reader_Remaining r \<and> b = take len (drop (rd_pos r) (rd_buf r))"
  by (auto simp: takeChecked_def Reader_take_def Let_def split: if_splits)

lemma ReaderBytes_behaves: "well_behaved ReaderBytes"
proof (rule well_behavedI)
  fix r err r' assume "ReaderBytes r = (Inl err, r')"
  then show "r' = r"
    by (auto simp: ReaderBytes_def Let_def split: prod.splits sum.splits
        dest!: well_behavedD [OF readLength_behaves] takeChecked_cases)
next
  fix r v r' assume "ReaderBytes r = (Inr v, r')"
  then show "\<exists>n. r' = r\<lparr>rd_pos := rd_pos r + n\<rparr> \<and> n \<le> Reader_Remaining r"
    by (auto simp: ReaderBytes_def Let_def Reader_Remaining_def moved_twice split: prod.splits sum.splits
        dest!: well_behavedD(2) [OF readLength_behaves] takeChecked_cases)
qed

lemma ReaderString_behaves: "well_behaved ReaderString"
proof (rule well_behavedI)
  fix r err r' assume "ReaderString r = (Inl err, r')"
  then show "r' = r"
    by (auto simp: ReaderString_def Let_def split: prod.splits sum.splits if_splits
        dest!: well_behavedD [OF readLength_behaves] takeChecked_cases)
next
  fix r v r' assume "ReaderString r = (Inr v, r')"
  then show "\<exists>n. r' = r\<lparr>rd_pos := rd_pos r + n\<rparr> \<and> n \<le> Reader_Remaining r"
    by (auto simp: ReaderString_def Let_def Reader_Remaining_def moved_twice split: prod.splits sum.splits if_splits
        dest!: well_behavedD(2) [OF readLength_behaves] takeChecked_cases)
qed

lemma ReadArrayCount_behaves: "well_behaved ReadArrayCount"
  using readLength_behaves by (auto simp: well_behaved_def ReadArrayCount_def)

end
