(* ===== verification/FieldCodec.thy ===== *)
theory FieldCodec
  imports Runtime
begin

text \<open>
  What the generated codecs have in common.  An \<open>Encode\<close> method writes the fields in their order;
  a \<open>Decode\<close> method is a sequence of blocks \<open>if r.FieldAbsent() { value.F = zero } else
  { value.F, err = r.Read(); if err != nil { return err } }\<close>, which \<open>decode_field\<close> is.  The locale
  \<open>wire_field\<close> states what a codec needs of a field type, that a written field is read back where
  the cursor stands; the locale \<open>message_codec\<close> states what the demo needs of a codec.
\<close>

subsection \<open>Decoders\<close>

text \<open>A method that changes the reader and the value, and may return an error.\<close>

type_synonym 'm decoder = "Reader \<Rightarrow> 'm \<Rightarrow> DecodeError option \<times> Reader \<times> 'm"

text \<open>A failed read returns the zero value, which the assignment stores before \<open>err\<close> is looked at.\<close>

definition decode_field :: "'a \<Rightarrow> (Reader \<Rightarrow> 'a reading) \<Rightarrow> ('a \<Rightarrow> 'm \<Rightarrow> 'm) \<Rightarrow> 'm decoder" where
  "decode_field zero read assign r value =
    (if FieldAbsent r then (None, r, assign zero value)
     else case read r of
       (Inl err, r) \<Rightarrow> (Some err, r, assign zero value)
     | (Inr v, r) \<Rightarrow> (None, r, assign v value))"

text \<open>One block after the other, up to the first error.\<close>

fun decode_fields :: "'m decoder list \<Rightarrow> 'm decoder" where
  "decode_fields [] r value = (None, r, value)"
| "decode_fields (d # ds) r value =
    (case d r value of
       (Some err, r, value) \<Rightarrow> (Some err, r, value)
     | (None, r, value) \<Rightarrow> decode_fields ds r value)"

subsection \<open>Where the reader stands\<close>

definition left :: "Reader \<Rightarrow> bytes" where
  "left r = drop (rd_pos r) (rd_buf r)"

definition skip :: "nat \<Rightarrow> Reader \<Rightarrow> Reader" where
  "skip n r = r\<lparr>rd_pos := rd_pos r + n\<rparr>"

lemma left_new [simp]: "left (NewReader b) = b" "left (NewReaderWithLimits b l) = b"
  by (simp_all add: left_def NewReader_def NewReaderWithLimits_def)

lemma left_skip [simp]: "left (skip n r) = drop n (left r)"
  by (simp add: left_def skip_def add.commute)

lemma skip_limits [simp]: "rd_limits (skip n r) = rd_limits r"
  by (simp add: skip_def)

lemma skip_skip [simp]: "skip n (skip m r) = skip (m + n) r"
  by (simp add: skip_def add.assoc)

lemma skip_0 [simp]: "skip 0 r = r"
  by (simp add: skip_def)

lemma Remaining_left: "Reader_Remaining r = length (left r)"
  by (simp add: Reader_Remaining_def left_def)

lemma FieldAbsent_left: "FieldAbsent r \<longleftrightarrow> left r = []"
  by (simp add: FieldAbsent_def Remaining_left)

lemma take_left:
  "left r = b @ rest \<Longrightarrow> length b = n \<Longrightarrow> Reader_take n r = (Inr b, skip n r)"
proof -
  assume a: "left r = b @ rest" "length b = n"
  then have "take n (drop (rd_pos r) (rd_buf r)) = b" by (simp add: left_def)
  with a show ?thesis by (simp add: Reader_take_def Remaining_left skip_def)
qed

lemma ReaderU32_left: "left r = PutUint32 v @ rest \<Longrightarrow> ReaderU32 r = (Inr v, skip 4 r)"
  by (simp add: ReaderU32_def take_left and_then_def)

lemma takeChecked_left:
  "left r = b @ rest \<Longrightarrow> length b = n \<Longrightarrow> takeChecked n start r = (Inr b, skip n r)"
  by (simp add: takeChecked_def Remaining_left Let_def take_left)

subsection \<open>Field types\<close>

locale wire_field =
  fixes put :: "'a \<Rightarrow> Writer \<Rightarrow> Writer"
    and get :: "Reader \<Rightarrow> 'a reading"
    and image :: "'a \<Rightarrow> bytes"
    and fits :: "Limits \<Rightarrow> 'a \<Rightarrow> bool"
  assumes put_image: "wr_buf (put x w) = wr_buf w @ image x"
    and get_image: "fits (rd_limits r) x \<Longrightarrow> left r = image x @ rest
      \<Longrightarrow> get r = (Inr x, skip (length (image x)) r)"
    and image_not_Nil: "image x \<noteq> []"
begin

lemma decode_field_present:
  assumes "fits (rd_limits r) x" and "left r = image x @ rest"
  shows "decode_field zero get assign r m = (None, skip (length (image x)) r, assign x m)"
  using assms get_image [OF assms] image_not_Nil [of x] by (simp add: decode_field_def FieldAbsent_left)

lemma get_put: "fits UnlimitedLimits x \<Longrightarrow> fst (get (NewReader (wr_buf (put x NewWriter)))) = Inr x"
  using get_image [of "NewReader (wr_buf (put x NewWriter))" x "[]"]
  by (simp add: put_image NewWriter_def) (simp add: NewReader_def)

text \<open>A field is determined by its bytes, so what two writers append tells the values apart.\<close>

lemma image_inject: "fits l x \<Longrightarrow> fits l y \<Longrightarrow> image x = image y \<Longrightarrow> x = y"
  using get_image [of "NewReaderWithLimits (image x) l" x "[]"]
    get_image [of "NewReaderWithLimits (image y) l" y "[]"]
  by (simp add: NewReaderWithLimits_def left_def)

end

lemma decode_field_absent:
  "left r = [] \<Longrightarrow> decode_field zero get assign r m = (None, r, assign zero m)"
  by (simp add: decode_field_def FieldAbsent_left)

definition any_fits :: "Limits \<Rightarrow> 'a \<Rightarrow> bool" where [simp]: "any_fits l x \<longleftrightarrow> True"

definition bytes_fit :: "Limits \<Rightarrow> bytes \<Rightarrow> bool" where
  "bytes_fit l b \<longleftrightarrow> fits_u32 b \<and> int (length b) \<le> MaxBytesLen l"

definition string_fits :: "Limits \<Rightarrow> string \<Rightarrow> bool" where
  "string_fits l s \<longleftrightarrow> string_ok s \<and> int (length s) \<le> MaxStringLen l"

lemma ReaderBytes_left:
  assumes "bytes_fit (rd_limits r) b" and u: "left r = bytes_field b @ rest"
  shows "ReaderBytes r = (Inr b, skip (length (bytes_field b)) r)"
proof -
  from assms(1) have n: "length b < 2 ^ 32" "int (length b) \<le> MaxBytesLen (rd_limits r)"
    by (simp_all add: bytes_fit_def fits_u32_def)
  have "left r = PutUint32 (word_of_nat (length b)) @ (b @ rest)" using u by (simp add: bytes_field_def)
  from ReaderU32_left [OF this] have h: "ReaderU32 r = (Inr (word_of_nat (length b)), skip 4 r)" .
  have "takeChecked (length b) (rd_pos r) (skip 4 r) = (Inr b, skip (length b) (skip 4 r))"
    by (rule takeChecked_left) (simp_all add: u bytes_field_def)
  with n show ?thesis by (simp add: ReaderBytes_def readLength_def h Let_def bytes_field_def)
qed

lemma ReaderString_left:
  assumes "string_fits (rd_limits r) s" and u: "left r = string_field s @ rest"
  shows "ReaderString r = (Inr s, skip (length (string_field s)) r)"
proof -
  from assms(1) have n: "length s < 2 ^ 32" "int (length s) \<le> MaxStringLen (rd_limits r)"
    and v: "utf8_valid (bytes_of_string s)"
    by (simp_all add: string_fits_def string_ok_def fits_u32_def valid_string_def)
  have "left r = PutUint32 (word_of_nat (length s)) @ (bytes_of_string s @ rest)"
    using u by (simp add: string_field_def)
  from ReaderU32_left [OF this] have h: "ReaderU32 r = (Inr (word_of_nat (length s)), skip 4 r)" .
  have "takeChecked (length s) (rd_pos r) (skip 4 r) = (Inr (bytes_of_string s), skip (length s) (skip 4 r))"
    by (rule takeChecked_left) (simp_all add: u string_field_def)
  with n v show ?thesis by (simp add: ReaderString_def readLength_def h Let_def string_field_def)
qed

lemmas writes = append_bytes_def WriteBool_def WriteU8_def WriteU16_def WriteU32_def WriteU64_def
  WriteBytes_def WriteString_def WriteArrayCount_def

interpretation w_u8: wire_field WriteU8 ReaderU8 "\<lambda>v. [v]" any_fits
  by unfold_locales (auto simp: writes ReaderU8_def and_then_def take_left [where b = "[_]"])

interpretation w_bool: wire_field WriteBool ReadBool "\<lambda>v. [if v then 1 else 0]" any_fits
  by unfold_locales (auto simp: writes ReadBool_def ReaderU8_def and_then_def take_left [where b = "[_]"])

interpretation w_u16: wire_field WriteU16 ReaderU16 PutUint16 any_fits
  by unfold_locales
    (auto simp: writes ReaderU16_def and_then_def take_left Uint16_PutUint16 [where r = "[]", simplified])

interpretation w_u32: wire_field WriteU32 ReaderU32 u32_field any_fits
  by unfold_locales (auto simp: writes ReaderU32_left u32_field_def)

interpretation w_u64: wire_field WriteU64 ReaderU64 PutUint64 any_fits
  by unfold_locales
    (auto simp: writes ReaderU64_def and_then_def take_left Uint64_PutUint64 [where r = "[]", simplified])

interpretation w_bytes: wire_field WriteBytes ReaderBytes bytes_field bytes_fit
  by unfold_locales (auto simp: writes ReaderBytes_left bytes_field_def)

interpretation w_string: wire_field WriteString ReaderString string_field string_fits
  by unfold_locales (auto simp: writes ReaderString_left string_field_def)

subsection \<open>Sequences of fields\<close>

text \<open>On a body that goes on with \<open>b\<close> the block reads it and does \<open>f\<close> to the value; on a body that
  has ended it does \<open>z\<close>.\<close>

definition reads :: "Limits \<Rightarrow> 'm decoder \<Rightarrow> bytes \<Rightarrow> ('m \<Rightarrow> 'm) \<Rightarrow> bool" where
  "reads l d b f \<longleftrightarrow> (\<forall>r m rest. rd_limits r = l \<longrightarrow> left r = b @ rest
     \<longrightarrow> d r m = (None, skip (length b) r, f m))"

definition absent :: "'m decoder \<Rightarrow> ('m \<Rightarrow> 'm) \<Rightarrow> bool" where
  "absent d z \<longleftrightarrow> (\<forall>r m. left r = [] \<longrightarrow> d r m = (None, r, z m))"

lemma readsD: "reads l d b f \<Longrightarrow> rd_limits r = l \<Longrightarrow> left r = b @ rest
    \<Longrightarrow> d r m = (None, skip (length b) r, f m)"
  by (simp add: reads_def)

lemma absentD: "absent d z \<Longrightarrow> left r = [] \<Longrightarrow> d r m = (None, r, z m)"
  by (simp add: absent_def)

context wire_field
begin

lemma reads_field: "fits l x \<Longrightarrow> reads l (decode_field zero get assign) (image x) (assign x)"
  by (simp add: reads_def decode_field_present)

end

lemma absent_field: "absent (decode_field zero get assign) (assign zero)"
  by (simp add: absent_def decode_field_absent)

lemma absent_fields: "list_all2 absent ds zs \<Longrightarrow> absent (decode_fields ds) (fold (\<lambda>z. z) zs)"
proof (induction rule: list_all2_induct)
  case (Cons d ds z zs)
  then show ?case by (simp add: absent_def)
qed (simp add: absent_def)

text \<open>A body that stops after the first \<open>n\<close> fields, whatever \<open>n\<close> is.\<close>

lemma decode_prefix:
  assumes "list_all2 (\<lambda>d (b, f). reads l d b f) ds xs" and "list_all2 absent ds zs"
    and "rd_limits r = l" and "left r = concat (map fst (take n xs))"
  shows "decode_fields ds r m =
    (None, skip (length (left r)) r, fold (\<lambda>f. f) (map snd (take n xs) @ drop n zs) m)"
  using assms
proof (induction ds arbitrary: xs zs r m n)
  case (Cons d ds)
  from Cons.prems(1) obtain b f xs' where x: "xs = (b, f) # xs'" and d: "reads l d b f"
    and ds: "list_all2 (\<lambda>d (b, f). reads l d b f) ds xs'" by (auto simp: list_all2_Cons1)
  from Cons.prems(2) obtain z zs' where z: "zs = z # zs'" and a: "absent d z" "list_all2 absent ds zs'"
    by (auto simp: list_all2_Cons1)
  show ?case
  proof (cases n)
    case 0
    then have "left r = []" using Cons.prems(4) by simp
    then show ?thesis using absentD [OF absent_fields [OF Cons.prems(2)]] 0 by simp
  next
    case (Suc k)
    then have u: "left r = b @ concat (map fst (take k xs'))" using Cons.prems(4) by (simp add: x)
    from readsD [OF d Cons.prems(3) u] Cons.IH [OF ds a(2), of "skip (length b) r" k] Cons.prems(3)
    show ?thesis by (simp add: Suc x z u)
  qed
qed simp

lemma decode_all:
  assumes "list_all2 (\<lambda>d (b, f). reads l d b f) ds xs"
  shows "reads l (decode_fields ds) (concat (map fst xs)) (fold (\<lambda>f. f) (map snd xs))"
  using assms
proof (induction rule: list_all2_induct)
  case (Cons d ds x xs)
  then show ?case by (auto simp: reads_def)
qed (simp add: reads_def)

subsection \<open>Messages\<close>

locale message_codec =
  fixes Encode :: "'m \<Rightarrow> Writer \<Rightarrow> Writer"
    and Decode :: "'m decoder"
    and fits :: "Limits \<Rightarrow> 'm \<Rightarrow> bool"
    and zero :: 'm
  assumes encode_appends: "wr_buf (Encode v w) = wr_buf w @ wr_buf (Encode v NewWriter)"
    and decode_reads: "fits l v \<Longrightarrow> reads l Decode (wr_buf (Encode v NewWriter)) (\<lambda>_. v)"
    and decode_absent: "absent Decode (\<lambda>_. zero)"
begin

text \<open>A message is read back, whatever follows it: the fields a newer peer added are not looked at.\<close>

lemma decode_encode:
  "fits UnlimitedLimits v \<Longrightarrow> \<exists>r. Decode (NewReader (wr_buf (Encode v NewWriter) @ extra)) m = (None, r, v)"
  using readsD [OF decode_reads, where r = "NewReader (wr_buf (Encode v NewWriter) @ extra)"]
  by (simp add: left_def NewReader_def)

lemma decode_empty: "Decode (NewReader []) m = (None, NewReader [], zero)"
  using absentD [OF decode_absent] by simp

lemma encode_inject:
  assumes "fits UnlimitedLimits u" and "fits UnlimitedLimits v"
    and "wr_buf (Encode u NewWriter) = wr_buf (Encode v NewWriter)"
  shows "u = v"
proof -
  have read: "snd (snd (Decode (NewReader (wr_buf (Encode x NewWriter))) zero)) = x"
    if "fits UnlimitedLimits x" for x
    using decode_encode [OF that, of "[]" zero] by (metis append_Nil2 snd_conv)
  show ?thesis using read [OF assms(1)] read [OF assms(2)] unfolding assms(3) by (rule trans [OF sym])
qed

end

text \<open>A message of one field.\<close>

lemma wr_buf_new [simp]: "wr_buf NewWriter = []"
  by (simp add: NewWriter_def)

lemma message_of_field:
  assumes field: "wire_field put get img fits"
    and enc: "\<And>v w. enc v w = put (sel v) w"
    and dec: "dec = decode_fields [decode_field z get assign]"
    and assign: "\<And>v m. assign (sel v) m = v" "\<And>m. assign z m = zero"
  shows "message_codec enc dec (\<lambda>l v. fits l (sel v)) zero"
proof
  fix v w
  show "wr_buf (enc v w) = wr_buf w @ wr_buf (enc v NewWriter)"
    using wire_field.put_image [OF field] by (simp add: enc)
next
  fix l v assume "fits l (sel v)"
  have "assign (sel v) = (\<lambda>_. v)" by (simp add: assign fun_eq_iff)
  moreover from decode_all [of l "[decode_field z get assign]" "[(img (sel v), assign (sel v))]"]
    wire_field.reads_field [OF field \<open>fits l (sel v)\<close>, of z assign]
  have "reads l dec (img (sel v)) (assign (sel v))" by (simp add: dec)
  ultimately show "reads l dec (wr_buf (enc v NewWriter)) (\<lambda>_. v)"
    by (simp add: enc wire_field.put_image [OF field])
next
  show "absent dec (\<lambda>_. zero)"
    by (simp add: dec absent_def decode_field_absent assign)
qed

end
