(* ===== verification/Codecs.thy ===== *)
theory Codecs
  imports FieldCodec
begin

text \<open>
  The generated codecs of the demo (\<open>examples/demo/generated/*_rpc.go\<close>) and the models they read
  and write (\<open>examples/demo/models\<close>): one record per model, \<open>M_Encode\<close> and \<open>M_Decode\<close> for the two
  methods of \<open>MRpcCodec\<close>.  Every codec is an instance of \<open>message_codec\<close>.
\<close>

subsection \<open>Messages without fields\<close>

datatype FRpcVoid = FRpcVoid

definition FRpcVoid_Encode :: "FRpcVoid \<Rightarrow> Writer \<Rightarrow> Writer" where
  "FRpcVoid_Encode value w = w"

definition FRpcVoid_Decode :: "FRpcVoid decoder" where
  "FRpcVoid_Decode r value = (None, r, value)"

datatype FRpcReflectRequest = FRpcReflectRequest

definition FRpcReflectRequest_Encode :: "FRpcReflectRequest \<Rightarrow> Writer \<Rightarrow> Writer" where
  "FRpcReflectRequest_Encode value w = w"

definition FRpcReflectRequest_Decode :: "FRpcReflectRequest decoder" where
  "FRpcReflectRequest_Decode r value = (None, r, value)"

datatype TicksRequest = TicksRequest

definition TicksRequest_Encode :: "TicksRequest \<Rightarrow> Writer \<Rightarrow> Writer" where
  "TicksRequest_Encode value w = w"

definition TicksRequest_Decode :: "TicksRequest decoder" where
  "TicksRequest_Decode r value = (None, r, value)"

interpretation FRpcVoid: message_codec FRpcVoid_Encode FRpcVoid_Decode any_fits FRpcVoid
  by unfold_locales
    (auto simp: FRpcVoid_Encode_def FRpcVoid_Decode_def reads_def absent_def,
      (metis (full_types) FRpcVoid.exhaust)+)

interpretation FRpcReflectRequest: message_codec FRpcReflectRequest_Encode FRpcReflectRequest_Decode any_fits FRpcReflectRequest
  by unfold_locales
    (auto simp: FRpcReflectRequest_Encode_def FRpcReflectRequest_Decode_def reads_def absent_def,
      (metis (full_types) FRpcReflectRequest.exhaust)+)

interpretation TicksRequest: message_codec TicksRequest_Encode TicksRequest_Decode any_fits TicksRequest
  by unfold_locales
    (auto simp: TicksRequest_Encode_def TicksRequest_Decode_def reads_def absent_def,
      (metis (full_types) TicksRequest.exhaust)+)

subsection \<open>Messages of one field\<close>

record EchoRequest =
  EchoRequest_Text :: string

definition EchoRequest_Encode :: "EchoRequest \<Rightarrow> Writer \<Rightarrow> Writer" where
  "EchoRequest_Encode value w = WriteString (EchoRequest_Text value) w"

definition EchoRequest_Decode :: "EchoRequest decoder" where
  "EchoRequest_Decode =
    decode_fields [decode_field [] ReaderString (\<lambda>x value. value\<lparr>EchoRequest_Text := x\<rparr>)]"

record EchoResponse =
  EchoResponse_Text :: string

definition EchoResponse_Encode :: "EchoResponse \<Rightarrow> Writer \<Rightarrow> Writer" where
  "EchoResponse_Encode value w = WriteString (EchoResponse_Text value) w"

definition EchoResponse_Decode :: "EchoResponse decoder" where
  "EchoResponse_Decode =
    decode_fields [decode_field [] ReaderString (\<lambda>x value. value\<lparr>EchoResponse_Text := x\<rparr>)]"

record CountRequest =
  CountRequest_Count :: u32

definition CountRequest_Encode :: "CountRequest \<Rightarrow> Writer \<Rightarrow> Writer" where
  "CountRequest_Encode value w = WriteU32 (CountRequest_Count value) w"

definition CountRequest_Decode :: "CountRequest decoder" where
  "CountRequest_Decode =
    decode_fields [decode_field 0 ReaderU32 (\<lambda>x value. value\<lparr>CountRequest_Count := x\<rparr>)]"

record CountItem =
  CountItem_Value :: u32

definition CountItem_Encode :: "CountItem \<Rightarrow> Writer \<Rightarrow> Writer" where
  "CountItem_Encode value w = WriteU32 (CountItem_Value value) w"

definition CountItem_Decode :: "CountItem decoder" where
  "CountItem_Decode =
    decode_fields [decode_field 0 ReaderU32 (\<lambda>x value. value\<lparr>CountItem_Value := x\<rparr>)]"

record UploadOpen =
  UploadOpen_Name :: string

definition UploadOpen_Encode :: "UploadOpen \<Rightarrow> Writer \<Rightarrow> Writer" where
  "UploadOpen_Encode value w = WriteString (UploadOpen_Name value) w"

definition UploadOpen_Decode :: "UploadOpen decoder" where
  "UploadOpen_Decode =
    decode_fields [decode_field [] ReaderString (\<lambda>x value. value\<lparr>UploadOpen_Name := x\<rparr>)]"

record UploadChunk =
  UploadChunk_Size :: u32

definition UploadChunk_Encode :: "UploadChunk \<Rightarrow> Writer \<Rightarrow> Writer" where
  "UploadChunk_Encode value w = WriteU32 (UploadChunk_Size value) w"

definition UploadChunk_Decode :: "UploadChunk decoder" where
  "UploadChunk_Decode =
    decode_fields [decode_field 0 ReaderU32 (\<lambda>x value. value\<lparr>UploadChunk_Size := x\<rparr>)]"

record UploadDone =
  UploadDone_Summary :: string

definition UploadDone_Encode :: "UploadDone \<Rightarrow> Writer \<Rightarrow> Writer" where
  "UploadDone_Encode value w = WriteString (UploadDone_Summary value) w"

definition UploadDone_Decode :: "UploadDone decoder" where
  "UploadDone_Decode =
    decode_fields [decode_field [] ReaderString (\<lambda>x value. value\<lparr>UploadDone_Summary := x\<rparr>)]"

record ChatOpen =
  ChatOpen_Room :: string

definition ChatOpen_Encode :: "ChatOpen \<Rightarrow> Writer \<Rightarrow> Writer" where
  "ChatOpen_Encode value w = WriteString (ChatOpen_Room value) w"

definition ChatOpen_Decode :: "ChatOpen decoder" where
  "ChatOpen_Decode =
    decode_fields [decode_field [] ReaderString (\<lambda>x value. value\<lparr>ChatOpen_Room := x\<rparr>)]"

record ChatSaid =
  ChatSaid_Line :: string

definition ChatSaid_Encode :: "ChatSaid \<Rightarrow> Writer \<Rightarrow> Writer" where
  "ChatSaid_Encode value w = WriteString (ChatSaid_Line value) w"

definition ChatSaid_Decode :: "ChatSaid decoder" where
  "ChatSaid_Decode =
    decode_fields [decode_field [] ReaderString (\<lambda>x value. value\<lparr>ChatSaid_Line := x\<rparr>)]"

record ChatHeard =
  ChatHeard_Line :: string

definition ChatHeard_Encode :: "ChatHeard \<Rightarrow> Writer \<Rightarrow> Writer" where
  "ChatHeard_Encode value w = WriteString (ChatHeard_Line value) w"

definition ChatHeard_Decode :: "ChatHeard decoder" where
  "ChatHeard_Decode =
    decode_fields [decode_field [] ReaderString (\<lambda>x value. value\<lparr>ChatHeard_Line := x\<rparr>)]"

record TicksItem =
  TicksItem_Value :: u32

definition TicksItem_Encode :: "TicksItem \<Rightarrow> Writer \<Rightarrow> Writer" where
  "TicksItem_Encode value w = WriteU32 (TicksItem_Value value) w"

definition TicksItem_Decode :: "TicksItem decoder" where
  "TicksItem_Decode =
    decode_fields [decode_field 0 ReaderU32 (\<lambda>x value. value\<lparr>TicksItem_Value := x\<rparr>)]"

record FRpcCredit =
  FRpcCredit_Items :: u32

definition FRpcCredit_Encode :: "FRpcCredit \<Rightarrow> Writer \<Rightarrow> Writer" where
  "FRpcCredit_Encode value w = WriteU32 (FRpcCredit_Items value) w"

definition FRpcCredit_Decode :: "FRpcCredit decoder" where
  "FRpcCredit_Decode =
    decode_fields [decode_field 0 ReaderU32 (\<lambda>x value. value\<lparr>FRpcCredit_Items := x\<rparr>)]"

interpretation EchoRequest: message_codec EchoRequest_Encode EchoRequest_Decode
    "\<lambda>l v. string_fits l (EchoRequest_Text v)" "\<lparr>EchoRequest_Text = []\<rparr>"
  by (rule message_of_field [OF w_string.wire_field_axioms EchoRequest_Encode_def EchoRequest_Decode_def]) simp_all

interpretation EchoResponse: message_codec EchoResponse_Encode EchoResponse_Decode
    "\<lambda>l v. string_fits l (EchoResponse_Text v)" "\<lparr>EchoResponse_Text = []\<rparr>"
  by (rule message_of_field [OF w_string.wire_field_axioms EchoResponse_Encode_def EchoResponse_Decode_def]) simp_all

interpretation CountRequest: message_codec CountRequest_Encode CountRequest_Decode
    "\<lambda>l v. any_fits l (CountRequest_Count v)" "\<lparr>CountRequest_Count = 0\<rparr>"
  by (rule message_of_field [OF w_u32.wire_field_axioms CountRequest_Encode_def CountRequest_Decode_def]) simp_all

interpretation CountItem: message_codec CountItem_Encode CountItem_Decode
    "\<lambda>l v. any_fits l (CountItem_Value v)" "\<lparr>CountItem_Value = 0\<rparr>"
  by (rule message_of_field [OF w_u32.wire_field_axioms CountItem_Encode_def CountItem_Decode_def]) simp_all

interpretation UploadOpen: message_codec UploadOpen_Encode UploadOpen_Decode
    "\<lambda>l v. string_fits l (UploadOpen_Name v)" "\<lparr>UploadOpen_Name = []\<rparr>"
  by (rule message_of_field [OF w_string.wire_field_axioms UploadOpen_Encode_def UploadOpen_Decode_def]) simp_all

interpretation UploadChunk: message_codec UploadChunk_Encode UploadChunk_Decode
    "\<lambda>l v. any_fits l (UploadChunk_Size v)" "\<lparr>UploadChunk_Size = 0\<rparr>"
  by (rule message_of_field [OF w_u32.wire_field_axioms UploadChunk_Encode_def UploadChunk_Decode_def]) simp_all

interpretation UploadDone: message_codec UploadDone_Encode UploadDone_Decode
    "\<lambda>l v. string_fits l (UploadDone_Summary v)" "\<lparr>UploadDone_Summary = []\<rparr>"
  by (rule message_of_field [OF w_string.wire_field_axioms UploadDone_Encode_def UploadDone_Decode_def]) simp_all

interpretation ChatOpen: message_codec ChatOpen_Encode ChatOpen_Decode
    "\<lambda>l v. string_fits l (ChatOpen_Room v)" "\<lparr>ChatOpen_Room = []\<rparr>"
  by (rule message_of_field [OF w_string.wire_field_axioms ChatOpen_Encode_def ChatOpen_Decode_def]) simp_all

interpretation ChatSaid: message_codec ChatSaid_Encode ChatSaid_Decode
    "\<lambda>l v. string_fits l (ChatSaid_Line v)" "\<lparr>ChatSaid_Line = []\<rparr>"
  by (rule message_of_field [OF w_string.wire_field_axioms ChatSaid_Encode_def ChatSaid_Decode_def]) simp_all

interpretation ChatHeard: message_codec ChatHeard_Encode ChatHeard_Decode
    "\<lambda>l v. string_fits l (ChatHeard_Line v)" "\<lparr>ChatHeard_Line = []\<rparr>"
  by (rule message_of_field [OF w_string.wire_field_axioms ChatHeard_Encode_def ChatHeard_Decode_def]) simp_all

interpretation TicksItem: message_codec TicksItem_Encode TicksItem_Decode
    "\<lambda>l v. any_fits l (TicksItem_Value v)" "\<lparr>TicksItem_Value = 0\<rparr>"
  by (rule message_of_field [OF w_u32.wire_field_axioms TicksItem_Encode_def TicksItem_Decode_def]) simp_all

interpretation FRpcCredit: message_codec FRpcCredit_Encode FRpcCredit_Decode
    "\<lambda>l v. any_fits l (FRpcCredit_Items v)" "\<lparr>FRpcCredit_Items = 0\<rparr>"
  by (rule message_of_field [OF w_u32.wire_field_axioms FRpcCredit_Encode_def FRpcCredit_Decode_def]) simp_all

subsection \<open>Messages of several fields\<close>

record FRpcError =
  FRpcError_Code :: u32
  FRpcError_Message :: string

definition FRpcError_Encode :: "FRpcError \<Rightarrow> Writer \<Rightarrow> Writer" where
  "FRpcError_Encode value w =
     WriteString (FRpcError_Message value)
      (WriteU32 (FRpcError_Code value) w)"

definition FRpcError_Decode :: "FRpcError decoder" where
  "FRpcError_Decode = decode_fields
    [decode_field 0 ReaderU32 (\<lambda>x value. value\<lparr>FRpcError_Code := x\<rparr>),
     decode_field [] ReaderString (\<lambda>x value. value\<lparr>FRpcError_Message := x\<rparr>)]"

definition zero_FRpcError :: FRpcError where
  "zero_FRpcError = \<lparr>FRpcError_Code = 0, FRpcError_Message = []\<rparr>"

definition FRpcError_fits :: "Limits \<Rightarrow> FRpcError \<Rightarrow> bool" where
  "FRpcError_fits l v \<longleftrightarrow> string_fits l (FRpcError_Message v)"

text \<open>What each field looks like on the wire and does to the value, and what its absence does.\<close>

definition FRpcError_parts :: "FRpcError \<Rightarrow> (bytes \<times> (FRpcError \<Rightarrow> FRpcError)) list" where
  "FRpcError_parts v =
    [(u32_field (FRpcError_Code v), \<lambda>value. value\<lparr>FRpcError_Code := FRpcError_Code v\<rparr>),
     (string_field (FRpcError_Message v), \<lambda>value. value\<lparr>FRpcError_Message := FRpcError_Message v\<rparr>)]"

definition FRpcError_zeros :: "(FRpcError \<Rightarrow> FRpcError) list" where
  "FRpcError_zeros =
    [\<lambda>value. value\<lparr>FRpcError_Code := 0\<rparr>,
     \<lambda>value. value\<lparr>FRpcError_Message := []\<rparr>]"

lemma FRpcError_decodes:
  "FRpcError_fits l v \<Longrightarrow> list_all2 (\<lambda>d (b, f). reads l d b f)
     [decode_field 0 ReaderU32 (\<lambda>x value. value\<lparr>FRpcError_Code := x\<rparr>),
     decode_field [] ReaderString (\<lambda>x value. value\<lparr>FRpcError_Message := x\<rparr>)]
     (FRpcError_parts v)"
  unfolding FRpcError_parts_def FRpcError_fits_def
  by (simp only: list_all2_Cons list_all2_Nil prod.case simp_thms)
    (intro conjI w_string.reads_field w_u32.reads_field; simp)

lemma FRpcError_absent:
  "list_all2 absent
     [decode_field 0 ReaderU32 (\<lambda>x value. value\<lparr>FRpcError_Code := x\<rparr>),
     decode_field [] ReaderString (\<lambda>x value. value\<lparr>FRpcError_Message := x\<rparr>)]
     FRpcError_zeros"
  unfolding FRpcError_zeros_def
  by (simp only: list_all2_Cons list_all2_Nil simp_thms) (intro conjI absent_field)

lemma FRpcError_Encode_parts: "wr_buf (FRpcError_Encode v w) = wr_buf w @ concat (map fst (FRpcError_parts v))"
  by (simp add: FRpcError_Encode_def FRpcError_parts_def w_string.put_image w_u32.put_image)

interpretation FRpcError: message_codec FRpcError_Encode FRpcError_Decode FRpcError_fits zero_FRpcError
proof
  fix v w
  show "wr_buf (FRpcError_Encode v w) = wr_buf w @ wr_buf (FRpcError_Encode v NewWriter)"
    by (simp add: FRpcError_Encode_parts)
next
  fix l v assume "FRpcError_fits l v"
  from decode_all [OF FRpcError_decodes [OF this]]
  show "reads l FRpcError_Decode (wr_buf (FRpcError_Encode v NewWriter)) (\<lambda>_. v)"
    by (simp add: FRpcError_Encode_parts FRpcError_Decode_def) (simp add: FRpcError_parts_def reads_def)
next
  from absent_fields [OF FRpcError_absent] show "absent FRpcError_Decode (\<lambda>_. zero_FRpcError)"
    by (simp add: FRpcError_Decode_def) (simp add: FRpcError_zeros_def absent_def zero_FRpcError_def)
qed

record FRpcCtx =
  FRpcCtx_DeadlineMs :: u32
  FRpcCtx_TraceId :: bytes
  FRpcCtx_SpanId :: bytes
  FRpcCtx_Token :: string
  FRpcCtx_Tenant :: string
  FRpcCtx_IdempotencyKey :: bytes
  FRpcCtx_InitialCredit :: u32

definition FRpcCtx_Encode :: "FRpcCtx \<Rightarrow> Writer \<Rightarrow> Writer" where
  "FRpcCtx_Encode value w =
     WriteU32 (FRpcCtx_InitialCredit value)
      (WriteBytes (FRpcCtx_IdempotencyKey value)
      (WriteString (FRpcCtx_Tenant value)
      (WriteString (FRpcCtx_Token value)
      (WriteBytes (FRpcCtx_SpanId value)
      (WriteBytes (FRpcCtx_TraceId value)
      (WriteU32 (FRpcCtx_DeadlineMs value) w))))))"

definition FRpcCtx_Decode :: "FRpcCtx decoder" where
  "FRpcCtx_Decode = decode_fields
    [decode_field 0 ReaderU32 (\<lambda>x value. value\<lparr>FRpcCtx_DeadlineMs := x\<rparr>),
     decode_field [] ReaderBytes (\<lambda>x value. value\<lparr>FRpcCtx_TraceId := x\<rparr>),
     decode_field [] ReaderBytes (\<lambda>x value. value\<lparr>FRpcCtx_SpanId := x\<rparr>),
     decode_field [] ReaderString (\<lambda>x value. value\<lparr>FRpcCtx_Token := x\<rparr>),
     decode_field [] ReaderString (\<lambda>x value. value\<lparr>FRpcCtx_Tenant := x\<rparr>),
     decode_field [] ReaderBytes (\<lambda>x value. value\<lparr>FRpcCtx_IdempotencyKey := x\<rparr>),
     decode_field 0 ReaderU32 (\<lambda>x value. value\<lparr>FRpcCtx_InitialCredit := x\<rparr>)]"

definition zero_FRpcCtx :: FRpcCtx where
  "zero_FRpcCtx = \<lparr>FRpcCtx_DeadlineMs = 0, FRpcCtx_TraceId = [], FRpcCtx_SpanId = [], FRpcCtx_Token = [], FRpcCtx_Tenant = [], FRpcCtx_IdempotencyKey = [], FRpcCtx_InitialCredit = 0\<rparr>"

definition FRpcCtx_fits :: "Limits \<Rightarrow> FRpcCtx \<Rightarrow> bool" where
  "FRpcCtx_fits l v \<longleftrightarrow> bytes_fit l (FRpcCtx_TraceId v) \<and> bytes_fit l (FRpcCtx_SpanId v) \<and> string_fits l (FRpcCtx_Token v) \<and> string_fits l (FRpcCtx_Tenant v) \<and> bytes_fit l (FRpcCtx_IdempotencyKey v)"

text \<open>What each field looks like on the wire and does to the value, and what its absence does.\<close>

definition FRpcCtx_parts :: "FRpcCtx \<Rightarrow> (bytes \<times> (FRpcCtx \<Rightarrow> FRpcCtx)) list" where
  "FRpcCtx_parts v =
    [(u32_field (FRpcCtx_DeadlineMs v), \<lambda>value. value\<lparr>FRpcCtx_DeadlineMs := FRpcCtx_DeadlineMs v\<rparr>),
     (bytes_field (FRpcCtx_TraceId v), \<lambda>value. value\<lparr>FRpcCtx_TraceId := FRpcCtx_TraceId v\<rparr>),
     (bytes_field (FRpcCtx_SpanId v), \<lambda>value. value\<lparr>FRpcCtx_SpanId := FRpcCtx_SpanId v\<rparr>),
     (string_field (FRpcCtx_Token v), \<lambda>value. value\<lparr>FRpcCtx_Token := FRpcCtx_Token v\<rparr>),
     (string_field (FRpcCtx_Tenant v), \<lambda>value. value\<lparr>FRpcCtx_Tenant := FRpcCtx_Tenant v\<rparr>),
     (bytes_field (FRpcCtx_IdempotencyKey v), \<lambda>value. value\<lparr>FRpcCtx_IdempotencyKey := FRpcCtx_IdempotencyKey v\<rparr>),
     (u32_field (FRpcCtx_InitialCredit v), \<lambda>value. value\<lparr>FRpcCtx_InitialCredit := FRpcCtx_InitialCredit v\<rparr>)]"

definition FRpcCtx_zeros :: "(FRpcCtx \<Rightarrow> FRpcCtx) list" where
  "FRpcCtx_zeros =
    [\<lambda>value. value\<lparr>FRpcCtx_DeadlineMs := 0\<rparr>,
     \<lambda>value. value\<lparr>FRpcCtx_TraceId := []\<rparr>,
     \<lambda>value. value\<lparr>FRpcCtx_SpanId := []\<rparr>,
     \<lambda>value. value\<lparr>FRpcCtx_Token := []\<rparr>,
     \<lambda>value. value\<lparr>FRpcCtx_Tenant := []\<rparr>,
     \<lambda>value. value\<lparr>FRpcCtx_IdempotencyKey := []\<rparr>,
     \<lambda>value. value\<lparr>FRpcCtx_InitialCredit := 0\<rparr>]"

lemma FRpcCtx_decodes:
  "FRpcCtx_fits l v \<Longrightarrow> list_all2 (\<lambda>d (b, f). reads l d b f)
     [decode_field 0 ReaderU32 (\<lambda>x value. value\<lparr>FRpcCtx_DeadlineMs := x\<rparr>),
     decode_field [] ReaderBytes (\<lambda>x value. value\<lparr>FRpcCtx_TraceId := x\<rparr>),
     decode_field [] ReaderBytes (\<lambda>x value. value\<lparr>FRpcCtx_SpanId := x\<rparr>),
     decode_field [] ReaderString (\<lambda>x value. value\<lparr>FRpcCtx_Token := x\<rparr>),
     decode_field [] ReaderString (\<lambda>x value. value\<lparr>FRpcCtx_Tenant := x\<rparr>),
     decode_field [] ReaderBytes (\<lambda>x value. value\<lparr>FRpcCtx_IdempotencyKey := x\<rparr>),
     decode_field 0 ReaderU32 (\<lambda>x value. value\<lparr>FRpcCtx_InitialCredit := x\<rparr>)]
     (FRpcCtx_parts v)"
  unfolding FRpcCtx_parts_def FRpcCtx_fits_def
  by (simp only: list_all2_Cons list_all2_Nil prod.case simp_thms)
    (intro conjI w_bytes.reads_field w_string.reads_field w_u32.reads_field; simp)

lemma FRpcCtx_absent:
  "list_all2 absent
     [decode_field 0 ReaderU32 (\<lambda>x value. value\<lparr>FRpcCtx_DeadlineMs := x\<rparr>),
     decode_field [] ReaderBytes (\<lambda>x value. value\<lparr>FRpcCtx_TraceId := x\<rparr>),
     decode_field [] ReaderBytes (\<lambda>x value. value\<lparr>FRpcCtx_SpanId := x\<rparr>),
     decode_field [] ReaderString (\<lambda>x value. value\<lparr>FRpcCtx_Token := x\<rparr>),
     decode_field [] ReaderString (\<lambda>x value. value\<lparr>FRpcCtx_Tenant := x\<rparr>),
     decode_field [] ReaderBytes (\<lambda>x value. value\<lparr>FRpcCtx_IdempotencyKey := x\<rparr>),
     decode_field 0 ReaderU32 (\<lambda>x value. value\<lparr>FRpcCtx_InitialCredit := x\<rparr>)]
     FRpcCtx_zeros"
  unfolding FRpcCtx_zeros_def
  by (simp only: list_all2_Cons list_all2_Nil simp_thms) (intro conjI absent_field)

lemma FRpcCtx_Encode_parts: "wr_buf (FRpcCtx_Encode v w) = wr_buf w @ concat (map fst (FRpcCtx_parts v))"
  by (simp add: FRpcCtx_Encode_def FRpcCtx_parts_def w_bytes.put_image w_string.put_image w_u32.put_image)

interpretation FRpcCtx: message_codec FRpcCtx_Encode FRpcCtx_Decode FRpcCtx_fits zero_FRpcCtx
proof
  fix v w
  show "wr_buf (FRpcCtx_Encode v w) = wr_buf w @ wr_buf (FRpcCtx_Encode v NewWriter)"
    by (simp add: FRpcCtx_Encode_parts)
next
  fix l v assume "FRpcCtx_fits l v"
  from decode_all [OF FRpcCtx_decodes [OF this]]
  show "reads l FRpcCtx_Decode (wr_buf (FRpcCtx_Encode v NewWriter)) (\<lambda>_. v)"
    by (simp add: FRpcCtx_Encode_parts FRpcCtx_Decode_def) (simp add: FRpcCtx_parts_def reads_def)
next
  from absent_fields [OF FRpcCtx_absent] show "absent FRpcCtx_Decode (\<lambda>_. zero_FRpcCtx)"
    by (simp add: FRpcCtx_Decode_def) (simp add: FRpcCtx_zeros_def absent_def zero_FRpcCtx_def)
qed

record FRpcMethodInfo =
  FRpcMethodInfo_Name :: string
  FRpcMethodInfo_Shape :: u32
  FRpcMethodInfo_RequestId :: u32
  FRpcMethodInfo_CallerItemId :: u32
  FRpcMethodInfo_ReplyId :: u32
  FRpcMethodInfo_RetrySafety :: u32

definition FRpcMethodInfo_Encode :: "FRpcMethodInfo \<Rightarrow> Writer \<Rightarrow> Writer" where
  "FRpcMethodInfo_Encode value w =
     WriteU32 (FRpcMethodInfo_RetrySafety value)
      (WriteU32 (FRpcMethodInfo_ReplyId value)
      (WriteU32 (FRpcMethodInfo_CallerItemId value)
      (WriteU32 (FRpcMethodInfo_RequestId value)
      (WriteU32 (FRpcMethodInfo_Shape value)
      (WriteString (FRpcMethodInfo_Name value) w)))))"

definition FRpcMethodInfo_Decode :: "FRpcMethodInfo decoder" where
  "FRpcMethodInfo_Decode = decode_fields
    [decode_field [] ReaderString (\<lambda>x value. value\<lparr>FRpcMethodInfo_Name := x\<rparr>),
     decode_field 0 ReaderU32 (\<lambda>x value. value\<lparr>FRpcMethodInfo_Shape := x\<rparr>),
     decode_field 0 ReaderU32 (\<lambda>x value. value\<lparr>FRpcMethodInfo_RequestId := x\<rparr>),
     decode_field 0 ReaderU32 (\<lambda>x value. value\<lparr>FRpcMethodInfo_CallerItemId := x\<rparr>),
     decode_field 0 ReaderU32 (\<lambda>x value. value\<lparr>FRpcMethodInfo_ReplyId := x\<rparr>),
     decode_field 0 ReaderU32 (\<lambda>x value. value\<lparr>FRpcMethodInfo_RetrySafety := x\<rparr>)]"

definition zero_FRpcMethodInfo :: FRpcMethodInfo where
  "zero_FRpcMethodInfo = \<lparr>FRpcMethodInfo_Name = [], FRpcMethodInfo_Shape = 0, FRpcMethodInfo_RequestId = 0, FRpcMethodInfo_CallerItemId = 0, FRpcMethodInfo_ReplyId = 0, FRpcMethodInfo_RetrySafety = 0\<rparr>"

definition FRpcMethodInfo_fits :: "Limits \<Rightarrow> FRpcMethodInfo \<Rightarrow> bool" where
  "FRpcMethodInfo_fits l v \<longleftrightarrow> string_fits l (FRpcMethodInfo_Name v)"

text \<open>What each field looks like on the wire and does to the value, and what its absence does.\<close>

definition FRpcMethodInfo_parts :: "FRpcMethodInfo \<Rightarrow> (bytes \<times> (FRpcMethodInfo \<Rightarrow> FRpcMethodInfo)) list" where
  "FRpcMethodInfo_parts v =
    [(string_field (FRpcMethodInfo_Name v), \<lambda>value. value\<lparr>FRpcMethodInfo_Name := FRpcMethodInfo_Name v\<rparr>),
     (u32_field (FRpcMethodInfo_Shape v), \<lambda>value. value\<lparr>FRpcMethodInfo_Shape := FRpcMethodInfo_Shape v\<rparr>),
     (u32_field (FRpcMethodInfo_RequestId v), \<lambda>value. value\<lparr>FRpcMethodInfo_RequestId := FRpcMethodInfo_RequestId v\<rparr>),
     (u32_field (FRpcMethodInfo_CallerItemId v), \<lambda>value. value\<lparr>FRpcMethodInfo_CallerItemId := FRpcMethodInfo_CallerItemId v\<rparr>),
     (u32_field (FRpcMethodInfo_ReplyId v), \<lambda>value. value\<lparr>FRpcMethodInfo_ReplyId := FRpcMethodInfo_ReplyId v\<rparr>),
     (u32_field (FRpcMethodInfo_RetrySafety v), \<lambda>value. value\<lparr>FRpcMethodInfo_RetrySafety := FRpcMethodInfo_RetrySafety v\<rparr>)]"

definition FRpcMethodInfo_zeros :: "(FRpcMethodInfo \<Rightarrow> FRpcMethodInfo) list" where
  "FRpcMethodInfo_zeros =
    [\<lambda>value. value\<lparr>FRpcMethodInfo_Name := []\<rparr>,
     \<lambda>value. value\<lparr>FRpcMethodInfo_Shape := 0\<rparr>,
     \<lambda>value. value\<lparr>FRpcMethodInfo_RequestId := 0\<rparr>,
     \<lambda>value. value\<lparr>FRpcMethodInfo_CallerItemId := 0\<rparr>,
     \<lambda>value. value\<lparr>FRpcMethodInfo_ReplyId := 0\<rparr>,
     \<lambda>value. value\<lparr>FRpcMethodInfo_RetrySafety := 0\<rparr>]"

lemma FRpcMethodInfo_decodes:
  "FRpcMethodInfo_fits l v \<Longrightarrow> list_all2 (\<lambda>d (b, f). reads l d b f)
     [decode_field [] ReaderString (\<lambda>x value. value\<lparr>FRpcMethodInfo_Name := x\<rparr>),
     decode_field 0 ReaderU32 (\<lambda>x value. value\<lparr>FRpcMethodInfo_Shape := x\<rparr>),
     decode_field 0 ReaderU32 (\<lambda>x value. value\<lparr>FRpcMethodInfo_RequestId := x\<rparr>),
     decode_field 0 ReaderU32 (\<lambda>x value. value\<lparr>FRpcMethodInfo_CallerItemId := x\<rparr>),
     decode_field 0 ReaderU32 (\<lambda>x value. value\<lparr>FRpcMethodInfo_ReplyId := x\<rparr>),
     decode_field 0 ReaderU32 (\<lambda>x value. value\<lparr>FRpcMethodInfo_RetrySafety := x\<rparr>)]
     (FRpcMethodInfo_parts v)"
  unfolding FRpcMethodInfo_parts_def FRpcMethodInfo_fits_def
  by (simp only: list_all2_Cons list_all2_Nil prod.case simp_thms)
    (intro conjI w_string.reads_field w_u32.reads_field; simp)

lemma FRpcMethodInfo_absent:
  "list_all2 absent
     [decode_field [] ReaderString (\<lambda>x value. value\<lparr>FRpcMethodInfo_Name := x\<rparr>),
     decode_field 0 ReaderU32 (\<lambda>x value. value\<lparr>FRpcMethodInfo_Shape := x\<rparr>),
     decode_field 0 ReaderU32 (\<lambda>x value. value\<lparr>FRpcMethodInfo_RequestId := x\<rparr>),
     decode_field 0 ReaderU32 (\<lambda>x value. value\<lparr>FRpcMethodInfo_CallerItemId := x\<rparr>),
     decode_field 0 ReaderU32 (\<lambda>x value. value\<lparr>FRpcMethodInfo_ReplyId := x\<rparr>),
     decode_field 0 ReaderU32 (\<lambda>x value. value\<lparr>FRpcMethodInfo_RetrySafety := x\<rparr>)]
     FRpcMethodInfo_zeros"
  unfolding FRpcMethodInfo_zeros_def
  by (simp only: list_all2_Cons list_all2_Nil simp_thms) (intro conjI absent_field)

lemma FRpcMethodInfo_Encode_parts: "wr_buf (FRpcMethodInfo_Encode v w) = wr_buf w @ concat (map fst (FRpcMethodInfo_parts v))"
  by (simp add: FRpcMethodInfo_Encode_def FRpcMethodInfo_parts_def w_string.put_image w_u32.put_image)

interpretation FRpcMethodInfo: message_codec FRpcMethodInfo_Encode FRpcMethodInfo_Decode FRpcMethodInfo_fits zero_FRpcMethodInfo
proof
  fix v w
  show "wr_buf (FRpcMethodInfo_Encode v w) = wr_buf w @ wr_buf (FRpcMethodInfo_Encode v NewWriter)"
    by (simp add: FRpcMethodInfo_Encode_parts)
next
  fix l v assume "FRpcMethodInfo_fits l v"
  from decode_all [OF FRpcMethodInfo_decodes [OF this]]
  show "reads l FRpcMethodInfo_Decode (wr_buf (FRpcMethodInfo_Encode v NewWriter)) (\<lambda>_. v)"
    by (simp add: FRpcMethodInfo_Encode_parts FRpcMethodInfo_Decode_def) (simp add: FRpcMethodInfo_parts_def reads_def)
next
  from absent_fields [OF FRpcMethodInfo_absent] show "absent FRpcMethodInfo_Decode (\<lambda>_. zero_FRpcMethodInfo)"
    by (simp add: FRpcMethodInfo_Decode_def) (simp add: FRpcMethodInfo_zeros_def absent_def zero_FRpcMethodInfo_def)
qed

subsection \<open>An array of messages\<close>

record FRpcReflectResponse =
  FRpcReflectResponse_Methods :: "FRpcMethodInfo list"
  FRpcReflectResponse_SchemaJson :: bytes

definition FRpcReflectResponse_Encode :: "FRpcReflectResponse \<Rightarrow> Writer \<Rightarrow> Writer" where
  "FRpcReflectResponse_Encode value w =
    (let w = WriteArrayCount (length (FRpcReflectResponse_Methods value)) w;
         w = fold FRpcMethodInfo_Encode (FRpcReflectResponse_Methods value) w
     in WriteBytes (FRpcReflectResponse_SchemaJson value) w)"

text \<open>The loop over the elements: \<open>elements\<close> are those appended so far.\<close>

fun decode_elements :: "nat \<Rightarrow> Reader \<Rightarrow> FRpcMethodInfo list \<Rightarrow> DecodeError option \<times> Reader \<times> FRpcMethodInfo list" where
  "decode_elements 0 r elements = (None, r, elements)"
| "decode_elements (Suc n) r elements =
    (case FRpcMethodInfo_Decode r zero_FRpcMethodInfo of
       (Some err, r, _) \<Rightarrow> (Some err, r, elements)
     | (None, r, element) \<Rightarrow> decode_elements n r (elements @ [element]))"

definition FRpcReflectResponse_Decode :: "FRpcReflectResponse decoder" where
  "FRpcReflectResponse_Decode r value =
    (case (if \<not> FieldAbsent r then ReadArrayCount r else (Inr 0, r)) of
       (Inl err, r) \<Rightarrow> (Some err, r, value)
     | (Inr methodsCount, r) \<Rightarrow>
         (case decode_elements methodsCount r [] of
            (Some err, r, _) \<Rightarrow> (Some err, r, value)
          | (None, r, methodsElements) \<Rightarrow>
              (let value = value\<lparr>FRpcReflectResponse_Methods := methodsElements\<rparr>
               in decode_field [] ReaderBytes
                    (\<lambda>x value. value\<lparr>FRpcReflectResponse_SchemaJson := x\<rparr>) r value)))"

definition zero_FRpcReflectResponse :: FRpcReflectResponse where
  "zero_FRpcReflectResponse =
    \<lparr>FRpcReflectResponse_Methods = [], FRpcReflectResponse_SchemaJson = []\<rparr>"

definition FRpcReflectResponse_fits :: "Limits \<Rightarrow> FRpcReflectResponse \<Rightarrow> bool" where
  "FRpcReflectResponse_fits l v \<longleftrightarrow>
     fits_u32 (FRpcReflectResponse_Methods v)
     \<and> int (length (FRpcReflectResponse_Methods v)) \<le> MaxArrayCount l
     \<and> list_all (FRpcMethodInfo_fits l) (FRpcReflectResponse_Methods v)
     \<and> bytes_fit l (FRpcReflectResponse_SchemaJson v)"

definition elements_image :: "FRpcMethodInfo list \<Rightarrow> bytes" where
  "elements_image es = concat (map (\<lambda>e. wr_buf (FRpcMethodInfo_Encode e NewWriter)) es)"

lemma elements_image_simps [simp]:
  "elements_image [] = []"
  "elements_image (e # es) = wr_buf (FRpcMethodInfo_Encode e NewWriter) @ elements_image es"
  by (simp_all add: elements_image_def)

lemma fold_Encode: "wr_buf (fold FRpcMethodInfo_Encode es w) = wr_buf w @ elements_image es"
proof (induction es arbitrary: w)
  case (Cons e es)
  show ?case using Cons [of "FRpcMethodInfo_Encode e w"] FRpcMethodInfo.encode_appends [of e w] by simp
qed simp

lemma decode_elements_reads:
  assumes "list_all (FRpcMethodInfo_fits (rd_limits r)) es" and "left r = elements_image es @ rest"
  shows "decode_elements (length es) r done = (None, skip (length (elements_image es)) r, done @ es)"
  using assms
proof (induction es arbitrary: r "done")
  case (Cons e es)
  let ?b = "wr_buf (FRpcMethodInfo_Encode e NewWriter)"
  have "FRpcMethodInfo_Decode r zero_FRpcMethodInfo = (None, skip (length ?b) r, e)"
    using readsD [OF FRpcMethodInfo.decode_reads refl] Cons.prems by simp
  moreover have "decode_elements (length es) (skip (length ?b) r) (done @ [e])
      = (None, skip (length (elements_image es)) (skip (length ?b) r), (done @ [e]) @ es)"
    using Cons.prems by (intro Cons.IH) simp_all
  ultimately show ?case by simp
qed simp

text \<open>An element that starts at the end of the body is all zeros, and not an error: a body that ends
  between two elements, before the announced count is reached, is accepted.\<close>

lemma decode_elements_at_end:
  "left r = [] \<Longrightarrow> decode_elements n r elements = (None, r, elements @ replicate n zero_FRpcMethodInfo)"
  by (induction n arbitrary: elements)
    (simp_all add: absentD [OF FRpcMethodInfo.decode_absent] replicate_append_same [symmetric])

lemma FRpcReflectResponse_image:
  "wr_buf (FRpcReflectResponse_Encode v w) = wr_buf w
     @ u32_field (word_of_nat (length (FRpcReflectResponse_Methods v)))
     @ elements_image (FRpcReflectResponse_Methods v) @ bytes_field (FRpcReflectResponse_SchemaJson v)"
  by (simp add: FRpcReflectResponse_Encode_def Let_def fold_Encode w_bytes.put_image w_u32.put_image
      WriteArrayCount_def)

lemma ReadArrayCount_left:
  assumes "n < 2 ^ 32" "int n \<le> MaxArrayCount (rd_limits r)" and u: "left r = u32_field (word_of_nat n) @ rest"
  shows "ReadArrayCount r = (Inr n, skip 4 r)"
  using assms ReaderU32_left [OF u [unfolded u32_field_def]]
  by (simp add: ReadArrayCount_def readLength_def Let_def)

interpretation FRpcReflectResponse: message_codec FRpcReflectResponse_Encode FRpcReflectResponse_Decode
    FRpcReflectResponse_fits zero_FRpcReflectResponse
proof
  fix v w
  show "wr_buf (FRpcReflectResponse_Encode v w)
      = wr_buf w @ wr_buf (FRpcReflectResponse_Encode v NewWriter)"
    by (simp add: FRpcReflectResponse_image)
next
  fix l v assume f: "FRpcReflectResponse_fits l v"
  let ?es = "FRpcReflectResponse_Methods v" and ?s = "FRpcReflectResponse_SchemaJson v"
  have n: "length ?es < 2 ^ 32" "int (length ?es) \<le> MaxArrayCount l" "list_all (FRpcMethodInfo_fits l) ?es"
    "bytes_fit l ?s" using f by (simp_all add: FRpcReflectResponse_fits_def fits_u32_def)
  show "reads l FRpcReflectResponse_Decode (wr_buf (FRpcReflectResponse_Encode v NewWriter)) (\<lambda>_. v)"
    unfolding reads_def
  proof (intro allI impI)
    fix r :: Reader and m :: FRpcReflectResponse and rest
    assume l: "rd_limits r = l" and u: "left r = wr_buf (FRpcReflectResponse_Encode v NewWriter) @ rest"
    then have u: "left r = u32_field (word_of_nat (length ?es)) @ elements_image ?es @ bytes_field ?s @ rest"
      by (simp add: FRpcReflectResponse_image)
    have "\<not> FieldAbsent r" using u by (simp add: FieldAbsent_left w_u32.image_not_Nil)
    moreover have "ReadArrayCount r = (Inr (length ?es), skip 4 r)"
      using n(1,2) l u by (intro ReadArrayCount_left) simp_all
    moreover have "decode_elements (length ?es) (skip 4 r) []
        = (None, skip (length (elements_image ?es)) (skip 4 r), ?es)"
      using decode_elements_reads [of "skip 4 r" ?es "bytes_field ?s @ rest" "[]"] n(3) l u
      by (simp add: u32_field_def)
    moreover have "decode_field [] ReaderBytes (\<lambda>x value. value\<lparr>FRpcReflectResponse_SchemaJson := x\<rparr>)
        (skip (4 + length (elements_image ?es)) r) (m\<lparr>FRpcReflectResponse_Methods := ?es\<rparr>)
      = (None, skip (4 + length (elements_image ?es) + length (bytes_field ?s)) r,
         m\<lparr>FRpcReflectResponse_Methods := ?es, FRpcReflectResponse_SchemaJson := ?s\<rparr>)"
      using w_bytes.decode_field_present [of "skip (4 + length (elements_image ?es)) r" ?s rest] n(4) l u
      by (simp add: u32_field_def)
    ultimately show "FRpcReflectResponse_Decode r m
        = (None, skip (length (wr_buf (FRpcReflectResponse_Encode v NewWriter))) r, v)"
      by (simp add: FRpcReflectResponse_Decode_def Let_def FRpcReflectResponse_image u32_field_def
          add.assoc)
  qed
next
  show "absent FRpcReflectResponse_Decode (\<lambda>_. zero_FRpcReflectResponse)"
    by (simp add: absent_def FRpcReflectResponse_Decode_def FieldAbsent_left decode_field_absent
        zero_FRpcReflectResponse_def)
qed


end
