(* ===== verification/CodecAgree.thy ===== *)
theory CodecAgree
  imports Codecs Core
begin

text \<open>
  The library reads and writes its system models by hand (\<open>model.go\<close>, \<open>ctx.go\<close>, \<open>status.go\<close>,
  \<open>reflection.go\<close>), and the demo has generated codecs of the same models.  The two agree: byte for
  byte when they write, and value for value on every body, well formed or not, when they read.
\<close>

subsection \<open>The two readers in step\<close>

definition in_step :: "BodyReader \<Rightarrow> Reader \<Rightarrow> bool" where
  "in_step br r \<longleftrightarrow> br_bytes br = rd_buf r \<and> br_cursor br = rd_pos r \<and> rd_limits r = UnlimitedLimits"

lemma in_step_new: "in_step (NewBodyReader b) (NewReader b)"
  by (simp add: in_step_def NewBodyReader_def NewReader_def)

lemma in_step_AtEnd: "in_step br r \<Longrightarrow> AtEnd br \<longleftrightarrow> FieldAbsent r"
  by (simp add: in_step_def AtEnd_def FieldAbsent_def Reader_Remaining_def)

text \<open>A hand-written read and a generated one give the same result and stay in step.\<close>

definition same_read :: "(BodyReader \<Rightarrow> 'a read \<times> BodyReader) \<Rightarrow> (Reader \<Rightarrow> 'a reading) \<Rightarrow> bool" where
  "same_read get read \<longleftrightarrow> (\<forall>br r. in_step br r \<longrightarrow>
     (case get br of
        (Absent, _) \<Rightarrow> FieldAbsent r
      | (Malformed _, _) \<Rightarrow> \<not> FieldAbsent r \<and> (\<exists>err r'. read r = (Inl err, r'))
      | (Value v, br') \<Rightarrow> \<not> FieldAbsent r \<and> (\<exists>r'. read r = (Inr v, r') \<and> in_step br' r')))"

lemma Uint32_take: "Uint32 (take 4 b) = Uint32 b"
  by (simp add: Uint32_def)

lemma same_u32: "same_read ReadU32 ReaderU32"
  unfolding same_read_def
proof (intro allI impI)
  fix br r assume i: "in_step br r"
  then have e: "AtEnd br \<longleftrightarrow> FieldAbsent r" "br_bytes br = rd_buf r" "br_cursor br = rd_pos r"
    by (simp_all add: in_step_AtEnd) (simp_all add: in_step_def)
  show "case ReadU32 br of
        (Absent, _) \<Rightarrow> FieldAbsent r
      | (Malformed _, _) \<Rightarrow> \<not> FieldAbsent r \<and> (\<exists>err r'. ReaderU32 r = (Inl err, r'))
      | (Value v, br') \<Rightarrow> \<not> FieldAbsent r \<and> (\<exists>r'. ReaderU32 r = (Inr v, r') \<and> in_step br' r')"
    using i by (simp add: ReadU32_def e ReaderU32_def and_then_def Reader_take_def Reader_Remaining_def
        Uint32_take in_step_def)
qed

lemma unlimited_length: "readLength 4294967295 r =
    (case ReaderU32 r of (Inl err, r) \<Rightarrow> (Inl err, r) | (Inr len, r) \<Rightarrow> (Inr (unat len), r))"
proof -
  have "int (unat (v :: u32)) \<le> 4294967295" for v :: u32
    using unsigned_less [of v, where ?'a = int] by simp
  then show ?thesis
    by (auto simp: readLength_def Let_def not_less [symmetric] split: prod.splits sum.splits)
qed

lemma same_bytes: "same_read ReadBytes ReaderBytes"
  unfolding same_read_def
proof (intro allI impI)
  fix br r assume i: "in_step br r"
  have l: "MaxBytesLen (rd_limits r) = 4294967295" using i by (simp add: in_step_def UnlimitedLimits_def)
  show "case ReadBytes br of
        (Absent, _) \<Rightarrow> FieldAbsent r
      | (Malformed _, _) \<Rightarrow> \<not> FieldAbsent r \<and> (\<exists>err r'. ReaderBytes r = (Inl err, r'))
      | (Value v, br') \<Rightarrow> \<not> FieldAbsent r \<and> (\<exists>r'. ReaderBytes r = (Inr v, r') \<and> in_step br' r')"
    using same_u32 [unfolded same_read_def, rule_format, OF i]
    by (auto simp: ReadBytes_def ReaderBytes_def l unlimited_length Let_def takeChecked_def
        Reader_take_def Reader_Remaining_def in_step_def split: prod.splits read.splits)
qed

lemma same_string: "same_read ReadString ReaderString"
  unfolding same_read_def
proof (intro allI impI)
  fix br r assume i: "in_step br r"
  have l: "MaxStringLen (rd_limits r) = 4294967295" using i by (simp add: in_step_def UnlimitedLimits_def)
  show "case ReadString br of
        (Absent, _) \<Rightarrow> FieldAbsent r
      | (Malformed _, _) \<Rightarrow> \<not> FieldAbsent r \<and> (\<exists>err r'. ReaderString r = (Inl err, r'))
      | (Value v, br') \<Rightarrow> \<not> FieldAbsent r \<and> (\<exists>r'. ReaderString r = (Inr v, r') \<and> in_step br' r')"
    using same_u32 [unfolded same_read_def, rule_format, OF i]
    by (auto simp: ReadString_def ReadBytes_def ReaderString_def l unlimited_length Let_def
        takeChecked_def Reader_take_def Reader_Remaining_def in_step_def
        split: prod.splits read.splits)
qed

subsection \<open>Decoders in step\<close>

text \<open>A hand-written decoder \<open>K\<close> and a generated one \<open>D\<close>, started on \<open>m\<close>, end with the same value and
  both with or both without an error.\<close>

definition agree :: "('m \<Rightarrow> 'c) \<Rightarrow> (BodyReader \<Rightarrow> 'c \<times> ModelFormatError option) \<Rightarrow> 'm decoder \<Rightarrow> 'm \<Rightarrow> bool" where
  "agree view K D m \<longleftrightarrow> (\<forall>br r. in_step br r \<longrightarrow>
     (case D r m of (err, _, m') \<Rightarrow> fst (K br) = view m' \<and> (snd (K br) = None \<longleftrightarrow> err = None)))"

lemma agree_end: "view m = c \<Longrightarrow> agree view (\<lambda>br. (c, None)) (decode_fields []) m"
  by (simp add: agree_def)

lemma agree_field:
  assumes same: "same_read get read" and zero: "assign z m = m" and stop: "view m = c"
    and rest: "\<And>r. FieldAbsent r \<Longrightarrow> decode_fields ds r m = (None, r, m)"
    and on: "\<And>v. agree view (K v) (decode_fields ds) (assign v m)"
  shows "agree view (\<lambda>br. then_field (get br) c K) (decode_fields (decode_field z read assign # ds)) m"
  unfolding agree_def
proof (intro allI impI)
  fix br r assume i: "in_step br r"
  note s = same [unfolded same_read_def, rule_format, OF i]
  show "case decode_fields (decode_field z read assign # ds) r m of (err, _, m') \<Rightarrow>
      fst (then_field (get br) c K) = view m' \<and> (snd (then_field (get br) c K) = None \<longleftrightarrow> err = None)"
  proof (cases "get br")
    case (Pair res br')
    show ?thesis
    proof (cases res)
      case Absent
      then show ?thesis using s Pair zero stop rest by (simp add: then_field_def decode_field_def)
    next
      case (Malformed e)
      then show ?thesis using s Pair zero stop by (auto simp: then_field_def decode_field_def)
    next
      case (Value v)
      then obtain r' where "read r = (Inr v, r')" "in_step br' r'" "\<not> FieldAbsent r"
        using s Pair by auto
      then show ?thesis using on [of v] Value Pair
        by (auto simp: agree_def then_field_def decode_field_def)
    qed
  qed
qed

lemma agree_new:
  "agree view K D m \<Longrightarrow> case D (NewReader b) m of (err, _, m') \<Rightarrow>
     fst (K (NewBodyReader b)) = view m' \<and> (snd (K (NewBodyReader b)) = None \<longleftrightarrow> err = None)"
  using in_step_new [of b] by (simp add: agree_def)

subsection \<open>The ctx block\<close>

definition ctx_of :: "FRpcCtx \<Rightarrow> Ctx" where
  "ctx_of m = \<lparr>DeadlineMs = FRpcCtx_DeadlineMs m, TraceID = FRpcCtx_TraceId m,
     SpanID = FRpcCtx_SpanId m, Token = FRpcCtx_Token m, Tenant = FRpcCtx_Tenant m,
     IdempotencyKey = FRpcCtx_IdempotencyKey m, InitialCredit = FRpcCtx_InitialCredit m\<rparr>"

lemma Ctx_Encode_generated: "wr_buf (FRpcCtx_Encode m NewWriter) = Ctx_Encode (ctx_of m)"
  by (simp add: FRpcCtx_Encode_parts FRpcCtx_parts_def Ctx_Encode_fields ctx_of_def)

lemma absent_decode_field [simp]:
  "FieldAbsent r \<Longrightarrow> decode_field z read assign r m = (None, r, assign z m)"
  by (simp add: decode_field_def)

lemma agree_DecodeCtx:
  "case FRpcCtx_Decode (NewReader b) zero_FRpcCtx of (err, _, m) \<Rightarrow>
     fst (DecodeCtx b) = ctx_of m \<and> (snd (DecodeCtx b) = None \<longleftrightarrow> err = None)"
proof -
  note z = zero_FRpcCtx_def ctx_of_def zero_Ctx_def
  define K where "K = (\<lambda>br.
      then_field (ReadU32 br) zero_Ctx (\<lambda>v br. let ctx = zero_Ctx\<lparr>DeadlineMs := v\<rparr> in
      then_field (ReadBytes br) ctx (\<lambda>v br. let ctx = ctx\<lparr>TraceID := v\<rparr> in
      then_field (ReadBytes br) ctx (\<lambda>v br. let ctx = ctx\<lparr>SpanID := v\<rparr> in
      then_field (ReadString br) ctx (\<lambda>v br. let ctx = ctx\<lparr>Token := v\<rparr> in
      then_field (ReadString br) ctx (\<lambda>v br. let ctx = ctx\<lparr>Tenant := v\<rparr> in
      then_field (ReadBytes br) ctx (\<lambda>v br. let ctx = ctx\<lparr>IdempotencyKey := v\<rparr> in
      then_field (ReadU32 br) ctx (\<lambda>v br. let ctx = ctx\<lparr>InitialCredit := v\<rparr> in
        (ctx, None)))))))))"
  have "agree ctx_of K FRpcCtx_Decode zero_FRpcCtx"
    unfolding K_def FRpcCtx_Decode_def Let_def
    by (rule agree_field [OF same_u32], simp add: z, simp add: z, simp add: z,
        rule agree_field [OF same_bytes], simp add: z, simp add: z, simp add: z,
        rule agree_field [OF same_bytes], simp add: z, simp add: z, simp add: z,
        rule agree_field [OF same_string], simp add: z, simp add: z, simp add: z,
        rule agree_field [OF same_string], simp add: z, simp add: z, simp add: z,
        rule agree_field [OF same_bytes], simp add: z, simp add: z, simp add: z,
        rule agree_field [OF same_u32], simp add: z, simp add: z, simp add: z,
        rule agree_end, simp add: z)
  note a = agree_new [OF this, of b]
  have "DecodeCtx b = K (NewBodyReader b)" unfolding DecodeCtx_def K_def Let_def ..
  with a show ?thesis by (simp only:)
qed

subsection \<open>Errors, credits and reflection\<close>

definition status_of :: "FRpcError \<Rightarrow> Status" where
  "status_of m = NewStatus (FRpcError_Code m) (FRpcError_Message m)"

lemma Status_Encode_generated: "wr_buf (FRpcError_Encode m NewWriter) = Status_Encode (status_of m)"
  by (simp add: FRpcError_Encode_parts FRpcError_parts_def Status_Encode_fields status_of_def NewStatus_def)

text \<open>The two differ where the library wants a status at all costs: a body without a code, which is
  a code of 0 for the generated decoder, and a malformed body, which is an error for it.\<close>

lemma DecodeStatus_generated:
  "case FRpcError_Decode (NewReader b) zero_FRpcError of
     (None, _, m) \<Rightarrow> if b = [] then DecodeStatus b = Internal ''error frame carried no status code''
                   else DecodeStatus b = status_of m
   | (Some _, _, _) \<Rightarrow> st_Code (DecodeStatus b) = CodeInternal"
proof -
  note i = in_step_new [of b]
  note s1 = same_u32 [unfolded same_read_def, rule_format, OF i]
  have e: "FieldAbsent (NewReader b) \<longleftrightarrow> b = []" by (simp add: FieldAbsent_left)
  show ?thesis
  proof (cases "ReadU32 (NewBodyReader b)")
    case (Pair res br)
    show ?thesis
    proof (cases res)
      case (Value c)
      then obtain r where 1: "ReaderU32 (NewReader b) = (Inr c, r)" "in_step br r" "b \<noteq> []"
        using s1 Pair e by auto
      show ?thesis
        using same_string [unfolded same_read_def, rule_format, OF 1(2)] 1 Pair Value e
        by (auto simp: DecodeStatus_def FRpcError_Decode_def decode_field_def status_of_def Internal_def
            NewStatus_def zero_FRpcError_def split: prod.splits read.splits)
    qed (use s1 Pair e in \<open>auto simp: DecodeStatus_def FRpcError_Decode_def decode_field_def Internal_def
            NewStatus_def\<close>)
  qed
qed

lemma readCredit_generated:
  "readCredit b = FRpcCredit_Items (snd (snd (FRpcCredit_Decode (NewReader b) m)))"
proof -
  note s = same_u32 [unfolded same_read_def, rule_format, OF in_step_new [of b]]
  show ?thesis using s
    by (auto simp: readCredit_def FRpcCredit_Decode_def decode_field_def split: prod.splits read.splits)
qed

definition info_of :: "Method \<Rightarrow> FRpcMethodInfo" where
  "info_of m = \<lparr>FRpcMethodInfo_Name = m_Name m, FRpcMethodInfo_Shape = shape_code (m_Shape m),
     FRpcMethodInfo_RequestId = m_RequestID m, FRpcMethodInfo_CallerItemId = CallerItemID m,
     FRpcMethodInfo_ReplyId = m_ReplyID m, FRpcMethodInfo_RetrySafety = safety_code (m_RetrySafety m)\<rparr>"

lemma put_method_generated: "bw_buf (put_method m w) = bw_buf w @ wr_buf (FRpcMethodInfo_Encode (info_of m) NewWriter)"
  by (simp add: put_method_def FRpcMethodInfo_Encode_parts FRpcMethodInfo_parts_def info_of_def codec_simps)

lemma fold_put_method: "bw_buf (fold put_method ms w) = bw_buf w @ elements_image (map info_of ms)"
  by (induction ms arbitrary: w) (simp_all add: put_method_generated)

lemma EncodeReflectResponse_generated:
  "EncodeReflectResponse ms schema = wr_buf (FRpcReflectResponse_Encode
     \<lparr>FRpcReflectResponse_Methods = map info_of ms, FRpcReflectResponse_SchemaJson = schema\<rparr> NewWriter)"
  by (simp add: EncodeReflectResponse_def FRpcReflectResponse_image Bytes_def fold_put_method codec_simps)

text \<open>So the caller of the demo reads exactly the methods that the library describes.\<close>

lemma reflection_read_back:
  assumes "fits_u32 ms" and "list_all (\<lambda>m. string_ok (m_Name m)) ms" and "fits_u32 schema"
  shows "\<exists>r. FRpcReflectResponse_Decode (NewReader (EncodeReflectResponse ms schema)) m0
    = (None, r, \<lparr>FRpcReflectResponse_Methods = map info_of ms, FRpcReflectResponse_SchemaJson = schema\<rparr>)"
proof -
  have "FRpcReflectResponse_fits UnlimitedLimits
      \<lparr>FRpcReflectResponse_Methods = map info_of ms, FRpcReflectResponse_SchemaJson = schema\<rparr>"
    using assms by (auto simp: FRpcReflectResponse_fits_def FRpcMethodInfo_fits_def string_fits_def
        bytes_fit_def fits_u32_def string_ok_def UnlimitedLimits_def list_all_iff info_of_def)
  from FRpcReflectResponse.decode_encode [OF this, of "[]" m0] show ?thesis
    unfolding EncodeReflectResponse_generated append_Nil2 .
qed

end
