(* ===== verification/Demo.thy ===== *)
theory Demo
  imports CodecAgree Handshake CoreService
begin

text \<open>
  The demo service (\<open>examples/demo/proto.go\<close>): its methods and registries, the conversions between
  bodies and values, and its handlers, which are objects of the demo in the part \<open>w_app\<close> of the
  world.  A conversion from a body panics with an \<open>INVALID_ARGUMENT\<close> status when the body is
  malformed.  \<open>strings.ToUpper\<close> is exact on ASCII strings; on other strings it is the parameter
  \<open>upper\<close>, the case mapping of the Unicode tables.
\<close>

subsection \<open>Ids and methods\<close>

definition VoidID :: u32 where "VoidID = FRpcVoidRpcMessageID"
definition ErrorID :: u32 where "ErrorID = FRpcErrorRpcMessageID"
definition DemoCreditID :: u32 where "DemoCreditID = FRpcCreditRpcMessageID"
definition CtxID :: u32 where "CtxID = FRpcCtxRpcMessageID"
definition ReflectRequestID :: u32 where "ReflectRequestID = FRpcReflectRequestRpcMessageID"
definition ReflectResponseID :: u32 where "ReflectResponseID = FRpcReflectResponseRpcMessageID"
definition EchoRequestID :: u32 where "EchoRequestID = EchoRequestRpcMessageID"
definition EchoResponseID :: u32 where "EchoResponseID = EchoResponseRpcMessageID"
definition CountRequestID :: u32 where "CountRequestID = CountRequestRpcMessageID"
definition CountItemID :: u32 where "CountItemID = CountItemRpcMessageID"
definition UploadOpenID :: u32 where "UploadOpenID = UploadOpenRpcMessageID"
definition UploadChunkID :: u32 where "UploadChunkID = UploadChunkRpcMessageID"
definition UploadDoneID :: u32 where "UploadDoneID = UploadDoneRpcMessageID"
definition ChatOpenID :: u32 where "ChatOpenID = ChatOpenRpcMessageID"
definition ChatSaidID :: u32 where "ChatSaidID = ChatSaidRpcMessageID"
definition ChatHeardID :: u32 where "ChatHeardID = ChatHeardRpcMessageID"
definition TicksRequestID :: u32 where "TicksRequestID = TicksRequestRpcMessageID"
definition TicksItemID :: u32 where "TicksItemID = TicksItemRpcMessageID"

lemmas demo_ids = VoidID_def ErrorID_def DemoCreditID_def CtxID_def ReflectRequestID_def
  ReflectResponseID_def EchoRequestID_def EchoResponseID_def CountRequestID_def CountItemID_def
  UploadOpenID_def UploadChunkID_def UploadDoneID_def ChatOpenID_def ChatSaidID_def ChatHeardID_def
  TicksRequestID_def TicksItemID_def message_ids

definition Say :: Method where "Say = Unary ''Echo.Say'' EchoRequestID EchoResponseID"
definition Count :: Method where "Count = ServerStream ''Echo.Count'' CountRequestID CountItemID"
definition Upload :: Method where
  "Upload = ClientStream ''Blob.Upload'' UploadOpenID UploadChunkID UploadDoneID"
definition Chat :: Method where
  "Chat = BidiStream ''Room.Chat'' ChatOpenID ChatSaidID ChatHeardID"
definition Ticks :: Method where "Ticks = ServerStream ''Clock.Ticks'' TicksRequestID TicksItemID"
definition Reflect :: Method where
  "Reflect = Unary ReflectMethodName ReflectRequestID ReflectResponseID"

definition demo_Methods :: "Method list" where
  "demo_Methods = [Say, Count, Upload, Chat, Ticks]"

text \<open>The objects behind \<open>*counter\<close>, \<open>*uploadHandler\<close>, \<open>*chatHandler\<close> and \<open>*ticksHandler\<close>.\<close>

datatype demo_object =
    Counter (ct_count: u32) (ct_next: u32)
  | UploadHandler (up_bytes: u32) (up_chunks: u32) (up_closed: bool)
  | ChatHandler (ch_replies: "bytes list") (ch_closed: bool)
  | TicksHandler (tk_next: u32)

type_synonym demo_world = "demo_object list world"

definition Builder :: "demo_world RegistryBuilder" where
  "Builder = RegistryBuilder_Credit DemoCreditID (NewRegistry VoidID ErrorID)"

text \<open>\<open>must\<close> panics with the error of a registry that was refused.\<close>

fun must :: "RegistryError + 'w Registry \<Rightarrow> 'w Registry attempt" where
  "must (Inl err) = Panicked (PanicError (PlainError (RegistryError_Reason err)))"
| "must (Inr registry) = Returned registry"

definition CallerRegistry :: "demo_world Registry attempt" where
  "CallerRegistry = must (Build (fold Declare demo_Methods (Declare Reflect Builder)))"

subsection \<open>Bodies\<close>

definition encode :: "(Writer \<Rightarrow> Writer) \<Rightarrow> bytes" where
  "encode write = Writer_Bytes (write NewWriter)"

text \<open>\<open>decode(body, ...)\<close> and the return of a field of the value.\<close>

definition decode :: "bytes \<Rightarrow> 'm decoder \<Rightarrow> 'm \<Rightarrow> ('m \<Rightarrow> 'a) \<Rightarrow> 'a attempt" where
  "decode body read value field =
    (case read (NewReader body) value of
       (Some err, _, _) \<Rightarrow> Panicked (PanicError (StatusError (InvalidArgument (DecodeError_Error err))))
     | (None, _, value) \<Rightarrow> Returned (field value))"

definition EncodeEcho :: "string \<Rightarrow> bytes" where
  "EncodeEcho text = encode (EchoRequest_Encode \<lparr>EchoRequest_Text = text\<rparr>)"

definition DecodeEcho :: "bytes \<Rightarrow> string attempt" where
  "DecodeEcho body = decode body EchoRequest_Decode \<lparr>EchoRequest_Text = []\<rparr> EchoRequest_Text"

definition EncodeEchoResponse :: "string \<Rightarrow> bytes" where
  "EncodeEchoResponse text = encode (EchoResponse_Encode \<lparr>EchoResponse_Text = text\<rparr>)"

definition DecodeEchoResponse :: "bytes \<Rightarrow> string attempt" where
  "DecodeEchoResponse body = decode body EchoResponse_Decode \<lparr>EchoResponse_Text = []\<rparr> EchoResponse_Text"

definition EncodeCount :: "u32 \<Rightarrow> bytes" where
  "EncodeCount limit = encode (CountRequest_Encode \<lparr>CountRequest_Count = limit\<rparr>)"

definition DecodeCount :: "bytes \<Rightarrow> u32 attempt" where
  "DecodeCount body = decode body CountRequest_Decode \<lparr>CountRequest_Count = 0\<rparr> CountRequest_Count"

definition EncodeCountItem :: "u32 \<Rightarrow> bytes" where
  "EncodeCountItem item = encode (CountItem_Encode \<lparr>CountItem_Value = item\<rparr>)"

definition DecodeCountItem :: "bytes \<Rightarrow> u32 attempt" where
  "DecodeCountItem body = decode body CountItem_Decode \<lparr>CountItem_Value = 0\<rparr> CountItem_Value"

definition EncodeUploadOpen :: "string \<Rightarrow> bytes" where
  "EncodeUploadOpen name = encode (UploadOpen_Encode \<lparr>UploadOpen_Name = name\<rparr>)"

definition EncodeChunk :: "u32 \<Rightarrow> bytes" where
  "EncodeChunk sz = encode (UploadChunk_Encode \<lparr>UploadChunk_Size = sz\<rparr>)"

definition DecodeChunk :: "bytes \<Rightarrow> u32 attempt" where
  "DecodeChunk body = decode body UploadChunk_Decode \<lparr>UploadChunk_Size = 0\<rparr> UploadChunk_Size"

definition EncodeDone :: "string \<Rightarrow> bytes" where
  "EncodeDone summary = encode (UploadDone_Encode \<lparr>UploadDone_Summary = summary\<rparr>)"

definition DecodeDone :: "bytes \<Rightarrow> string attempt" where
  "DecodeDone body = decode body UploadDone_Decode \<lparr>UploadDone_Summary = []\<rparr> UploadDone_Summary"

definition EncodeRoom :: "string \<Rightarrow> bytes" where
  "EncodeRoom room = encode (ChatOpen_Encode \<lparr>ChatOpen_Room = room\<rparr>)"

definition EncodeSaid :: "string \<Rightarrow> bytes" where
  "EncodeSaid line = encode (ChatSaid_Encode \<lparr>ChatSaid_Line = line\<rparr>)"

definition DecodeSaid :: "bytes \<Rightarrow> string attempt" where
  "DecodeSaid body = decode body ChatSaid_Decode \<lparr>ChatSaid_Line = []\<rparr> ChatSaid_Line"

definition EncodeHeard :: "string \<Rightarrow> bytes" where
  "EncodeHeard line = encode (ChatHeard_Encode \<lparr>ChatHeard_Line = line\<rparr>)"

definition DecodeHeard :: "bytes \<Rightarrow> string attempt" where
  "DecodeHeard body = decode body ChatHeard_Decode \<lparr>ChatHeard_Line = []\<rparr> ChatHeard_Line"

definition EncodeTicksRequest :: bytes where
  "EncodeTicksRequest = encode (TicksRequest_Encode TicksRequest)"

definition EncodeTick :: "u32 \<Rightarrow> bytes" where
  "EncodeTick tick = encode (TicksItem_Encode \<lparr>TicksItem_Value = tick\<rparr>)"

definition DecodeTick :: "bytes \<Rightarrow> u32 attempt" where
  "DecodeTick body = decode body TicksItem_Decode \<lparr>TicksItem_Value = 0\<rparr> TicksItem_Value"

definition EncodeReflectRequest :: bytes where
  "EncodeReflectRequest = encode (FRpcReflectRequest_Encode FRpcReflectRequest)"

definition DecodeReflectResponse :: "bytes \<Rightarrow> FRpcReflectResponse attempt" where
  "DecodeReflectResponse body =
    decode body FRpcReflectResponse_Decode zero_FRpcReflectResponse (\<lambda>value. value)"

subsection \<open>Handlers\<close>

definition upper_ascii :: "char \<Rightarrow> char" where
  "upper_ascii c = (if CHR ''a'' \<le> c \<and> c \<le> CHR ''z'' then char_of (of_char c - 32 :: nat) else c)"

definition ToUpper :: "(string \<Rightarrow> string) \<Rightarrow> string \<Rightarrow> string" where
  "ToUpper upper s = (if list_all (\<lambda>c. of_char c < (128 :: nat)) s then map upper_ascii s else upper s)"

definition counter_Poll :: "u32 \<Rightarrow> u32 \<Rightarrow> Progress \<times> demo_object" where
  "counter_Poll limit next =
    (if next \<ge> limit then (End, Counter limit next)
     else (let next = next + 1 in (Item (EncodeCountItem next), Counter limit next)))"

definition uploadHandler_Poll :: "u32 \<Rightarrow> u32 \<Rightarrow> bool \<Rightarrow> Progress \<times> demo_object" where
  "uploadHandler_Poll bytes chunks closed =
    ((if closed then Respond (EncodeDone (fmt_d (unat chunks) @ '' chunks, '' @ fmt_d (unat bytes)
        @ '' bytes''))
      else Pending), UploadHandler bytes chunks closed)"

definition chatHandler_Poll :: "bytes list \<Rightarrow> bool \<Rightarrow> Progress \<times> demo_object" where
  "chatHandler_Poll replies closed =
    (case replies of
       reply # replies \<Rightarrow> (Item reply, ChatHandler replies closed)
     | [] \<Rightarrow> (if closed then End else Pending, ChatHandler replies closed))"

definition ticksHandler_Poll :: "u32 \<Rightarrow> Progress \<times> demo_object" where
  "ticksHandler_Poll next = (let next = next + 1 in (Item (EncodeTick next), TicksHandler next))"

fun demo_Poll :: "demo_object \<Rightarrow> Progress \<times> demo_object" where
  "demo_Poll (Counter limit next) = counter_Poll limit next"
| "demo_Poll (UploadHandler bytes chunks closed) = uploadHandler_Poll bytes chunks closed"
| "demo_Poll (ChatHandler replies closed) = chatHandler_Poll replies closed"
| "demo_Poll (TicksHandler next) = ticksHandler_Poll next"

definition uploadHandler_Item ::
  "bytes \<Rightarrow> u32 \<Rightarrow> u32 \<Rightarrow> bool \<Rightarrow> go_error option attempt \<times> demo_object" where
  "uploadHandler_Item body bytes chunks closed =
    (case DecodeChunk body of
       Panicked p \<Rightarrow> (Panicked p, UploadHandler bytes chunks closed)
     | Returned sz \<Rightarrow>
         if sz = 0 then (Returned (Some (StatusError (InvalidArgument
             ''an empty chunk is not accepted''))), UploadHandler bytes chunks closed)
         else (Returned None, UploadHandler (bytes + sz) (chunks + 1) closed))"

definition chatHandler_Item ::
  "(string \<Rightarrow> string) \<Rightarrow> bytes \<Rightarrow> bytes list \<Rightarrow> bool \<Rightarrow> go_error option attempt \<times> demo_object" where
  "chatHandler_Item upper body replies closed =
    (case DecodeSaid body of
       Panicked p \<Rightarrow> (Panicked p, ChatHandler replies closed)
     | Returned line \<Rightarrow>
         (Returned None, ChatHandler (replies @ [EncodeHeard (ToUpper upper line)]) closed))"

text \<open>Only the upload and the chat implement \<open>Item\<close> and \<open>EndOfStream\<close>.\<close>

fun demo_Item :: "(string \<Rightarrow> string) \<Rightarrow> bytes \<Rightarrow> demo_object \<Rightarrow> go_error option attempt \<times> demo_object" where
  "demo_Item upper body (UploadHandler bytes chunks closed) = uploadHandler_Item body bytes chunks closed"
| "demo_Item upper body (ChatHandler replies closed) = chatHandler_Item upper body replies closed"
| "demo_Item upper body obj = (Returned None, obj)"

fun demo_EndOfStream :: "demo_object \<Rightarrow> go_error option attempt \<times> demo_object" where
  "demo_EndOfStream (UploadHandler bytes chunks closed) = (Returned None, UploadHandler bytes chunks True)"
| "demo_EndOfStream (ChatHandler replies closed) = (Returned None, ChatHandler replies True)"
| "demo_EndOfStream obj = (Returned None, obj)"

text \<open>A method called through the pointer \<open>a\<close>.\<close>

definition at :: "nat \<Rightarrow> (demo_object \<Rightarrow> 'r \<times> demo_object) \<Rightarrow> demo_world \<Rightarrow> 'r \<times> demo_world" where
  "at a act w = (case act (w_app w ! a) of (res, obj) \<Rightarrow> (res, w\<lparr>w_app := (w_app w)[a := obj]\<rparr>))"

definition allocate_demo :: "demo_object \<Rightarrow> demo_world \<Rightarrow> nat \<times> demo_world" where
  "allocate_demo obj w = (length (w_app w), w\<lparr>w_app := w_app w @ [obj]\<rparr>)"

definition demo_handler :: "nat \<Rightarrow> demo_world Handler" where
  "demo_handler a = PollFunc (\<lambda>_. at a (\<lambda>obj. case demo_Poll obj of (progress, obj) \<Rightarrow> (Returned progress, obj)))"

definition stream_handler :: "(string \<Rightarrow> string) \<Rightarrow> nat \<Rightarrow> demo_world Handler" where
  "stream_handler upper a = (demo_handler a)\<lparr>h_Item := Some (\<lambda>body. at a (demo_Item upper body)),
     h_EndOfStream := Some (at a demo_EndOfStream)\<rparr>"

subsection \<open>The responder\<close>

definition say_factory :: "(string \<Rightarrow> string) \<Rightarrow> demo_world HandlerFactory" where
  "say_factory upper m body w =
    (case DecodeEcho body of
       Panicked p \<Rightarrow> (Panicked p, w)
     | Returned text \<Rightarrow>
         if text = [] then
           (Returned (None, Some (StatusError (InvalidArgument ''Echo.Say needs a non-empty text''))), w)
         else (case RespondNow (EncodeEchoResponse (ToUpper upper text)) w of
                 (handler, w) \<Rightarrow> (Returned (Some handler, None), w)))"

definition count_demo_factory :: "demo_world HandlerFactory" where
  "count_demo_factory m body w =
    (case DecodeCount body of
       Panicked p \<Rightarrow> (Panicked p, w)
     | Returned limit \<Rightarrow>
         if limit > 100 then
           (Returned (None, Some (StatusError (InvalidArgument ''Echo.Count is capped at 100''))), w)
         else (case allocate_demo (Counter limit 0) w of
                 (a, w) \<Rightarrow> (Returned (Some (demo_handler a), None), w)))"

definition upload_factory :: "(string \<Rightarrow> string) \<Rightarrow> demo_world HandlerFactory" where
  "upload_factory upper m body w =
    (case allocate_demo (UploadHandler 0 0 False) w of
       (a, w) \<Rightarrow> (Returned (Some (stream_handler upper a), None), w))"

definition chat_factory :: "(string \<Rightarrow> string) \<Rightarrow> demo_world HandlerFactory" where
  "chat_factory upper m body w =
    (case allocate_demo (ChatHandler [] False) w of
       (a, w) \<Rightarrow> (Returned (Some (stream_handler upper a), None), w))"

definition ticks_factory :: "demo_world HandlerFactory" where
  "ticks_factory m body w =
    (case allocate_demo (TicksHandler 0) w of
       (a, w) \<Rightarrow> (Returned (Some (demo_handler a), None), w))"

definition ResponderBuilder :: "(string \<Rightarrow> string) \<Rightarrow> demo_world RegistryBuilder" where
  "ResponderBuilder upper =
    Serve Ticks ticks_factory
      (Serve Chat (chat_factory upper)
        (Serve Upload (upload_factory upper)
          (Serve Count count_demo_factory
            (Serve Say (say_factory upper) Builder))))"

definition ResponderRegistry :: "(string \<Rightarrow> string) \<Rightarrow> bytes \<Rightarrow> bool \<Rightarrow> demo_world Registry attempt" where
  "ResponderRegistry upper SchemaJSON reflection =
    (let builder = ResponderBuilder upper;
         builder = (if reflection
           then RegistryBuilder_Reflection ReflectRequestID ReflectResponseID SchemaJSON builder
           else builder)
     in must (Build builder))"

end
