(* ===== verification/Scenario.thy ===== *)
theory Scenario
  imports Demo
begin

text \<open>
  The recorded scenario of the demo (\<open>Frames\<close> of \<open>examples/demo/scenario.go\<close>): two cores, the demo
  service between them, and every frame that goes over the wire, as text.  The expected lines are
  the recording \<open>examples/demo/testdata/frames.txt\<close>, made with another implementation of the
  protocol, which the test of the repository compares with.
\<close>

subsection \<open>Texts\<close>

text \<open>The texts of the sentinel errors of the core.\<close>

fun CallError_Error :: "CallError \<Rightarrow> string" where
  "CallError_Error ErrNotReady = ''frpc: the session is not ready''"
| "CallError_Error ErrUnknownMethod = ''frpc: no method is declared for this request type''"
| "CallError_Error ErrUnknownCall = ''frpc: no such call''"
| "CallError_Error ErrWrongShape = ''frpc: the method'' @ [CHR 0x27] @ ''s shape does not allow this''"
| "CallError_Error ErrSendClosed = ''frpc: the caller direction is already closed''"
| "CallError_Error ErrNoCredit = ''frpc: the allowance for this direction is exhausted''"
| "CallError_Error ErrCreditUnsupported = ''frpc: FRpcCredit is not declared''"
| "CallError_Error ErrTooManyPending = ''frpc: the pending ceiling is reached''"
| "CallError_Error ErrCongested = ''frpc: the send queue is full''"
| "CallError_Error ErrBodyTooLarge = ''frpc: the body exceeds the ceiling''"
| "CallError_Error ErrCtxTooLarge = ''frpc: the ctx block exceeds the ceiling''"
| "CallError_Error ErrCallIDExhausted = ''frpc: no call id is free''"
| "CallError_Error (ErrStatus status) = Status_Error status"

text \<open>\<open>%X\<close> of a byte slice.\<close>

definition fmt_X :: "bytes \<Rightarrow> string" where
  "fmt_X b = concat (map fmt_02X b)"

subsection \<open>The exchange\<close>

definition Missing :: Method where
  "Missing = Unary ''Echo.Missing'' CtxID EchoResponseID"

definition DriverRegistry :: "demo_world Registry attempt" where
  "DriverRegistry = must (Build
    (Declare Missing (Declare Ticks (Declare Chat (Declare Upload (Declare Count
      (Declare Say (Declare Reflect Builder))))))))"

text \<open>The sink of \<open>take\<close>: it keeps the frame, and its line, and accepts it.\<close>

definition record_line :: "string \<Rightarrow> (Outgoing list \<times> string list) Sink" where
  "record_line side frame s = (case s of (frames, lines) \<Rightarrow>
    (Accepted, frames @ [frame],
      lines @ [side @ '' '' @ fmt_08X (og_MessageID frame) @ '' '' @ fmt_X (og_Payload frame)]))"

definition take_frames ::
  "'w Core \<Rightarrow> string \<Rightarrow> string list \<Rightarrow> (Outgoing list \<times> string list \<times> 'w Core) option" where
  "take_frames core side lines =
    map_option (\<lambda>(core, frames, lines). (frames, lines, core))
      (Core_Drain (record_line side) core ([], lines))"

definition deliver_frame :: "gotime \<Rightarrow> Outgoing \<Rightarrow> 'w Core \<Rightarrow> 'w Core" where
  "deliver_frame now frame core = snd (OnMessage (og_MessageID frame) (og_Payload frame) now core)"

definition exchange ::
  "gotime \<Rightarrow> 'w Core \<Rightarrow> 'w Core \<Rightarrow> string list \<Rightarrow> ('w Core \<times> 'w Core \<times> string list) option" where
  "exchange now client server lines =
    (case take_frames client ''C'' lines of
       None \<Rightarrow> None
     | Some (frames, lines, client) \<Rightarrow>
         (let server = Tick now (fold (deliver_frame now) frames server) in
          case take_frames server ''S'' lines of
            None \<Rightarrow> None
          | Some (frames, lines, server) \<Rightarrow>
              (let client = Tick now (fold (deliver_frame now) frames client)
               in Some (snd (TakeOutcomes client), server, lines))))"

text \<open>\<open>time.Unix(0, 0)\<close>, counted from the zero time.\<close>

definition unix_epoch :: gotime where
  "unix_epoch = 62135596800 * Second"

definition traced :: Ctx where
  "traced = zero_Ctx\<lparr>DeadlineMs := 1500, TraceID := [1, 2, 3, 4], SpanID := [5, 6],
     Token := ''tok'', Tenant := ''acme''\<rparr>"

text \<open>The local function \<open>open\<close> makes a call and panics with its error.\<close>

definition open_call ::
  "u32 \<Rightarrow> bytes \<Rightarrow> Ctx option \<Rightarrow> 'w Core \<Rightarrow> CallID attempt \<times> 'w Core" where
  "open_call requestID body ctx client =
    (case Core_Call requestID body ctx WithoutDeadline unix_epoch client of
       (Inl err, client) \<Rightarrow> (Panicked (PanicError (PlainError (CallError_Error err))), client)
     | (Inr call, client) \<Rightarrow> (Returned call, client))"

text \<open>The calls that the scenario makes: the id of the stream of ticks, and the client.\<close>

definition Frames_calls :: "'w Core \<Rightarrow> CallID attempt \<times> 'w Core" where
  "Frames_calls client =
    (case open_call EchoRequestID (EncodeEcho ''xin chao'') (Some traced) client of
       (Panicked p, client) \<Rightarrow> (Panicked p, client)
     | (Returned _, client) \<Rightarrow>
    (case open_call TicksRequestID EncodeTicksRequest (Some (WithInitialCredit 2)) client of
       (Panicked p, client) \<Rightarrow> (Panicked p, client)
     | (Returned ticks, client) \<Rightarrow>
    let client = snd (Core_Grant ticks 3 client) in
    (case open_call UploadOpenID (EncodeUploadOpen ''photo.raw'') None client of
       (Panicked p, client) \<Rightarrow> (Panicked p, client)
     | (Returned upload, client) \<Rightarrow>
    let client = snd (SendItem upload (EncodeChunk 4096) client);
        client = snd (SendItem upload (EncodeChunk 1024) client);
        client = snd (CloseSend upload client) in
    (case open_call EchoRequestID (EncodeEcho []) None client of
       (Panicked p, client) \<Rightarrow> (Panicked p, client)
     | (Returned _, client) \<Rightarrow>
    (case open_call (m_RequestID Missing) [] None client of
       (Panicked p, client) \<Rightarrow> (Panicked p, client)
     | (Returned _, client) \<Rightarrow>
    (case open_call ChatOpenID (EncodeRoom ''lobby'') None client of
       (Panicked p, client) \<Rightarrow> (Panicked p, client)
     | (Returned chat, client) \<Rightarrow>
    let client = snd (SendItem chat (EncodeSaid ''hello'') client);
        client = snd (CloseSend chat client)
    in (Returned ticks, client)))))))"

definition Frames_run :: "demo_world Core \<Rightarrow> demo_world Core \<Rightarrow> string list attempt option" where
  "Frames_run client server =
    (case Frames_calls client of
       (Panicked p, client) \<Rightarrow> Some (Panicked p)
     | (Returned ticks, client) \<Rightarrow>
    (case exchange unix_epoch client server [] of
       None \<Rightarrow> None
     | Some (client, server, lines) \<Rightarrow>
         (case exchange unix_epoch (Core_Cancel ticks client) server lines of
            None \<Rightarrow> None
          | Some (client, server, lines) \<Rightarrow> Some (Returned lines))))"

text \<open>\<open>frpc.Config{}\<close>, which \<open>NewCore\<close> normalizes.\<close>

definition zero_Config :: Config where
  "zero_Config = \<lparr>MaxPending = 0, MaxCallQueue = 0, MaxConnectionQueue = 0, SchedulerQuantum = 0, MaxCtxLen = 0, MaxBodyLen = 0, HandlerLimit = 0, QueueFullLimit = 0, CompressAbove = 0\<rparr>"

definition zero_world :: demo_world where
  "zero_world = \<lparr>w_objects = [], w_app = []\<rparr>"

definition Frames :: "(string \<Rightarrow> string) \<Rightarrow> bytes \<Rightarrow> string list attempt option" where
  "Frames upper SchemaJSON =
    (case DriverRegistry of
       Panicked p \<Rightarrow> Some (Panicked p)
     | Returned driver \<Rightarrow>
         (case ResponderRegistry upper SchemaJSON False of
            Panicked p \<Rightarrow> Some (Panicked p)
          | Returned responder \<Rightarrow>
              Frames_run (OnReady (NewCore driver RoleClient zero_Config zero_world))
                (OnReady (NewCore responder RoleServer zero_Config zero_world))))"

definition recorded_frames :: "string list" where
  "recorded_frames =
    [''C 109F8C60 400000000029000000DC050000040000000102030402000000050603000000746F6B0'' @
      ''400000061636D6500000000000000000800000078696E206368616F'',
     ''C E96A59D5 40020000001C000000000000000000000000000000000000000000000000000000020'' @
      ''00000'',
     ''C 315285E4 00040000000900000070686F746F2E726177'',
     ''C 65DB5549 030400000000100000'',
     ''C 65DB5549 030400000000040000'',
     ''C D4A891C4 0404000000'',
     ''C 109F8C60 000600000000000000'',
     ''C 5AE3B9AC 0008000000'',
     ''C EAEB5F14 000A000000050000006C6F626279'',
     ''C ACBEA203 030A0000000500000068656C6C6F'',
     ''C D4A891C4 040A000000'',
     ''C 789A010F 060200000003000000'',
     ''S 96D79DED 01000000000800000058494E204348414F'',
     ''S 35BE4510 030200000001000000'',
     ''S 35BE4510 030200000002000000'',
     ''S 35BE4510 030200000003000000'',
     ''S 35BE4510 030200000004000000'',
     ''S 35BE4510 030200000005000000'',
     ''S 0386DCA3 01040000001400000032206368756E6B732C2035313230206279746573'',
     ''S BF94ECC4 0206000000040000001F0000004563686F2E536179206E656564732061206E6F6E2D6'' @
      ''56D7074792074657874'',
     ''S BF94ECC4 020800000003000000260000006E6F2068616E646C657220666F72207265717565737'' @
      ''420747970652030783541453342394143'',
     ''S E037CA19 030A0000000500000048454C4C4F'',
     ''S D4A891C4 040A000000'',
     ''C D4A891C4 0502000000'',
     ''S BF94ECC4 0202000000010000001700000063616E63656C6C6564206279207468652063616C6C6'' @
      ''572'']"

end
