(* ===== verification/DemoService.thy ===== *)
theory DemoService
  imports Scenario CoreCall
begin

text \<open>
  The demo service is correct: its registries build, a body that is encoded is decoded to the same
  value, the counter streams exactly the numbers it was asked for, the upload answers with the
  number and the sum of the chunks, the chat answers every line, in order.
\<close>

subsection \<open>Registries\<close>

lemmas method_defs = Say_def Count_def Upload_def Chat_def Ticks_def Reflect_def Missing_def
  Unary_def ServerStream_def ClientStream_def BidiStream_def zero_Method_def

lemmas builder_defs = Builder_def NewRegistry_def RegistryBuilder_Credit_def Declare_def Serve_def
  RegistryBuilder_Reflection_def

lemma demo_ids_distinct: "distinct [VoidID, ErrorID, DemoCreditID, CtxID, ReflectRequestID, ReflectResponseID,
    EchoRequestID, EchoResponseID, CountRequestID, CountItemID, UploadOpenID, UploadChunkID, UploadDoneID,
    ChatOpenID, ChatSaidID, ChatHeardID, TicksRequestID, TicksItemID]"
  by (simp add: demo_ids)

lemma must_Build:
  assumes "b_plainIDs b = {}" and "length (all_entries b) \<le> MaxMethods"
    and "distinct (map request_id (all_entries b))"
    and "\<forall>e \<in> set (all_entries b). \<forall>i \<in> set (MessageIDs (e_Method e)). i \<noteq> b_voidID b \<and> i \<noteq> b_errorID b
      \<and> (b_hasCredit b \<longrightarrow> i \<noteq> b_creditID b)"
  shows "\<exists>r. must (Build b) = Returned r \<and> registry_ok r \<and> rg_entries r = all_entries b
    \<and> rg_voidID r = b_voidID b \<and> rg_plainIDs r = {}"
proof -
  have "ids_free b (all_entries b)"
    using assms(1,4) by (fastforce simp: ids_free_def entry_ids_def system_ids_iff)
  then obtain r where r: "Build b = Inr r" using assms(2,3) Build_Inr_iff by blast
  moreover have "rg_entries r = all_entries b" "rg_voidID r = b_voidID b" "rg_plainIDs r = b_plainIDs b"
    using r unfolding Build_eq by (auto split: if_splits sum.splits)
  ultimately show ?thesis using Build_registry_ok [OF r] assms(1) by simp
qed

lemma DriverRegistry_builds: "\<exists>r. DriverRegistry = Returned r \<and> registry_ok r
    \<and> map e_Method (rg_entries r) = [Reflect, Say, Count, Upload, Chat, Ticks, Missing]
    \<and> rg_voidID r = VoidID \<and> rg_plainIDs r = {}"
  using must_Build [of "Declare Missing (Declare Ticks (Declare Chat (Declare Upload (Declare Count
      (Declare Say (Declare Reflect Builder))))))"]
  by (auto simp: DriverRegistry_def all_entries_def builder_defs request_id_def MessageIDs_def Let_def
      MaxMethods_def method_defs demo_ids)

lemma CallerRegistry_builds: "\<exists>r. CallerRegistry = Returned r \<and> registry_ok r
    \<and> map e_Method (rg_entries r) = Reflect # demo_Methods"
  using must_Build [of "fold Declare demo_Methods (Declare Reflect Builder)"]
  by (auto simp: CallerRegistry_def demo_Methods_def all_entries_def builder_defs request_id_def
      MessageIDs_def Let_def MaxMethods_def method_defs demo_ids)

lemma ResponderRegistry_builds: "\<exists>r. ResponderRegistry upper schema reflection = Returned r \<and> registry_ok r
    \<and> map e_Method (rg_entries r) = demo_Methods @ (if reflection then [Idempotent Reflect] else [])
    \<and> take 5 (map e_Factory (rg_entries r)) = map Some [say_factory upper, count_demo_factory, upload_factory upper,
        chat_factory upper, ticks_factory]
    \<and> rg_voidID r = VoidID \<and> rg_plainIDs r = {}"
  using must_Build [of "ResponderBuilder upper"]
    must_Build [of "RegistryBuilder_Reflection ReflectRequestID ReflectResponseID schema (ResponderBuilder upper)"]
  by (auto simp: ResponderRegistry_def ResponderBuilder_def demo_Methods_def all_entries_def builder_defs
      request_id_def MessageIDs_def Let_def MaxMethods_def method_defs demo_ids reflection_entry_def
      Reflection_Method_def Idempotent_def)

subsection \<open>Bodies\<close>

lemma decode_message:
  assumes "message_codec enc dec fits z" and "fits UnlimitedLimits v"
  shows "decode (encode (enc v)) dec m field = Returned (field v)"
proof -
  obtain r where "dec (NewReader (wr_buf (enc v NewWriter) @ [])) m = (None, r, v)"
    using message_codec.decode_encode [OF assms] by blast
  then show ?thesis by (simp add: decode_def encode_def Writer_Bytes_def)
qed

lemma unlimited_string: "string_ok s \<Longrightarrow> string_fits UnlimitedLimits s"
  by (simp add: string_fits_def UnlimitedLimits_def string_ok_def fits_u32_def)

lemmas body_defs = EncodeEcho_def DecodeEcho_def EncodeEchoResponse_def DecodeEchoResponse_def
  EncodeCount_def DecodeCount_def EncodeCountItem_def DecodeCountItem_def EncodeChunk_def DecodeChunk_def
  EncodeDone_def DecodeDone_def EncodeSaid_def DecodeSaid_def EncodeHeard_def DecodeHeard_def
  EncodeTick_def DecodeTick_def

lemma decode_strings:
  assumes "string_ok s"
  shows "DecodeEcho (EncodeEcho s) = Returned s" "DecodeEchoResponse (EncodeEchoResponse s) = Returned s"
    "DecodeDone (EncodeDone s) = Returned s" "DecodeSaid (EncodeSaid s) = Returned s"
    "DecodeHeard (EncodeHeard s) = Returned s"
  using unlimited_string [OF assms]
  by (simp_all add: body_defs decode_message [OF EchoRequest.message_codec_axioms]
      decode_message [OF EchoResponse.message_codec_axioms] decode_message [OF UploadDone.message_codec_axioms]
      decode_message [OF ChatSaid.message_codec_axioms] decode_message [OF ChatHeard.message_codec_axioms])

lemma decode_numbers:
  "DecodeCount (EncodeCount n) = Returned n" "DecodeCountItem (EncodeCountItem n) = Returned n"
  "DecodeChunk (EncodeChunk n) = Returned n" "DecodeTick (EncodeTick n) = Returned n"
  by (simp_all add: body_defs decode_message [OF CountRequest.message_codec_axioms]
      decode_message [OF CountItem.message_codec_axioms] decode_message [OF UploadChunk.message_codec_axioms]
      decode_message [OF TicksItem.message_codec_axioms])

subsection \<open>Handlers\<close>

lemma at_app:
  assumes "a < length (w_app w)"
  shows "at a act w = (fst (act (w_app w ! a)), w\<lparr>w_app := (w_app w)[a := snd (act (w_app w ! a))]\<rparr>)"
  by (simp add: at_def split: prod.splits)

text \<open>The progress of a handler polled \<open>n\<close> times.\<close>

fun polled :: "nat \<Rightarrow> demo_object \<Rightarrow> Progress list" where
  "polled 0 obj = []"
| "polled (Suc n) obj = (case demo_Poll obj of (progress, obj) \<Rightarrow> progress # polled n obj)"

lemma poll_times_demo:
  assumes "a < length (w_app w)"
  shows "fst (poll_times n (demo_handler a) now w) = polled n (w_app w ! a)"
  using assms
proof (induction n arbitrary: w)
  case (Suc n)
  obtain progress obj where p: "demo_Poll (w_app w ! a) = (progress, obj)" by fastforce
  then have "safePoll (demo_handler a) now w = (progress, w\<lparr>w_app := (w_app w)[a := obj]\<rparr>)"
    by (simp add: safePoll_def demo_handler_def PollFunc_def at_app [OF Suc.prems])
  moreover have "fst (poll_times n (demo_handler a) now (w\<lparr>w_app := (w_app w)[a := obj]\<rparr>)) = polled n obj"
    using Suc.IH [of "w\<lparr>w_app := (w_app w)[a := obj]\<rparr>"] Suc.prems by simp
  ultimately show ?case using p by (auto split: prod.splits)
qed simp

lemma counter_polled:
  assumes "unat k \<le> unat n"
  shows "polled (unat n - unat k + 1) (Counter n k)
    = map (\<lambda>i. Item (EncodeCountItem (word_of_nat i))) [Suc (unat k)..<Suc (unat n)] @ [End]"
  using assms
proof (induction "unat n - unat k" arbitrary: k)
  case 0
  then have "k \<ge> n" by (simp add: word_le_nat_alt)
  then show ?case using 0 by (simp add: counter_Poll_def)
next
  case (Suc d)
  then have lt: "unat k < unat n" by simp
  then have k1: "unat (k + 1) = Suc (unat k)"
    using unsigned_less [of n, where ?'a = nat] by (simp add: unat_word_ariths)
  have s: "unat n - unat k + 1 = Suc (unat n - unat (k + 1) + 1)" using lt k1 by simp
  have w: "word_of_nat (Suc (unat k)) = k + 1" by (simp add: add.commute)
  have "polled (unat n - unat (k + 1) + 1) (Counter n (k + 1))
    = map (\<lambda>i. Item (EncodeCountItem (word_of_nat i))) [Suc (unat (k + 1))..<Suc (unat n)] @ [End]"
    using Suc.hyps(2) lt k1 by (intro Suc.hyps(1)) simp_all
  moreover have "[Suc (unat k)..<Suc (unat n)] = Suc (unat k) # [Suc (unat (k + 1))..<Suc (unat n)]"
    using lt k1 by (simp add: upt_conv_Cons)
  moreover have "\<not> k \<ge> n" using lt by (simp add: word_le_nat_alt)
  ultimately show ?case unfolding s by (simp add: counter_Poll_def Let_def w del: upt_Suc of_nat_Suc)
qed

text \<open>The counter that \<open>Echo.Count\<close> starts streams 1 to \<open>n\<close> and ends.\<close>

lemma counter_streams:
  "polled (unat n + 1) (Counter n 0) = map (\<lambda>i. Item (EncodeCountItem (word_of_nat i))) [1..<Suc (unat n)] @ [End]"
  using counter_polled [of 0 n] by simp

lemma count_factory_streams:
  assumes "n \<le> 100"
  shows "\<exists>h w'. count_demo_factory m (EncodeCount n) w = (Returned (Some h, None), w')
    \<and> fst (poll_times (unat n + 1) h now w')
      = map (\<lambda>i. Item (EncodeCountItem (word_of_nat i))) [1..<Suc (unat n)] @ [End]"
proof -
  let ?w = "w\<lparr>w_app := w_app w @ [Counter n 0]\<rparr>"
  have "count_demo_factory m (EncodeCount n) w = (Returned (Some (demo_handler (length (w_app w))), None), ?w)"
    using assms by (simp add: count_demo_factory_def decode_numbers allocate_demo_def not_less [symmetric])
  moreover have "fst (poll_times (unat n + 1) (demo_handler (length (w_app w))) now ?w)
      = polled (unat n + 1) (Counter n 0)"
    using poll_times_demo [of "length (w_app w)" ?w "unat n + 1" now] by (simp add: nth_append)
  ultimately show ?thesis using counter_streams [of n] by auto
qed

text \<open>Items and the end of the caller's stream, delivered to an object.\<close>

fun fed :: "(string \<Rightarrow> string) \<Rightarrow> bytes list \<Rightarrow> demo_object \<Rightarrow> demo_object" where
  "fed upper [] obj = snd (demo_EndOfStream obj)"
| "fed upper (body # bodies) obj = fed upper bodies (snd (demo_Item upper body obj))"

lemma upload_fed:
  assumes "\<forall>c \<in> set chunks. c \<noteq> 0"
  shows "fed upper (map EncodeChunk chunks) (UploadHandler b k False)
    = UploadHandler (b + sum_list chunks) (k + word_of_nat (length chunks)) True"
  using assms
  by (induction chunks arbitrary: b k) (simp_all add: uploadHandler_Item_def decode_numbers algebra_simps)

lemma upload_summary:
  assumes "\<forall>c \<in> set chunks. c \<noteq> 0"
  shows "fst (demo_Poll (fed upper (map EncodeChunk chunks) (UploadHandler 0 0 False)))
    = Respond (EncodeDone (fmt_d (unat (word_of_nat (length chunks) :: u32)) @ '' chunks, ''
        @ fmt_d (unat (sum_list chunks)) @ '' bytes''))"
  using upload_fed [OF assms, of upper 0 0] by (simp add: uploadHandler_Poll_def)

lemma chat_fed:
  assumes "\<forall>l \<in> set said. string_ok l"
  shows "fed upper (map EncodeSaid said) (ChatHandler replies False)
    = ChatHandler (replies @ map (\<lambda>l. EncodeHeard (ToUpper upper l)) said) True"
  using assms
  by (induction said arbitrary: replies) (simp_all add: chatHandler_Item_def decode_strings)

lemma chat_polled: "polled (length replies + 1) (ChatHandler replies True) = map Item replies @ [End]"
  by (induction replies) (simp_all add: chatHandler_Poll_def)

end
