(* ===== verification/DemoRuns.thy ===== *)
theory DemoRuns
  imports DemoService UploadCall Examples
begin

text \<open>
  The demo service between two cores.  A client of the driver's registry counts and uploads at
  a server of the responder's registry, both cores as \<open>Frames\<close> of \<open>scenario.go\<close> makes them: what the
  application gets is what the service promises.
\<close>

subsection \<open>The two cores\<close>

definition demo_core :: "Role \<Rightarrow> demo_world Registry \<Rightarrow> demo_world Core" where
  "demo_core role r = OnReady (NewCore r role zero_Config zero_world)"

lemma demo_core_inv: "core_inv (demo_core role r)"
  using core_inv_new [of r role zero_Config zero_world]
  by (simp add: demo_core_def OnReady_def core_inv_def Core_Role_def)

lemma demo_core_facts [simp]:
  "c_registry (demo_core role r) = r" "c_world (demo_core role r) = zero_world"
  "bare (demo_core role r)" "c_pending (demo_core role r) = fmempty" "c_inflight (demo_core role r) = fmempty"
  "Core_Role (demo_core role r) = role" "c_outcomes (demo_core role r) = []"
  "MaxPending (c_config (demo_core role r)) = 65536" "MaxCtxLen (c_config (demo_core role r)) = 65536"
  "MaxBodyLen (c_config (demo_core role r)) = MaxBodyCeiling"
  "c_ids (demo_core role r) = NewCallIDAllocator role" "queue (c_outbox (demo_core role r)) k = []"
  "HasRoom k (c_outbox (demo_core role r))" "room_for n k (c_outbox (demo_core role r)) \<longleftrightarrow> n < 64"
  by (simp_all add: demo_core_def OnReady_def NewCore_def Let_def bare_def Core_Role_def NewOutbox_def
      normalized_fields zero_Config_def queue_def HasRoom_def FullFor_def QueuedFor_def room_for_def
      NewCallIDAllocator_def) auto

text \<open>What is used of the registries.\<close>

definition driver_ok :: "demo_world Registry \<Rightarrow> bool" where
  "driver_ok r \<longleftrightarrow> registry_ok r \<and> rg_voidID r = VoidID \<and> rg_plainIDs r = {}
    \<and> MethodFor CountRequestID r = Some Count \<and> MethodFor UploadOpenID r = Some Upload"

definition responder_ok :: "(string \<Rightarrow> string) \<Rightarrow> demo_world Registry \<Rightarrow> bool" where
  "responder_ok upper r \<longleftrightarrow> registry_ok r \<and> rg_voidID r = VoidID \<and> rg_plainIDs r = {}
    \<and> EntryFor CountRequestID r = Some \<lparr>e_Method = Count, e_Factory = Some count_demo_factory\<rparr>
    \<and> EntryFor UploadOpenID r = Some \<lparr>e_Method = Upload, e_Factory = Some (upload_factory upper)\<rparr>"

lemma EntryFor_member: "registry_ok r \<Longrightarrow> e \<in> set (rg_entries r) \<Longrightarrow> EntryFor (m_RequestID (e_Method e)) r = Some e"
  by (simp add: EntryFor_def registry_ok_def request_id_def)

lemma MethodFor_member: "registry_ok r \<Longrightarrow> m \<in> set (map e_Method (rg_entries r)) \<Longrightarrow> MethodFor (m_RequestID m) r = Some m"
  using EntryFor_member [of r] by (auto simp: MethodFor_def EntryFor_def)

lemma method_ids [simp]:
  "m_RequestID Count = CountRequestID" "m_RequestID Upload = UploadOpenID"
  "m_Shape Count = ShapeServerStream" "m_Shape Upload = ShapeClientStream"
  by (simp_all add: method_defs)

lemma DriverRegistry_ok: "\<exists>r. DriverRegistry = Returned r \<and> driver_ok r"
proof -
  obtain r where r: "DriverRegistry = Returned r" "registry_ok r"
    "map e_Method (rg_entries r) = [Reflect, Say, Count, Upload, Chat, Ticks, Missing]"
    "rg_voidID r = VoidID" "rg_plainIDs r = {}" using DriverRegistry_builds by (elim exE conjE)
  have "MethodFor (m_RequestID m) r = Some m" if "m \<in> {Count, Upload}" for m
  proof (rule MethodFor_member [OF r(2)])
    show "m \<in> set (map e_Method (rg_entries r))" unfolding r(3) using that by auto
  qed
  from this [of Count] this [of Upload] r(1,2,4,5) show ?thesis
    by (intro exI [of _ r]) (simp add: driver_ok_def)
qed

lemma ResponderRegistry_ok: "\<exists>r. ResponderRegistry upper schema reflection = Returned r \<and> responder_ok upper r"
proof -
  obtain r where r: "ResponderRegistry upper schema reflection = Returned r" "registry_ok r"
    "map e_Method (rg_entries r) = demo_Methods @ (if reflection then [Idempotent Reflect] else [])"
    "take 5 (map e_Factory (rg_entries r)) = map Some [say_factory upper, count_demo_factory, upload_factory upper,
        chat_factory upper, ticks_factory]"
    "rg_voidID r = VoidID" "rg_plainIDs r = {}"
    using ResponderRegistry_builds [of upper schema reflection] by blast
  have len: "5 \<le> length (rg_entries r)" using arg_cong [OF r(4), of length] by simp
  have m: "e_Method (rg_entries r ! i) = demo_Methods ! i" if "i < 5" for i
  proof -
    have "e_Method (rg_entries r ! i) = map e_Method (rg_entries r) ! i" using that len by simp
    also have "\<dots> = demo_Methods ! i"
      unfolding r(3) using that by (subst nth_append) (simp add: demo_Methods_def)
    finally show ?thesis .
  qed
  have f: "e_Factory (rg_entries r ! i) = map Some [say_factory upper, count_demo_factory, upload_factory upper,
        chat_factory upper, ticks_factory] ! i" if "i < 5" for i
  proof -
    have "e_Factory (rg_entries r ! i) = take 5 (map e_Factory (rg_entries r)) ! i" using that len by simp
    then show ?thesis unfolding r(4) .
  qed
  have e: "rg_entries r ! 1 = \<lparr>e_Method = Count, e_Factory = Some count_demo_factory\<rparr>"
    "rg_entries r ! 2 = \<lparr>e_Method = Upload, e_Factory = Some (upload_factory upper)\<rparr>"
    using m [of 1] m [of 2] f [of 1] f [of 2] by (simp_all add: demo_Methods_def numeral_2_eq_2)
  have "rg_entries r ! 1 \<in> set (rg_entries r)" "rg_entries r ! 2 \<in> set (rg_entries r)"
    using len by simp_all
  then show ?thesis
    using r EntryFor_member [OF r(2), of "rg_entries r ! 1"] EntryFor_member [OF r(2), of "rg_entries r ! 2"]
    by (simp add: responder_ok_def e [simplified])
qed

lemma driver_okI: "DriverRegistry = Returned r \<Longrightarrow> driver_ok r"
  using DriverRegistry_ok by (metis attempt.inject(1))

lemma responder_okI: "ResponderRegistry upper schema reflection = Returned r \<Longrightarrow> responder_ok upper r"
  using ResponderRegistry_ok [of upper schema reflection] by (metis attempt.inject(1))

subsection \<open>Handlers\<close>

lemma upload_consumes:
  assumes "\<forall>c \<in> set chunks. c \<noteq> 0" and "length ts = length chunks" and "a < length (w_app w)"
    and "w_app w ! a = UploadHandler b n False"
  shows "\<exists>w'. consumes (stream_handler upper a) w (zip (map EncodeChunk chunks) ts) t1
    (EncodeDone (fmt_d (unat (n + word_of_nat (length chunks))) @ '' chunks, ''
      @ fmt_d (unat (b + sum_list chunks)) @ '' bytes'')) w'"
  using assms
proof (induction chunks arbitrary: ts w b n)
  case Nil
  let ?w = "w\<lparr>w_app := (w_app w)[a := UploadHandler b n True]\<rparr>"
  have "closeStream (stream_handler upper a) w = (None, ?w)"
    using Nil by (simp add: closeStream_def stream_handler_def at_app)
  moreover have "safePoll (stream_handler upper a) t1 ?w = (Respond (EncodeDone (fmt_d (unat n) @ '' chunks, ''
      @ fmt_d (unat b) @ '' bytes'')), ?w)"
    using Nil by (simp add: safePoll_def stream_handler_def demo_handler_def PollFunc_def at_app uploadHandler_Poll_def)
  ultimately show ?case by (auto intro: consumes.closes)
next
  case (Cons c chunks)
  then obtain t us where ts: "ts = t # us" "length us = length chunks" by (cases ts) auto
  let ?w = "w\<lparr>w_app := (w_app w)[a := UploadHandler (b + c) (n + 1) False]\<rparr>"
  have d: "deliverItem (stream_handler upper a) (EncodeChunk c) w = (None, ?w)"
    using Cons.prems by (simp add: deliverItem_def stream_handler_def at_app uploadHandler_Item_def decode_numbers)
  have p: "safePoll (stream_handler upper a) t ?w = (Pending, ?w)"
    using Cons.prems
    by (simp add: safePoll_def stream_handler_def demo_handler_def PollFunc_def at_app uploadHandler_Poll_def)
  obtain w' where "consumes (stream_handler upper a) ?w (zip (map EncodeChunk chunks) us) t1
    (EncodeDone (fmt_d (unat (n + 1 + word_of_nat (length chunks))) @ '' chunks, ''
      @ fmt_d (unat (b + c + sum_list chunks)) @ '' bytes'')) w'"
    using Cons.IH [OF _ ts(2), of ?w "b + c" "n + 1"] Cons.prems by auto
  from consumes.takes [OF d p this] show ?case using ts(1) by (auto simp: algebra_simps)
qed

lemma count_yields:
  assumes "n \<le> 100"
  shows "\<exists>h w1 w2. count_demo_factory m (EncodeCount n) w = (Returned (Some h, None), w1)
    \<and> yields h now w1 (map (\<lambda>i. EncodeCountItem (word_of_nat i)) [1..<Suc (unat n)]) w2"
proof -
  obtain h w1 where f: "count_demo_factory m (EncodeCount n) w = (Returned (Some h, None), w1)"
    "fst (poll_times (unat n + 1) h now w1)
      = map (\<lambda>i. Item (EncodeCountItem (word_of_nat i))) [1..<Suc (unat n)] @ [End]"
    using count_factory_streams [OF assms] by blast
  define items where "items = map (\<lambda>i. EncodeCountItem (word_of_nat i)) [1..<Suc (unat n)]"
  have "fst (poll_times (length items + 1) h now w1) = map Item items @ [End]"
    unfolding items_def using f(2) by (simp only: map_map comp_def length_map length_upt diff_Suc_1)
  then have "\<exists>w2. yields h now w1 items w2" by (rule poll_times_yields)
  with f(1) show ?thesis unfolding items_def by blast
qed

subsection \<open>Conversations\<close>

lemma encoded_lengths: "length (EncodeChunk c) = 4" "length (EncodeCount n) = 4"
  by (simp_all add: EncodeChunk_def EncodeCount_def encode_def Writer_Bytes_def UploadChunk_Encode_def
      CountRequest_Encode_def NewWriter_def WriteU32_def append_bytes_def)

lemma demo_ctx:
  "call_ctx None WithoutDeadline = zero_Ctx" "ctx_ok zero_Ctx" "length (Ctx_Encode zero_Ctx) = 28"
  "InitialCredit zero_Ctx = 0"
  by (simp_all add: call_ctx_def WithoutDeadline_def zero_Ctx_def ctx_ok_def fits_u32_def
      string_ok_def codec_simps u32_field_def bytes_field_def string_field_def bytes_of_string_def)

lemma demo_call:
  assumes "MethodFor requestID r = Some m" and "int (length body) \<le> MaxBodyCeiling"
  shows "\<exists>c'. Core_Call requestID body None WithoutDeadline now (demo_core RoleClient r) = (Inr 0, c')"
  by (rule Core_Call_accepted [where m = m and ids = "\<lparr>al_role = RoleClient, al_next = 2\<rparr>"])
    (use assms in \<open>simp_all add: demo_ctx NewCallIDAllocator_def sample_Allocate\<close>)

text \<open>An upload of chunks, up to the ceiling of a queue: the answer is their number and their sum.\<close>

lemma demo_upload:
  assumes "driver_ok driver" and "responder_ok upper responder"
    and "\<forall>c \<in> set chunks. c \<noteq> 0" and "length chunks \<le> 62" and "length ts = length chunks"
    and "int (length (EncodeUploadOpen name)) \<le> MaxBodyCeiling"
  shows "\<exists>cl1 cl2 cl3 log sv log'.
    Core_Call UploadOpenID (EncodeUploadOpen name) None WithoutDeadline now (demo_core RoleClient driver) = (Inr 0, cl1)
    \<and> sends 0 (map EncodeChunk chunks) cl1 = Some cl2
    \<and> Core_Drain (log_sink (\<lambda>_ _. True)) cl2 [] = Some (cl3, log)
    \<and> Core_Drain (log_sink (\<lambda>_ _. True))
        (receives (zip (filter (frame_of 0) log) (t0 # ts @ [t1])) (demo_core RoleServer responder)) [] = Some (sv, log')
    \<and> c_outcomes (receives (zip (filter (frame_of 0) log') [t2]) cl3)
      = [\<lparr>o_Kind = OutcomeResponse, o_Call = 0, o_Body = EncodeDone (fmt_d (length chunks) @ '' chunks, ''
          @ fmt_d (unat (sum_list chunks)) @ '' bytes''), o_Status = None\<rparr>]"
proof -
  let ?cl = "demo_core RoleClient driver" and ?sv = "demo_core RoleServer responder"
  have d: "registry_ok driver" "MethodFor UploadOpenID driver = Some Upload" "rg_voidID driver = VoidID"
    using assms(1) by (simp_all add: driver_ok_def)
  have r: "registry_ok responder" "rg_voidID responder = VoidID" "rg_plainIDs responder = {}"
    "EntryFor UploadOpenID responder = Some \<lparr>e_Method = Upload, e_Factory = Some (upload_factory upper)\<rparr>"
    using assms(2) by (simp_all add: responder_ok_def)
  obtain cl1 where call: "Core_Call UploadOpenID (EncodeUploadOpen name) None WithoutDeadline now ?cl = (Inr 0, cl1)"
    using demo_call [OF d(2) assms(6)] by blast
  have b: "bare ?cl" by simp
  from Core_Call_bare [OF call b] d(2) obtain f w where w: "c_outbox cl1 = Outbox_append 0 f (c_outbox ?cl)"
    "c_pending cl1 = fmupd 0 w fmempty" "w_shape w = ShapeClientStream" "\<not> w_sendClosed w" "\<not> w_established w"
    by auto
  have cfg: "c_config cl1 = c_config ?cl"
    using Core_Call_result [OF call demo_core_inv] by (simp add: call_result_def)
  have "room_for (length chunks) 0 (c_outbox cl1)"
    unfolding w(1) by (rule room_for_append) (use assms(4) in simp)
  then obtain cl2 where sent: "sends 0 (map EncodeChunk chunks) cl1 = Some cl2"
    using sends_accepted [of cl1 0 w "map EncodeChunk chunks"] w cfg
    by (auto simp: CallerStreams_def encoded_lengths MaxBodyCeiling_def)
  let ?w1 = "zero_world\<lparr>w_app := [UploadHandler 0 0 False]\<rparr>"
  have f: "upload_factory upper Upload (EncodeUploadOpen name) zero_world
      = (Returned (Some (stream_handler upper 0), None), ?w1)"
    by (simp add: upload_factory_def allocate_demo_def zero_world_def)
  have p: "safePoll (stream_handler upper 0) t0 ?w1 = (Pending, ?w1)"
    by (simp add: safePoll_def stream_handler_def demo_handler_def PollFunc_def at_app uploadHandler_Poll_def zero_world_def)
  define reply where "reply = EncodeDone (fmt_d (length chunks) @ '' chunks, '' @ fmt_d (unat (sum_list chunks)) @ '' bytes'')"
  have "unat (word_of_nat (length chunks) :: u32) = length chunks"
    using assms(4) by (simp add: unat_of_nat)
  then obtain w3 where c: "consumes (stream_handler upper 0) ?w1 (zip (map EncodeChunk chunks) ts) t1 reply w3"
    using upload_consumes [OF assms(3,5), of 0 ?w1 0 0 upper t1] by (auto simp: reply_def)
  have g: "h_Grant (stream_handler upper 0) = None" by (simp add: stream_handler_def demo_handler_def PollFunc_def)
  have a: "\<not> Role_Allocates RoleServer 0" by (simp add: Role_Allocates_def CallID_Even_def)
  have "\<exists>cl3 log sv' sv log'. Core_Drain (log_sink (\<lambda>_ _. True)) cl2 [] = Some (cl3, log)
    \<and> receives (zip (filter (frame_of 0) log) (t0 # ts @ [t1])) ?sv = sv'
    \<and> Core_Drain (log_sink (\<lambda>_ _. True)) sv' [] = Some (sv, log') \<and> 0 |\<notin>| fmdom (c_inflight sv)
    \<and> (let cl4 = receives (zip (filter (frame_of 0) log') [t2]) cl3
       in c_outcomes cl4 = c_outcomes ?cl
          @ [\<lparr>o_Kind = OutcomeResponse, o_Call = 0, o_Body = reply, o_Status = None\<rparr>]
         \<and> 0 |\<notin>| fmdom (c_pending cl4))"
    by (rule upload_call [where m = Upload and h = "stream_handler upper 0" and factory = "upload_factory upper"
          and e = "\<lparr>e_Method = Upload, e_Factory = Some (upload_factory upper)\<rparr>"
          and ?w1.0 = ?w1 and ?w2.0 = ?w1 and ?w3.0 = w3, OF b _ _ _ demo_core_inv _ call sent])
      (use f p c d r g a assms(5) in \<open>simp_all add: demo_ctx IsPlain_def demo_core_inv\<close>)
  then obtain cl3 log sv log' where "Core_Drain (log_sink (\<lambda>_ _. True)) cl2 [] = Some (cl3, log)"
    "Core_Drain (log_sink (\<lambda>_ _. True)) (receives (zip (filter (frame_of 0) log) (t0 # ts @ [t1])) ?sv) []
      = Some (sv, log')"
    "c_outcomes (receives (zip (filter (frame_of 0) log') [t2]) cl3)
      = [\<lparr>o_Kind = OutcomeResponse, o_Call = 0, o_Body = reply, o_Status = None\<rparr>]"
    by (auto simp: Let_def)
  with call sent show ?thesis unfolding reply_def [symmetric]
    by (intro exI [of _ cl1] exI [of _ cl2] exI [of _ cl3] exI [of _ log] exI [of _ sv] exI [of _ log']) simp
qed

text \<open>A count up to what a queue holds: the numbers, in order, and the end.\<close>

lemma demo_count:
  assumes "driver_ok driver" and "responder_ok upper responder" and "n \<le> 63"
    and "length ts = Suc (unat n)"
  shows "\<exists>cl request sv sv' log.
    Core_Call CountRequestID (EncodeCount n) None WithoutDeadline now (demo_core RoleClient driver) = (Inr 0, cl)
    \<and> queue (c_outbox cl) 0 = [request]
    \<and> OnMessage (og_MessageID request) (og_Payload request) t0 (demo_core RoleServer responder) = (True, sv)
    \<and> Core_Drain (log_sink (\<lambda>_ _. True)) sv [] = Some (sv', log)
    \<and> c_outcomes (receives (zip (filter (frame_of 0) log) ts) cl)
      = map (\<lambda>i. item_outcome 0 (EncodeCountItem (word_of_nat i))) [1..<Suc (unat n)] @ [end_outcome 0]"
proof -
  let ?cl = "demo_core RoleClient driver" and ?sv = "demo_core RoleServer responder"
  let ?items = "map (\<lambda>i. EncodeCountItem (word_of_nat i)) [1..<Suc (unat n)]"
  have d: "registry_ok driver" "MethodFor CountRequestID driver = Some Count" "rg_voidID driver = VoidID"
    "rg_plainIDs driver = {}"
    using assms(1) by (simp_all add: driver_ok_def)
  have r: "registry_ok responder" "rg_voidID responder = VoidID"
    "EntryFor CountRequestID responder = Some \<lparr>e_Method = Count, e_Factory = Some count_demo_factory\<rparr>"
    using assms(2) by (simp_all add: responder_ok_def)
  obtain cl where call: "Core_Call CountRequestID (EncodeCount n) None WithoutDeadline now ?cl = (Inr 0, cl)"
    using demo_call [OF d(2), of "EncodeCount n" now] by (auto simp: encoded_lengths MaxBodyCeiling_def)
  have b: "bare ?cl" by simp
  have n: "unat n \<le> 63" "n \<le> 100" using assms(3) by (simp_all add: word_le_nat_alt)
  obtain h w1 w2 where f: "count_demo_factory Count (EncodeCount n) zero_world = (Returned (Some h, None), w1)"
    "yields h t0 w1 ?items w2"
    using count_yields [OF n(2), of Count zero_world t0] by auto
  have a: "\<not> Role_Allocates RoleServer 0" by (simp add: Role_Allocates_def CallID_Even_def)
  have "\<exists>request sv sv' log. c_outbox cl = Outbox_append 0 request (c_outbox ?cl)
    \<and> OnMessage (og_MessageID request) (og_Payload request) t0 ?sv = (True, sv) \<and> 0 |\<notin>| fmdom (c_inflight sv)
    \<and> Core_Drain (log_sink (\<lambda>_ _. True)) sv [] = Some (sv', log)
    \<and> (\<forall>ts. length ts = Suc (length ?items) \<longrightarrow>
        (let cl'' = receives (zip (filter (frame_of 0) log) ts) cl
         in c_outcomes cl'' = c_outcomes ?cl @ map (item_outcome 0) ?items @ [end_outcome 0]
           \<and> 0 |\<notin>| fmdom (c_pending cl'')))"
    by (rule stream_call [where m = Count and h = h and factory = count_demo_factory
          and e = "\<lparr>e_Method = Count, e_Factory = Some count_demo_factory\<rparr>" and ?w1.0 = w1 and ?w2.0 = w2,
          OF b _ _ _ demo_core_inv _ call])
      (use f d r a n in \<open>simp_all add: demo_ctx IsPlain_def demo_core_inv\<close>)
  then obtain request sv sv' log where q: "c_outbox cl = Outbox_append 0 request (c_outbox ?cl)"
    "OnMessage (og_MessageID request) (og_Payload request) t0 ?sv = (True, sv)"
    "Core_Drain (log_sink (\<lambda>_ _. True)) sv [] = Some (sv', log)"
    "\<forall>ts. length ts = Suc (length ?items) \<longrightarrow>
        (let cl'' = receives (zip (filter (frame_of 0) log) ts) cl
         in c_outcomes cl'' = c_outcomes ?cl @ map (item_outcome 0) ?items @ [end_outcome 0]
           \<and> 0 |\<notin>| fmdom (c_pending cl''))" by blast
  have "queue (c_outbox cl) 0 = [request]" by (simp add: q(1) queue_simps)
  moreover have "c_outcomes (receives (zip (filter (frame_of 0) log) ts) cl)
      = map (\<lambda>i. item_outcome 0 (EncodeCountItem (word_of_nat i))) [1..<Suc (unat n)] @ [end_outcome 0]"
    using q(4) [rule_format, of ts] assms(4) by (simp add: Let_def comp_def)
  ultimately show ?thesis using call q(2,3)
    by (intro exI [of _ cl] exI [of _ request] exI [of _ sv] exI [of _ sv'] exI [of _ log]) simp
qed

end
