(* ===== verification/ScenarioRun.thy ===== *)
theory ScenarioRun
  imports DemoService
begin

text \<open>
  The recorded scenario, run by the simplifier: two cores of the model, driven as \<open>Frames\<close> drives
  them, exchange byte for byte the frames of the recording.  Each step of the scenario is a
  constant, and its value is the simplified definition; no step is evaluated by generated code.
\<close>

subsection \<open>Evaluation\<close>

lemma Allocate_free: "\<not> f (al_next a) \<Longrightarrow> Allocate f a = (Some (al_next a), a\<lparr>al_next := al_next a + 2\<rparr>)"
  unfolding Allocate_def by (subst allocate_loop.simps) (simp add: max_attempt_def Let_def)

lemma map_len_fmupd: "map_len (fmupd k v m) = (if k |\<in>| fmdom m then map_len m else Suc (map_len m))"
  by (simp add: map_len_def fcard_finsert_if finsert_absorb)

lemma sorted_finsert: "sorted_list_of_fset (finsert k A)
    = (if k |\<in>| A then sorted_list_of_fset A else insort k (sorted_list_of_fset A))"
  by (cases "k |\<in>| A") (simp_all add: finsert_absorb, simp add: sorted_list_of_fset.rep_eq)

lemma sorted_fempty: "sorted_list_of_fset {||} = []"
  by (simp add: sorted_list_of_fset.rep_eq)

lemma bit_one_0: "bit (Suc 0) 0"
  by (simp add: bit_0)

lemmas core_eval =
  CallID_Even_def KindBits_def Encode_def ReadCallID_def Decode_def Describe_def NewBodyReader_def
  AtEnd_def ReadU32_def ReadBytes_def ReadString_def then_field_def NewBodyWriter_def PutU32_def
  PutBytes_def PutString_def Bytes_def NewStatus_def Cancelled_def DeadlineExceeded_def
  Unimplemented_def InvalidArgument_def ResourceExhausted_def Internal_def Status_Encode_def
  DecodeStatus_def WithInitialCredit_def Ctx_HasDeadline_def Ctx_IsEmpty_def Ctx_Encode_def
  DecodeCtx_def Role_Allocates_def NewCallIDAllocator_def NewOutbox_def queue_def saturatingAdd_def
  Outbox_Len_def Outbox_Grant_def QueuedFor_def FullFor_def HasRoom_def opensWithRequest_def
  RequestStillQueued_def Outbox_append_def PushTerminal_def Push_def Discard_def Clear_def
  pop_frame_def drain_turn_def credit_frame_def ready_credits_def drainCredits_def Outbox_Drain_def
  Pending_def Respond_def Item_def End_def Fail_def safePoll_def deliverItem_def closeStream_def
  PollFunc_def new_object_def object_Poll_def poll_at_def RespondNow_def CallerStreams_def
  CalleeStreams_def CallerItemID_def MessageIDs_def CreditID_def IsPlain_def EntryFor_def
  MethodFor_def newCallContext_def CallContext_HasDeadline_def Chain_Outgoing_def Chain_Inbound_def
  Chain_Outbound_def MaxBodyCeiling_def DefaultConfig_def normalized_def failed_def
  WithoutDeadline_def starved_def earlier_def nextExpiry_def NewCore_def Core_Role_def
  sortedKeys_def OnReady_def millisOf_def readCredit_def maybeCompress_def inflate_def
  plain_header_def bodyFrame_def controlFrame_def on_outbox_def run_outbound_def run_cancel_def
  put_pending_def put_inflight_def drop_inflight_def failCall_def finishInflight_def
  settlePending_def abandonPending_def failReceived_def collectGrant_def poll_step_def pollOne_def
  request_header_def encoded_ctx_def deadline_of_def queue_request_def send_request_def call_ctx_def
  Core_Call_def SendItem_def CloseSend_def Core_Grant_def Core_Cancel_def start_call_def
  call_limit_def admit_request_def onRequest_def expected_def carried_def onResponse_def onError_def
  onCallerItem_def onItem_def onCallerEnd_def onEnd_def onCancel_def onCredit_def
  rejectUndecodable_def dispatch_def OnMessage_def expire_pending_at_def expirePending_def
  expire_inflight_at_def expireInflight_def Tick_def Core_Drain_def TakeOutcomes_def zero_Ctx_def
  u32_field_def string_field_def

lemmas loop_eval = Let_def turn_loop.simps drainFrames.simps poll_loop.simps Allocate_free map_len_fmupd
  sorted_finsert sorted_fempty fmdrop_fmupd

lemmas text_eval = fmt_08X_def fmt_02X_def fmt_X_def fmt_d.simps digit_def bytes_of_string_def
  string_of_bytes_def char_of_def bit_one_0 PutUint32_def Uint32_def ToUpper_def upper_ascii_def

lemmas body_eval = encode_def Writer_Bytes_def decode_def EncodeEcho_def DecodeEcho_def EncodeEchoResponse_def
  EncodeUploadOpen_def EncodeChunk_def DecodeChunk_def EncodeDone_def EncodeRoom_def EncodeSaid_def
  DecodeSaid_def EncodeHeard_def EncodeTicksRequest_def EncodeTick_def
  EchoRequest_Encode_def EchoResponse_Encode_def UploadOpen_Encode_def UploadChunk_Encode_def
  UploadDone_Encode_def ChatOpen_Encode_def ChatSaid_Encode_def ChatHeard_Encode_def
  TicksRequest_Encode_def TicksItem_Encode_def w_string.put_image w_u32.put_image
  EchoRequest_Decode_def UploadChunk_Decode_def ChatSaid_Decode_def decode_field_def FieldAbsent_def
  Reader_Remaining_def NewReader_def UnlimitedLimits_def ReaderString_def ReaderU32_def readLength_def
  takeChecked_def Reader_take_def and_then_def

lemmas service_eval = say_factory_def upload_factory_def chat_factory_def ticks_factory_def allocate_demo_def
  stream_handler_def demo_handler_def at_def uploadHandler_Poll_def uploadHandler_Item_def
  chatHandler_Poll_def chatHandler_Item_def ticksHandler_Poll_def

lemmas scenario_eval = open_call_def take_frames_def deliver_frame_def record_line_def zero_Config_def
  zero_world_def unix_epoch_def traced_def method_defs demo_ids


subsection \<open>The registries of the scenario\<close>

definition driver :: "demo_world Registry" where
  "driver = (case DriverRegistry of Returned r \<Rightarrow> r)"

definition responder :: "(string \<Rightarrow> string) \<Rightarrow> demo_world Registry" where
  "responder upper = (case ResponderRegistry upper [] False of Returned r \<Rightarrow> r)"

lemma scenario_registries:
  "DriverRegistry = Returned driver" "ResponderRegistry upper schema False = Returned (responder upper)"
proof -
  show "DriverRegistry = Returned driver"
    using DriverRegistry_builds unfolding driver_def by (metis attempt.case(1))
  have "ResponderRegistry upper schema False = ResponderRegistry upper [] False"
    by (simp add: ResponderRegistry_def)
  then show "ResponderRegistry upper schema False = Returned (responder upper)"
    using ResponderRegistry_builds [of upper "[]" False] unfolding responder_def by (metis attempt.case(1))
qed

lemmas registry_eval = DriverRegistry_def ResponderRegistry_def ResponderBuilder_def Build_def builder_defs
  method_defs demo_ids MessageIDs_def MaxMethods_def system_ids_def ReflectMethodName_def

declare let_weak_cong [cong]

lemma driver_facts:
  "rg_voidID driver = 3567817156" "rg_errorID driver = 3214208196" "rg_creditID driver = 2023358735"
  "rg_hasCredit driver" "rg_plainIDs driver = {}"
  "fmlookup (rg_byRequest driver) 0x109F8C60 = Some \<lparr>e_Method = Say, e_Factory = None\<rparr>"
  "fmlookup (rg_byRequest driver) 0xE96A59D5 = Some \<lparr>e_Method = Ticks, e_Factory = None\<rparr>"
  "fmlookup (rg_byRequest driver) 0x315285E4 = Some \<lparr>e_Method = Upload, e_Factory = None\<rparr>"
  "fmlookup (rg_byRequest driver) 0x5AE3B9AC = Some \<lparr>e_Method = Missing, e_Factory = None\<rparr>"
  "fmlookup (rg_byRequest driver) 0xEAEB5F14 = Some \<lparr>e_Method = Chat, e_Factory = None\<rparr>"
  unfolding driver_def by (simp_all add: registry_eval)

lemma responder_facts:
  "rg_voidID (responder upper) = 3567817156" "rg_errorID (responder upper) = 3214208196"
  "rg_creditID (responder upper) = 2023358735" "rg_hasCredit (responder upper)"
  "rg_plainIDs (responder upper) = {}"
  "fmlookup (rg_byRequest (responder upper)) 0x109F8C60
    = Some \<lparr>e_Method = Say, e_Factory = Some (say_factory upper)\<rparr>"
  "fmlookup (rg_byRequest (responder upper)) 0xE96A59D5
    = Some \<lparr>e_Method = Ticks, e_Factory = Some ticks_factory\<rparr>"
  "fmlookup (rg_byRequest (responder upper)) 0x315285E4
    = Some \<lparr>e_Method = Upload, e_Factory = Some (upload_factory upper)\<rparr>"
  "fmlookup (rg_byRequest (responder upper)) 0x5AE3B9AC = None"
  "fmlookup (rg_byRequest (responder upper)) 0xEAEB5F14
    = Some \<lparr>e_Method = Chat, e_Factory = Some (chat_factory upper)\<rparr>"
  unfolding responder_def by (simp_all add: registry_eval)

lemmas eval = core_eval loop_eval text_eval body_eval service_eval scenario_eval driver_facts responder_facts

text \<open>From here to the end of the theory the simplifier evaluates.\<close>

declare eval [simp]

subsection \<open>The caller's side\<close>

definition client0 :: "demo_world Core" where
  "client0 = OnReady (NewCore driver RoleClient zero_Config zero_world)"
lemmas client0_eval = client0_def [simplified]

definition say_call :: "CallID attempt \<times> demo_world Core" where
  "say_call = open_call EchoRequestID (EncodeEcho ''xin chao'') (Some traced) client0"
lemmas say_call_eval = say_call_def [unfolded client0_eval, simplified]

definition ticks_call :: "CallID attempt \<times> demo_world Core" where
  "ticks_call = open_call TicksRequestID EncodeTicksRequest (Some (WithInitialCredit 2)) (snd say_call)"
lemmas ticks_call_eval = ticks_call_def [unfolded say_call_eval, simplified]

definition granted :: "demo_world Core" where
  "granted = snd (Core_Grant 2 3 (snd ticks_call))"
lemmas granted_eval = granted_def [unfolded ticks_call_eval, simplified]

definition upload_call :: "CallID attempt \<times> demo_world Core" where
  "upload_call = open_call UploadOpenID (EncodeUploadOpen ''photo.raw'') None granted"
lemmas upload_call_eval = upload_call_def [unfolded granted_eval, simplified]

definition chunk1 :: "demo_world Core" where
  "chunk1 = snd (SendItem 4 (EncodeChunk 4096) (snd upload_call))"
lemmas chunk1_eval = chunk1_def [unfolded upload_call_eval, simplified]

definition chunk2 :: "demo_world Core" where
  "chunk2 = snd (SendItem 4 (EncodeChunk 1024) chunk1)"
lemmas chunk2_eval = chunk2_def [unfolded chunk1_eval, simplified]

definition upload_closed :: "demo_world Core" where
  "upload_closed = snd (CloseSend 4 chunk2)"
lemmas upload_closed_eval = upload_closed_def [unfolded chunk2_eval, simplified]

definition empty_call :: "CallID attempt \<times> demo_world Core" where
  "empty_call = open_call EchoRequestID (EncodeEcho []) None upload_closed"
lemmas empty_call_eval = empty_call_def [unfolded upload_closed_eval, simplified]

definition missing_call :: "CallID attempt \<times> demo_world Core" where
  "missing_call = open_call (m_RequestID Missing) [] None (snd empty_call)"
lemmas missing_call_eval = missing_call_def [unfolded empty_call_eval, simplified]

definition chat_call :: "CallID attempt \<times> demo_world Core" where
  "chat_call = open_call ChatOpenID (EncodeRoom ''lobby'') None (snd missing_call)"
lemmas chat_call_eval = chat_call_def [unfolded missing_call_eval, simplified]

definition said :: "demo_world Core" where
  "said = snd (SendItem 10 (EncodeSaid ''hello'') (snd chat_call))"
lemmas said_eval = said_def [unfolded chat_call_eval, simplified]

definition chat_closed :: "demo_world Core" where
  "chat_closed = snd (CloseSend 10 said)"
lemmas chat_closed_eval = chat_closed_def [unfolded said_eval, simplified]

definition taken1 :: "(Outgoing list \<times> string list \<times> demo_world Core) option" where
  "taken1 = take_frames chat_closed ''C'' []"
lemmas taken1_eval = taken1_def [unfolded chat_closed_eval, simplified]

subsection \<open>The first exchange\<close>

definition server0 :: "(string \<Rightarrow> string) \<Rightarrow> demo_world Core" where
  "server0 upper = OnReady (NewCore (responder upper) RoleServer zero_Config zero_world)"
lemmas server0_eval = server0_def [simplified]

definition heard1 :: "(string \<Rightarrow> string) \<Rightarrow> demo_world Core" where
  "heard1 upper = fold (deliver_frame unix_epoch) (fst (the taken1)) (server0 upper)"
lemmas heard1_eval = heard1_def [unfolded taken1_eval server0_eval, simplified]

definition served1 :: "(string \<Rightarrow> string) \<Rightarrow> demo_world Core" where
  "served1 upper = Tick unix_epoch (heard1 upper)"
lemmas served1_eval = served1_def [unfolded heard1_eval, simplified]

definition taken2 :: "(string \<Rightarrow> string) \<Rightarrow> (Outgoing list \<times> string list \<times> demo_world Core) option" where
  "taken2 upper = take_frames (served1 upper) ''S'' (fst (snd (the taken1)))"
lemmas taken2_eval = taken2_def [unfolded taken1_eval served1_eval, simplified]

definition answered1 :: "(string \<Rightarrow> string) \<Rightarrow> demo_world Core" where
  "answered1 upper = fold (deliver_frame unix_epoch) (fst (the (taken2 upper))) (snd (snd (the taken1)))"
lemmas answered1_eval = answered1_def [unfolded taken1_eval taken2_eval, simplified]

definition collected1 :: "(string \<Rightarrow> string) \<Rightarrow> demo_world Core" where
  "collected1 upper = snd (TakeOutcomes (Tick unix_epoch (answered1 upper)))"
lemmas collected1_eval = collected1_def [unfolded answered1_eval, simplified]

subsection \<open>The second exchange\<close>

definition cancelled :: "(string \<Rightarrow> string) \<Rightarrow> demo_world Core" where
  "cancelled upper = Core_Cancel 2 (collected1 upper)"
lemmas cancelled_eval = cancelled_def [unfolded collected1_eval, simplified]

definition taken3 :: "(string \<Rightarrow> string) \<Rightarrow> (Outgoing list \<times> string list \<times> demo_world Core) option" where
  "taken3 upper = take_frames (cancelled upper) ''C'' (fst (snd (the (taken2 upper))))"
lemmas taken3_eval = taken3_def [unfolded taken2_eval cancelled_eval, simplified]

definition served2 :: "(string \<Rightarrow> string) \<Rightarrow> demo_world Core" where
  "served2 upper = Tick unix_epoch (fold (deliver_frame unix_epoch) (fst (the (taken3 upper))) (snd (snd (the (taken2 upper)))))"
lemmas served2_eval = served2_def [unfolded taken2_eval taken3_eval, simplified]

definition taken4 :: "(string \<Rightarrow> string) \<Rightarrow> (Outgoing list \<times> string list \<times> demo_world Core) option" where
  "taken4 upper = take_frames (served2 upper) ''S'' (fst (snd (the (taken3 upper))))"
lemmas taken4_eval = taken4_def [unfolded taken3_eval served2_eval, simplified]

declare eval [simp del]
declare let_weak_cong [cong del]

subsection \<open>The run\<close>

lemma call_results:
  "fst say_call = Returned 0" "fst ticks_call = Returned 2" "fst upload_call = Returned 4"
  "fst empty_call = Returned 6" "fst missing_call = Returned 8" "fst chat_call = Returned 10"
  by (simp_all only: say_call_eval ticks_call_eval upload_call_eval empty_call_eval missing_call_eval
      chat_call_eval fst_conv)

lemma Frames_calls_client0: "Frames_calls client0 = (Returned 2, chat_closed)"
  by (simp only: Frames_calls_def Let_def case_prod_unfold say_call_def [symmetric]
      ticks_call_def [symmetric] granted_def [symmetric] upload_call_def [symmetric] chunk1_def [symmetric]
      chunk2_def [symmetric] upload_closed_def [symmetric] empty_call_def [symmetric]
      missing_call_def [symmetric] chat_call_def [symmetric] said_def [symmetric]
      chat_closed_def [symmetric] call_results attempt.case)

lemma taken:
  "taken1 \<noteq> None" "taken2 upper \<noteq> None" "taken3 upper \<noteq> None" "taken4 upper \<noteq> None"
  by (simp_all only: taken1_eval taken2_eval taken3_eval taken4_eval option.distinct not_False_eq_True)

lemmas exchange_folds = exchange_def Let_def case_prod_unfold option.case_eq_if taken if_False
  taken1_def [symmetric] heard1_def [symmetric] served1_def [symmetric] taken2_def [symmetric]
  answered1_def [symmetric] collected1_def [symmetric]

lemma first_exchange: "exchange unix_epoch chat_closed (server0 upper) []
    = Some (collected1 upper, snd (snd (the (taken2 upper))), fst (snd (the (taken2 upper))))"
  by (simp only: exchange_folds)

lemma second_exchange: "\<exists>client server. exchange unix_epoch (cancelled upper)
      (snd (snd (the (taken2 upper)))) (fst (snd (the (taken2 upper))))
    = Some (client, server, fst (snd (the (taken4 upper))))"
  by (simp only: exchange_def Let_def case_prod_unfold option.case_eq_if taken if_False
      taken3_def [symmetric] served2_def [symmetric] taken4_def [symmetric]) blast

lemma lines_taken: "fst (snd (the (taken4 upper))) = recorded_frames"
  by (simp add: taken4_eval recorded_frames_def)

lemma Frames_recorded: "Frames upper schema = Some (Returned recorded_frames)"
proof -
  obtain client server where "exchange unix_epoch (cancelled upper)
      (snd (snd (the (taken2 upper)))) (fst (snd (the (taken2 upper))))
    = Some (client, server, recorded_frames)"
    using second_exchange [of upper] unfolding lines_taken by blast
  then have "Frames_run client0 (server0 upper) = Some (Returned recorded_frames)"
    by (simp only: Frames_run_def Frames_calls_client0 first_exchange cancelled_def [symmetric]
        prod.case attempt.case option.case)
  then show ?thesis
    by (simp only: Frames_def scenario_registries attempt.case client0_def [symmetric] server0_def [symmetric])
qed

end

