(* ===== verification/Checks.thy ===== *)
theory Checks
  imports Client Scenario
begin

text \<open>
  The checks that the demo runs against a server (\<open>Drive\<close> of \<open>examples/demo/scenario.go\<close>).  A check is
  a computation on the client that may panic, as the source panics in \<open>open\<close>, \<open>next\<close> and the
  conversions of bodies; \<open>run_check\<close> recovers.  \<open>None\<close> is a computation that does not return.
  \<open>encoding/json\<close> is the parameter \<open>unmarshal\<close>, which gives the field \<open>fingerprint_u64\<close> of a document
  or the text of its error.
\<close>

subsection \<open>Computations on a client\<close>

type_synonym ('a, 'w, 'v, 'n) action =
  "('w, 'v, 'n) Client \<Rightarrow> ('a attempt \<times> ('w, 'v, 'n) Client) option"

definition give :: "'a \<Rightarrow> ('a, 'w, 'v, 'n) action" where
  "give x c = Some (Returned x, c)"

definition raise :: "panic_value \<Rightarrow> ('a, 'w, 'v, 'n) action" where
  "raise p c = Some (Panicked p, c)"

definition after ::
  "('a, 'w, 'v, 'n) action \<Rightarrow> ('a \<Rightarrow> ('b, 'w, 'v, 'n) action) \<Rightarrow> ('b, 'w, 'v, 'n) action" where
  "after act f c =
    (case act c of
       None \<Rightarrow> None
     | Some (Panicked p, c) \<Rightarrow> Some (Panicked p, c)
     | Some (Returned x, c) \<Rightarrow> f x c)"

text \<open>A conversion of a body, which panics or returns.\<close>

fun convert :: "'a attempt \<Rightarrow> ('a, 'w, 'v, 'n) action" where
  "convert (Returned x) = give x"
| "convert (Panicked p) = raise p"

subsection \<open>Texts\<close>

fun Errno_Error :: "Errno \<Rightarrow> string" where
  "Errno_Error EAGAIN = ''resource temporarily unavailable''"
| "Errno_Error EWOULDBLOCK = ''resource temporarily unavailable''"
| "Errno_Error EINTR = ''interrupted system call''"
| "Errno_Error (OtherErrno text) = text"

fun ClientError_Error :: "ClientError \<Rightarrow> string" where
  "ClientError_Error (ErrCallNotSent err) = ''rpcnet: the call could not be sent: '' @ CallError_Error err"
| "ClientError_Error (ErrNoFurtherOutcome call) =
    ''rpcnet: the call has no further outcome: '' @ CallID_String call"
| "ClientError_Error (ErrWait errno) = Errno_Error errno"

fun SendError_Error :: "SendError \<Rightarrow> string" where
  "SendError_Error (SendFailed err) = CallError_Error err"
| "SendError_Error (SendWait errno) = Errno_Error errno"

fun go_error_Error :: "go_error \<Rightarrow> string" where
  "go_error_Error (StatusError status) = Status_Error status"
| "go_error_Error (PlainError text) = text"

text \<open>\<open>%v\<close> of a recovered value and of a slice of numbers.\<close>

fun fmt_recovered :: "panic_value \<Rightarrow> string" where
  "fmt_recovered (PanicError err) = go_error_Error err"
| "fmt_recovered (PanicOther text) = text"

fun joined :: "string \<Rightarrow> string list \<Rightarrow> string" where
  "joined sep [] = []"
| "joined sep [x] = x"
| "joined sep (x # xs) = x @ sep @ joined sep xs"

definition fmt_numbers :: "u32 list \<Rightarrow> string" where
  "fmt_numbers ns = ''['' @ joined '' '' (map (\<lambda>n. fmt_d (unat n)) ns) @ '']''"

subsection \<open>Steps of a check\<close>

definition open_on ::
  "('v, 'n) Net \<Rightarrow> u32 \<Rightarrow> bytes \<Rightarrow> Ctx option \<Rightarrow> (CallID, 'w, 'v, 'n) action" where
  "open_on net requestID body ctx client =
    (case Client_Call net requestID body ctx DefaultCallOptions client of
       None \<Rightarrow> None
     | Some (Inl err, client) \<Rightarrow>
         raise (PanicOther (''the call could not be sent: '' @ CallError_Error err)) client
     | Some (Inr call, client) \<Rightarrow> give call client)"

definition next_on :: "('v, 'n) Net \<Rightarrow> CallID \<Rightarrow> (Outcome, 'w, 'v, 'n) action" where
  "next_on net call client =
    (case Next net call client of
       None \<Rightarrow> None
     | Some (Inl err, client) \<Rightarrow> raise (PanicOther (ClientError_Error err)) client
     | Some (Inr out, client) \<Rightarrow> give out client)"

definition nextTick :: "('v, 'n) Net \<Rightarrow> CallID \<Rightarrow> (u32, 'w, 'v, 'n) action" where
  "nextTick net call = after (next_on net call) (\<lambda>out.
     if o_Kind out \<noteq> OutcomeItem then raise (PanicOther (''expected a tick, got '' @ Outcome_String out))
     else convert (DecodeTick (o_Body out)))"

definition nil_dereference :: panic_value where
  "nil_dereference = PanicError (PlainError ''runtime error: invalid memory address or nil pointer dereference'')"

text \<open>The results of a check: no problem, or the text of one.\<close>

type_synonym problem = "string option"

definition expectStatus :: "u32 \<Rightarrow> Outcome \<Rightarrow> (problem, 'w, 'v, 'n) action" where
  "expectStatus code out =
    (let wrong = give (Some (''expected '' @ CodeName code @ '', got '' @ Outcome_String out)) in
     if o_Kind out = OutcomeFailed then
       (case o_Status out of
          None \<Rightarrow> raise nil_dereference
        | Some status \<Rightarrow> if st_Code status = code then give None else wrong)
     else wrong)"

definition invoke_on :: "('v, 'n) Net \<Rightarrow> u32 \<Rightarrow> bytes \<Rightarrow> (Outcome, 'w, 'v, 'n) action" where
  "invoke_on net requestID body client =
    (case Invoke net requestID body client of
       None \<Rightarrow> None
     | Some (Inl err, client) \<Rightarrow> raise (PanicOther (ClientError_Error err)) client
     | Some (Inr out, client) \<Rightarrow> give out client)"

text \<open>Calls of the client whose results are used as values.\<close>

definition send_on :: "('v, 'n) Net \<Rightarrow> CallID \<Rightarrow> bytes \<Rightarrow> (SendError option, 'w, 'v, 'n) action" where
  "send_on net call body client = map_option (\<lambda>(err, client). (Returned err, client)) (Client_SendItem net call body client)"

definition close_on :: "('v, 'n) Net \<Rightarrow> CallID \<Rightarrow> (CallError option, 'w, 'v, 'n) action" where
  "close_on net call client = map_option (\<lambda>(err, client). (Returned err, client)) (Client_CloseSend net call client)"

definition grant_on :: "('v, 'n) Net \<Rightarrow> CallID \<Rightarrow> u32 \<Rightarrow> (CallError option, 'w, 'v, 'n) action" where
  "grant_on net call items client = map_option (\<lambda>(err, client). (Returned err, client)) (Client_Grant net call items client)"

definition cancel_on :: "('v, 'n) Net \<Rightarrow> CallID \<Rightarrow> (unit, 'w, 'v, 'n) action" where
  "cancel_on net call client = map_option (\<lambda>client. (Returned (), client)) (Client_Cancel net call client)"

subsection \<open>The checks\<close>

definition sayUppercases :: "('v, 'n) Net \<Rightarrow> (problem, 'w, 'v, 'n) action" where
  "sayUppercases net = after (invoke_on net EchoRequestID (EncodeEcho ''xin chao'')) (\<lambda>out.
     if o_Kind out \<noteq> OutcomeResponse then give (Some (Outcome_String out))
     else after (convert (DecodeEchoResponse (o_Body out))) (\<lambda>text.
       if text \<noteq> ''XIN CHAO'' then give (Some (''answered '' @ text)) else give None))"

definition sayRejectsEmpty :: "('v, 'n) Net \<Rightarrow> (problem, 'w, 'v, 'n) action" where
  "sayRejectsEmpty net = after (invoke_on net EchoRequestID (EncodeEcho [])) (expectStatus CodeInvalidArgument)"

text \<open>The loop over the outcomes of a stream.\<close>

fun count_outcomes :: "u32 list \<Rightarrow> Outcome list \<Rightarrow> (problem, 'w, 'v, 'n) action" where
  "count_outcomes seen [] = give (Some ''the stream ended without END'')"
| "count_outcomes seen (out # outs) =
    (case o_Kind out of
       OutcomeItem \<Rightarrow> after (convert (DecodeCountItem (o_Body out))) (\<lambda>n. count_outcomes (seen @ [n]) outs)
     | OutcomeEnd \<Rightarrow>
         if seen = [1, 2, 3, 4, 5] then give None else give (Some (''items '' @ fmt_numbers seen))
     | _ \<Rightarrow> give (Some (Outcome_String out)))"

definition countStreams :: "('v, 'n) Net \<Rightarrow> (problem, 'w, 'v, 'n) action" where
  "countStreams net = after (open_on net CountRequestID (EncodeCount 5) None) (\<lambda>call client.
     case Collect net call [] client of
       None \<Rightarrow> None
     | Some ((outcomes, Some err), client) \<Rightarrow> give (Some (ClientError_Error err)) client
     | Some ((outcomes, None), client) \<Rightarrow> count_outcomes [] outcomes client)"

definition countRejectsLarge :: "('v, 'n) Net \<Rightarrow> (problem, 'w, 'v, 'n) action" where
  "countRejectsLarge net = after (open_on net CountRequestID (EncodeCount 101) None) (\<lambda>call.
     after (next_on net call) (expectStatus CodeInvalidArgument))"

fun send_chunks :: "('v, 'n) Net \<Rightarrow> CallID \<Rightarrow> u32 list \<Rightarrow> (problem, 'w, 'v, 'n) action" where
  "send_chunks net call [] = give None"
| "send_chunks net call (sz # szs) = after (send_on net call (EncodeChunk sz)) (\<lambda>sent.
     case sent of
       Some err \<Rightarrow> give (Some (''sending a chunk: '' @ SendError_Error err))
     | None \<Rightarrow> send_chunks net call szs)"

definition uploadSummarises :: "('v, 'n) Net \<Rightarrow> (problem, 'w, 'v, 'n) action" where
  "uploadSummarises net = after (open_on net UploadOpenID (EncodeUploadOpen ''photo.raw'') None) (\<lambda>call.
     after (send_chunks net call [4096, 8192, 1024]) (\<lambda>sent.
       case sent of
         Some err \<Rightarrow> give (Some err)
       | None \<Rightarrow> after (close_on net call) (\<lambda>_. after (next_on net call) (\<lambda>out.
           if o_Kind out \<noteq> OutcomeResponse then give (Some (Outcome_String out))
           else after (convert (DecodeDone (o_Body out))) (\<lambda>summary.
             if summary \<noteq> ''3 chunks, 13312 bytes'' then give (Some (''answered '' @ summary))
             else give None)))))"

definition uploadRejectsEmptyChunk :: "('v, 'n) Net \<Rightarrow> (problem, 'w, 'v, 'n) action" where
  "uploadRejectsEmptyChunk net = after (open_on net UploadOpenID (EncodeUploadOpen ''empty.raw'') None) (\<lambda>call.
     after (send_on net call (EncodeChunk 0)) (\<lambda>_.
       after (next_on net call) (expectStatus CodeInvalidArgument)))"

fun chat_lines ::
  "(string \<Rightarrow> string) \<Rightarrow> ('v, 'n) Net \<Rightarrow> CallID \<Rightarrow> string list \<Rightarrow> (problem, 'w, 'v, 'n) action" where
  "chat_lines upper net call [] = give None"
| "chat_lines upper net call (line # lines) = after (send_on net call (EncodeSaid line)) (\<lambda>_.
     after (next_on net call) (\<lambda>heard.
       if o_Kind heard \<noteq> OutcomeItem then give (Some (Outcome_String heard))
       else after (convert (DecodeHeard (o_Body heard))) (\<lambda>text.
         if text \<noteq> ToUpper upper line then give (Some (''heard '' @ text @ '' for '' @ line))
         else chat_lines upper net call lines)))"

definition chatEchoes :: "(string \<Rightarrow> string) \<Rightarrow> ('v, 'n) Net \<Rightarrow> (problem, 'w, 'v, 'n) action" where
  "chatEchoes upper net = after (open_on net ChatOpenID (EncodeRoom ''lobby'') None) (\<lambda>call.
     after (chat_lines upper net call [''hello'', ''still here'', ''bye'']) (\<lambda>problem.
       case problem of
         Some text \<Rightarrow> give (Some text)
       | None \<Rightarrow> after (close_on net call) (\<lambda>_. after (next_on net call) (\<lambda>last.
           if o_Kind last \<noteq> OutcomeEnd then give (Some (Outcome_String last)) else give None))))"

text \<open>\<open>time.Now()\<close> on a client, and the loop until \<open>quietUntil\<close>.\<close>

definition client_now :: "('v, 'n) Net \<Rightarrow> ('w, 'v, 'n) Client \<Rightarrow> gotime \<times> ('w, 'v, 'n) Client" where
  "client_now net client = (case read_clock net (cl_session client) of (now, s) \<Rightarrow> (now, client\<lparr>cl_session := s\<rparr>))"

partial_function (option) stay_quiet ::
  "('v, 'n) Net \<Rightarrow> gotime \<Rightarrow> ('w, 'v, 'n) Client \<Rightarrow> ('w, 'v, 'n) Client option" where
  "stay_quiet net quietUntil client =
    (case client_now net client of (now, client) \<Rightarrow>
       if \<not> Before now quietUntil then Some client
       else (case client_wait net (client\<lparr>cl_policy := DefaultWaitPolicy\<rparr>) of (_, waited) \<Rightarrow>
         (case Pump net (waited\<lparr>cl_policy := cl_policy client\<rparr>) of
            None \<Rightarrow> None
          | Some client \<Rightarrow> stay_quiet net quietUntil client)))"

definition quiet_on :: "('v, 'n) Net \<Rightarrow> (unit, 'w, 'v, 'n) action" where
  "quiet_on net client =
    (case client_now net client of (now, client) \<Rightarrow>
       map_option (\<lambda>client. (Returned (), client)) (stay_quiet net (Time_Add now (150 * Millisecond)) client))"

fun next_ticks :: "('v, 'n) Net \<Rightarrow> CallID \<Rightarrow> nat \<Rightarrow> (u32 list, 'w, 'v, 'n) action" where
  "next_ticks net call 0 = give []"
| "next_ticks net call (Suc n) = after (nextTick net call) (\<lambda>tick.
     after (next_ticks net call n) (\<lambda>ticks. give (tick # ticks)))"

definition ticksFollowCredit :: "('v, 'n) Net \<Rightarrow> (problem, 'w, 'v, 'n) action" where
  "ticksFollowCredit net =
    after (open_on net TicksRequestID EncodeTicksRequest (Some (WithInitialCredit 2))) (\<lambda>call.
    after (next_ticks net call 2) (\<lambda>first.
    after (quiet_on net) (\<lambda>_ client.
      if PendingRequestID call (client_core client) = None then
        give (Some ''the stream ended while the allowance was zero'') client
      else
       (after (grant_on net call 3) (\<lambda>_.
        after (next_ticks net call 3) (\<lambda>second.
        after (cancel_on net call) (\<lambda>_.
        after (next_on net call) (\<lambda>cancelled.
          if map_option st_Code (o_Status cancelled) \<noteq> Some CodeCancelled then
            give (Some (''after cancel: '' @ Outcome_String cancelled))
          else if first @ second \<noteq> [1, 2, 3, 4, 5] then
            give (Some (''items '' @ fmt_numbers (first @ second)))
          else give None))))) client)))"

definition ticksExpire :: "('v, 'n) Net \<Rightarrow> (problem, 'w, 'v, 'n) action" where
  "ticksExpire net client =
    (case Client_Call net TicksRequestID EncodeTicksRequest (Some (WithInitialCredit 1))
         (Within (200 * Millisecond)) client of
       None \<Rightarrow> None
     | Some (Inl err, client) \<Rightarrow> give (Some (CallError_Error err)) client
     | Some (Inr call, client) \<Rightarrow>
         after (nextTick net call) (\<lambda>_. after (next_on net call) (expectStatus CodeDeadlineExceeded)) client)"

definition missingIsUnimplemented :: "('v, 'n) Net \<Rightarrow> (problem, 'w, 'v, 'n) action" where
  "missingIsUnimplemented net =
    after (invoke_on net (m_RequestID Missing) []) (expectStatus CodeUnimplemented)"

text \<open>The line of a method, and the one of its description.\<close>

definition method_line :: "string \<Rightarrow> u32 \<Rightarrow> u32 \<Rightarrow> u32 \<Rightarrow> u32 \<Rightarrow> u32 \<Rightarrow> string" where
  "method_line name shape request item reply safety =
    name @ ''/'' @ fmt_d (unat shape) @ ''/'' @ fmt_08X request @ ''/'' @ fmt_08X item @ ''/''
      @ fmt_08X reply @ ''/'' @ fmt_d (unat safety)"

definition listed_methods :: "FRpcMethodInfo list \<Rightarrow> string list" where
  "listed_methods infos = sort (map (\<lambda>info. method_line (FRpcMethodInfo_Name info)
     (FRpcMethodInfo_Shape info) (FRpcMethodInfo_RequestId info) (FRpcMethodInfo_CallerItemId info)
     (FRpcMethodInfo_ReplyId info) (FRpcMethodInfo_RetrySafety info)) infos)"

definition expected_methods :: "string list" where
  "expected_methods = sort (map (\<lambda>m. method_line (m_Name m) (shape_code (m_Shape m)) (m_RequestID m)
     (CallerItemID m) (m_ReplyID m) (safety_code (m_RetrySafety m))) (demo_Methods @ [Idempotent Reflect]))"

definition fmt_016X :: "u64 \<Rightarrow> string" where
  "fmt_016X n = fmt_08X (ucast (drop_bit 32 n)) @ fmt_08X (ucast n)"

definition reflectionLists :: "(bytes \<Rightarrow> string + string) \<Rightarrow> ('v, 'n) Net \<Rightarrow> (problem, 'w, 'v, 'n) action" where
  "reflectionLists unmarshal net = after (invoke_on net ReflectRequestID EncodeReflectRequest) (\<lambda>out.
     if o_Kind out \<noteq> OutcomeResponse then give (Some (Outcome_String out))
     else after (convert (DecodeReflectResponse (o_Body out))) (\<lambda>answer.
       let listed = listed_methods (FRpcReflectResponse_Methods answer) in
       if expected_methods \<noteq> listed then give (Some (''listed '' @ joined '' '' listed))
       else (case unmarshal (FRpcReflectResponse_SchemaJson answer) of
           Inl err \<Rightarrow> give (Some err)
         | Inr fingerprint \<Rightarrow>
             if fingerprint \<noteq> ''0x'' @ fmt_016X FomoxaSchemaFingerprint then
               give (Some (''schema fingerprint '' @ fingerprint))
             else give None)))"

subsection \<open>The run of the checks\<close>

definition run_check ::
  "(problem, 'w, 'v, 'n) action \<Rightarrow> ('w, 'v, 'n) Client \<Rightarrow> (problem \<times> ('w, 'v, 'n) Client) option" where
  "run_check body client =
    (case body client of
       None \<Rightarrow> None
     | Some (Panicked p, client) \<Rightarrow> Some (Some (fmt_recovered p), client)
     | Some (Returned problem, client) \<Rightarrow> Some (problem, client))"

definition checks ::
  "(string \<Rightarrow> string) \<Rightarrow> (bytes \<Rightarrow> string + string) \<Rightarrow> ('v, 'n) Net
    \<Rightarrow> (string \<times> (problem, 'w, 'v, 'n) action) list" where
  "checks upper unmarshal net =
    [(''unary Echo.Say'', sayUppercases net),
     (''unary error Echo.Say empty'', sayRejectsEmpty net),
     (''server stream Echo.Count'', countStreams net),
     (''server stream error Echo.Count 101'', countRejectsLarge net),
     (''client stream Blob.Upload'', uploadSummarises net),
     (''client stream error Blob.Upload empty chunk'', uploadRejectsEmptyChunk net),
     (''bidi Room.Chat'', chatEchoes upper net),
     (''credit Clock.Ticks'', ticksFollowCredit net),
     (''deadline Clock.Ticks'', ticksExpire net),
     (''unimplemented Echo.Missing'', missingIsUnimplemented net),
     (''reflection FRpc.Reflect'', reflectionLists unmarshal net)]"

text \<open>The loop over the checks, with the failures and the lines of the log so far.\<close>

fun drive_checks ::
  "(string \<times> (problem, 'w, 'v, 'n) action) list \<Rightarrow> int \<Rightarrow> string list \<Rightarrow> ('w, 'v, 'n) Client
    \<Rightarrow> ((int \<times> string list) \<times> ('w, 'v, 'n) Client) option" where
  "drive_checks [] failures log client = Some ((failures, log), client)"
| "drive_checks ((name, body) # each) failures log client =
    (case run_check body client of
       None \<Rightarrow> None
     | Some (Some problem, client) \<Rightarrow>
         drive_checks each (failures + 1) (log @ [''FAIL '' @ name @ '': '' @ problem]) client
     | Some (None, client) \<Rightarrow> drive_checks each failures (log @ [''ok   '' @ name]) client)"

definition Drive ::
  "(string \<Rightarrow> string) \<Rightarrow> (bytes \<Rightarrow> string + string) \<Rightarrow> ('v, 'n) Net \<Rightarrow> ('w, 'v, 'n) Client
    \<Rightarrow> ((int \<times> string list) \<times> ('w, 'v, 'n) Client) option" where
  "Drive upper unmarshal net client = drive_checks (checks upper unmarshal net) 0 [] client"

end
