(* ===== verification/CheckRuns.thy ===== *)
theory CheckRuns
  imports Checks ClientRuns CoreCall NetExamples
begin

text \<open>
  The checks of the demo end.  Every operation of a client \<open>evolves\<close> it: the invariant and the
  interceptors of its core stay, its clock does not go back, and a call that is pending was
  pending before with the same deadline.  So each step of a check, made on a client whose call
  has a deadline (\<open>awaits\<close>), returns with such a client, and \<open>Drive\<close> returns whatever the server does.
\<close>

subsection \<open>How a client evolves\<close>

definition evolves :: "('n \<Rightarrow> gotime) \<Rightarrow> ('w, 'v, 'n) Client \<Rightarrow> ('w, 'v, 'n) Client \<Rightarrow> bool" where
  "evolves \<tau> c c' \<longleftrightarrow> (core_inv (client_core c) \<longrightarrow> core_inv (client_core c'))
    \<and> c_chain (client_core c') = c_chain (client_core c) \<and> client_clock \<tau> c \<le> client_clock \<tau> c'
    \<and> (\<forall>k r'. fmlookup (c_pending (client_core c')) k = Some r' \<longrightarrow>
         (\<exists>r. fmlookup (c_pending (client_core c)) k = Some r \<and> w_deadline r' = w_deadline r))"

interpretation evolving: preorder_steps "evolves \<tau>" for \<tau> :: "'n \<Rightarrow> gotime"
proof unfold_locales
  fix s t u :: "('w, 'v, 'n) Client"
  show "evolves \<tau> s s" by (simp add: evolves_def)
  assume st: "evolves \<tau> s t" and tu: "evolves \<tau> t u"
  have "\<exists>r. fmlookup (c_pending (client_core s)) k = Some r \<and> w_deadline r' = w_deadline r"
    if "fmlookup (c_pending (client_core u)) k = Some r'" for k r'
  proof -
    obtain r where "fmlookup (c_pending (client_core t)) k = Some r" "w_deadline r' = w_deadline r"
      using tu \<open>fmlookup (c_pending (client_core u)) k = Some r'\<close> unfolding evolves_def by blast
    with st show ?thesis unfolding evolves_def by fastforce
  qed
  with st tu show "evolves \<tau> s u" by (simp add: evolves_def)
qed

lemma evolves_deadline: "evolves \<tau> c c' \<Longrightarrow> before_deadline D k c \<Longrightarrow> before_deadline D k c'"
  unfolding evolves_def before_deadline_def by metis

lemma evolves_backlog: "evolves \<tau> c (c\<lparr>cl_backlog := b\<rparr>)"
  by (simp add: evolves_def)

text \<open>A step of the core on its own: typed, and safe for one call.\<close>

lemma evolves_core:
  assumes "typed_step (client_core c) core" and "safe_step k (client_core c) core"
  shows "evolves \<tau> c (on_session (with_core (\<lambda>_. core)) c)"
  using assms
  by (fastforce simp: evolves_def on_session_def with_core_def last_reading_def safe_step_def
      same_static_def typed_step_def keeps_fixed_def fixed_part_def)

lemma chain_SessionEnd: "c_chain (OnSessionEnd c) = c_chain c"
proof (cases "c_finished c")
  case False
  have s: "c_chain (fold settle_unavailable ks d) = c_chain d" for ks and d :: "'a Core"
  proof (induction ks arbitrary: d)
    case (Cons k ks)
    have "c_chain (settle_unavailable k d) = c_chain d"
      using safe_static [OF safe_settlePending [of "failed k Unavailable" k d]]
      by (simp add: settle_unavailable_def same_static_def failed_def Outcome_Terminates_def)
    with Cons show ?case by simp
  qed simp
  have a: "c_chain (fold (abandon_inflight m) ks d) = c_chain d" for m ks and d :: "'a Core"
    by (induction ks arbitrary: d) (auto simp: abandon_inflight_def run_outbound_def run_cancel_def
        split: option.splits)
  from False show ?thesis by (simp add: OnSessionEnd_def Let_def s a on_outbox_def)
qed (simp add: OnSessionEnd_def)

lemma chain_session_event: "c_chain (s_core (session_event now event s)) = c_chain (s_core s)"
proof (cases event)
  case (EventMessage m p)
  obtain mine c where o: "OnMessage m p now (s_core s) = (mine, c)" by fastforce
  from safe_static [OF safe_OnMessage [OF o]] o EventMessage show ?thesis
    by (simp add: same_static_def Let_def)
qed (simp_all add: with_core_def chain_SessionEnd OnReady_def)

lemma chain_Core_Drain: "Core_Drain sink c n = Some (c', n') \<Longrightarrow> c_chain c' = c_chain c"
  by (auto simp: Core_Drain_def split: option.splits)

lemma chain_Session_Tick:
  assumes "Session_Tick net now s = Some s'"
  shows "c_chain (s_core s') = c_chain (s_core s)"
proof (rule Session_TickE [OF assms])
  fix events link c link'
  let ?u = "fold (session_event now) events (s\<lparr>s_link := link\<rparr>)"
  assume d: "Core_Drain (session_sink net) (Tick now (s_core ?u)) link = Some (c, link')" "s_core s' = c"
  have "c_chain (s_core s') = c_chain (Tick now (s_core ?u))" using chain_Core_Drain [OF d(1)] d(2) by simp
  also have "\<dots> = c_chain (s_core ?u)" using static_Tick [of "s_core ?u" now] by (simp add: same_static_def)
  also have "c_chain (s_core (fold (session_event now) es u)) = c_chain (s_core u)"
    for es and u :: "('a, 'b, 'c) Session"
    by (induction es arbitrary: u) (simp_all add: chain_session_event)
  finally show ?thesis by simp
qed

lemma evolves_Pump:
  assumes "clock_advances net \<tau>" and "Pump net c = Some c'"
  shows "evolves \<tau> c c'"
proof -
  have "c_chain (client_core c') = c_chain (client_core c)"
  proof -
    obtain now s where k: "read_clock net (cl_session c) = (now, s)" by fastforce
    then obtain t where "Session_Tick net now s = Some t" "c_chain (client_core c') = c_chain (s_core t)"
      using assms(2) by (auto simp: Pump_def Session_TakeOutcomes_def TakeOutcomes_def split: option.splits)
    with chain_Session_Tick [OF this(1)] read_clock_later [OF assms(1) k] show ?thesis by simp
  qed
  moreover have "client_clock \<tau> c \<le> client_clock \<tau> c'" by (rule PumpE [OF assms]) simp
  moreover have "core_inv (client_core c) \<Longrightarrow> core_inv (client_core c')" by (rule PumpE [OF assms])
  moreover have "\<exists>r. fmlookup (c_pending (client_core c)) k = Some r \<and> w_deadline r' = w_deadline r"
    if "fmlookup (c_pending (client_core c')) k = Some r'" for k r'
    by (rule PumpE [OF assms]) (use that in fastforce)
  ultimately show ?thesis by (simp add: evolves_def)
qed

lemma evolves_client_wait:
  "clock_advances net \<tau> \<Longrightarrow> client_wait net c = (r, c') \<Longrightarrow> evolves \<tau> c c'"
  using client_wait_later [of net \<tau> c r c'] by (simp add: evolves_def)

lemma evolves_client_now:
  "clock_advances net \<tau> \<Longrightarrow> client_now net c = (now, c') \<Longrightarrow>
     evolves \<tau> c c' \<and> client_clock \<tau> c < now \<and> now \<le> client_clock \<tau> c' \<and> cl_backlog c' = cl_backlog c"
  using read_clock_later [of net \<tau> "cl_session c"]
  by (auto simp: client_now_def evolves_def split: prod.splits)

subsection \<open>The loops of a client\<close>

lemma evolves_Next:
  fixes \<tau> :: "'n \<Rightarrow> gotime" and net :: "('v, 'n) Net" and c :: "('w, 'v, 'n) Client"
  assumes "clock_advances net \<tau>" and "Next net k c = Some (r, c')"
  shows "evolves \<tau> c c'"
proof -
  have "clock_advances net \<tau> \<longrightarrow> evolves \<tau> c (snd x)" if "Next net k c = Some x" for x
    using that
  proof (rule Next.raw_induct [rotated])
    fix f :: "('v, 'n) Net \<Rightarrow> CallID \<Rightarrow> ('w, 'v, 'n) Client \<Rightarrow> ((ClientError + Outcome) \<times> ('w, 'v, 'n) Client) option"
    fix net k c x
    assume IH: "\<And>net k c x. f net k c = Some x \<Longrightarrow> clock_advances net \<tau> \<longrightarrow> evolves \<tau> c (snd x)"
      and eq: "(case take_outcome k (cl_backlog c) of
       Some (outcome, rest) \<Rightarrow> Some (Inr outcome, c\<lparr>cl_backlog := rest\<rparr>)
     | None \<Rightarrow>
         if PendingRequestID k (client_core c) = None then Some (Inl (ErrNoFurtherOutcome k), c)
         else (case client_wait net c of
             (Inl err, c) \<Rightarrow> Some (Inl (ErrWait err), c)
           | (Inr _, c) \<Rightarrow> (case Pump net c of None \<Rightarrow> None | Some c \<Rightarrow> f net k c))) = Some x"
    show "clock_advances net \<tau> \<longrightarrow> evolves \<tau> c (snd x)"
    proof
      assume t: "clock_advances net \<tau>"
      have step: "evolves \<tau> c (snd x)" if "client_wait net c = (Inr ready, d)" "Pump net d = Some e" "f net k e = Some x"
        for ready d e
        using IH [OF that(3)] t evolves_client_wait [OF t that(1)] evolves_Pump [OF t that(2)]
        by (blast intro: evolving.step_trans)
      from eq show "evolves \<tau> c (snd x)"
        by (auto simp: evolving.step_refl evolves_backlog split: option.splits if_splits prod.splits sum.splits
            dest: evolves_client_wait [OF t] step)
    qed
  qed
  with assms show ?thesis by fastforce
qed

lemma evolves_Collect:
  fixes \<tau> :: "'n \<Rightarrow> gotime" and net :: "('v, 'n) Net" and c :: "('w, 'v, 'n) Client"
  assumes "clock_advances net \<tau>" and "Collect net k outcomes c = Some (r, c')"
  shows "evolves \<tau> c c'"
proof -
  have "clock_advances net \<tau> \<longrightarrow> evolves \<tau> c (snd x)" if "Collect net k outcomes c = Some x" for x
    using that
  proof (rule Collect.raw_induct [rotated])
    fix f :: "('v, 'n) Net \<Rightarrow> CallID \<Rightarrow> Outcome list \<Rightarrow> ('w, 'v, 'n) Client
      \<Rightarrow> ((Outcome list \<times> ClientError option) \<times> ('w, 'v, 'n) Client) option"
    fix net k outcomes c x
    assume IH: "\<And>net k outcomes c x. f net k outcomes c = Some x \<Longrightarrow> clock_advances net \<tau> \<longrightarrow> evolves \<tau> c (snd x)"
      and eq: "(case Next net k c of
       None \<Rightarrow> None
     | Some (Inl err, c) \<Rightarrow> Some ((outcomes, Some err), c)
     | Some (Inr outcome, c) \<Rightarrow>
         if Outcome_Terminates outcome then Some ((outcomes @ [outcome], None), c)
         else f net k (outcomes @ [outcome]) c) = Some x"
    show "clock_advances net \<tau> \<longrightarrow> evolves \<tau> c (snd x)"
    proof
      assume t: "clock_advances net \<tau>"
      have step: "evolves \<tau> c (snd x)" if "Next net k c = Some (r, d)" "f net k os d = Some x" for r d os
        using IH [OF that(2)] t evolves_Next [OF t that(1)] by (blast intro: evolving.step_trans)
      from eq show "evolves \<tau> c (snd x)"
        by (auto split: option.splits if_splits prod.splits sum.splits dest: evolves_Next [OF t] step)
    qed
  qed
  with assms show ?thesis by fastforce
qed

lemma evolves_after_core:
  "clock_advances net \<tau> \<Longrightarrow> typed_step (client_core c) core \<Longrightarrow> safe_step k (client_core c) core
    \<Longrightarrow> Pump net (on_session (with_core (\<lambda>_. core)) c) = Some c' \<Longrightarrow> evolves \<tau> c c'"
  using evolving.step_trans [OF evolves_core evolves_Pump] by blast

lemma evolves_SendItem:
  fixes \<tau> :: "'n \<Rightarrow> gotime" and net :: "('v, 'n) Net" and c :: "('w, 'v, 'n) Client"
  assumes "clock_advances net \<tau>" and "Client_SendItem net k body c = Some (r, c')"
  shows "evolves \<tau> c c'"
proof -
  have "clock_advances net \<tau> \<longrightarrow> evolves \<tau> c (snd x)" if "Client_SendItem net k body c = Some x" for x
    using that
  proof (rule Client_SendItem.raw_induct [rotated])
    fix f :: "('v, 'n) Net \<Rightarrow> CallID \<Rightarrow> bytes \<Rightarrow> ('w, 'v, 'n) Client
      \<Rightarrow> (SendError option \<times> ('w, 'v, 'n) Client) option"
    fix net k body c x
    assume IH: "\<And>net k body c x. f net k body c = Some x \<Longrightarrow> clock_advances net \<tau> \<longrightarrow> evolves \<tau> c (snd x)"
      and eq: "(case SendItem k body (client_core c) of (err, core) \<Rightarrow>
       let c = on_session (with_core (\<lambda>_. core)) c in
       if err \<noteq> Some ErrNoCredit \<and> err \<noteq> Some ErrCongested then
         map_option (\<lambda>c. (map_option SendFailed err, c)) (Pump net c)
       else if Session_Closed net (cl_session c) then Some (Some (SendFailed ErrNotReady), c)
       else (case client_wait net c of
           (Inl waitErr, c) \<Rightarrow> Some (Some (SendWait waitErr), c)
         | (Inr _, c) \<Rightarrow> (case Pump net c of None \<Rightarrow> None | Some c \<Rightarrow> f net k body c))) = Some x"
    show "clock_advances net \<tau> \<longrightarrow> evolves \<tau> c (snd x)"
    proof
      assume t: "clock_advances net \<tau>"
      obtain err core where s: "SendItem k body (client_core c) = (err, core)" by fastforce
      let ?c = "on_session (with_core (\<lambda>_. core)) c"
      have e: "evolves \<tau> c ?c" by (rule evolves_core [OF typed_SendItem [OF s] safe_SendItem [OF s]])
      note et = evolving.step_trans [OF e]
      have step: "evolves \<tau> c (snd x)" if "client_wait net ?c = (Inr ready, d)" "Pump net d = Some u" "f net k body u = Some x"
        for ready d u
        using IH [OF that(3)] t evolves_client_wait [OF t that(1)] evolves_Pump [OF t that(2)] e
        by (blast intro: evolving.step_trans)
      from eq s show "evolves \<tau> c (snd x)"
        by (auto simp: e Let_def split: option.splits if_splits prod.splits sum.splits
            dest: et [OF evolves_client_wait [OF t]] et [OF evolves_Pump [OF t]] step)
    qed
  qed
  with assms show ?thesis by fastforce
qed

subsection \<open>Calls with a deadline\<close>

lemma Core_Call_deadline:
  assumes "Core_Call requestID body ctx options now c = (Inr k, c')" and "c_chain c = []"
  shows "\<exists>r. c_pending c' = fmupd k r (c_pending c) \<and> w_deadline r = deadline_of (call_ctx ctx options) now"
proof -
  obtain m ids where s: "send_request requestID body m k (call_ctx ctx options) now (c\<lparr>c_ids := ids\<rparr>) = (Inr k, c')"
    using assms(1)
    by (auto simp: Core_Call_def split: if_splits option.splits prod.splits)
      (metis send_request_id)
  have x: "cc_Ctx (newCallContext k m now ctx' i side) = ctx'" for ctx' i side
    by (simp add: newCallContext_def Let_def split: option.splits)
  show ?thesis using s assms(2)
    by (auto simp: send_request_def queue_request_def Let_def x put_pending_def no_links
        split: if_splits prod.splits bool.splits)
qed

lemma deadline_of_call:
  assumes "0 < Deadline options" and "0 < now"
  shows "0 < deadline_of (call_ctx ctx options) now"
proof -
  have "millisOf b \<noteq> 0" for b
  proof
    let ?n = "min (max (Milliseconds b) 1) max_u32"
    assume "millisOf b = 0"
    then have "2 ^ 32 dvd ?n" by (simp add: millisOf_def word_of_int_eq_0_iff)
    moreover have "0 < ?n" "?n < 2 ^ 32" by (simp_all add: max_u32_def)
    ultimately show False using zdvd_not_zless by blast
  qed
  then have "Ctx_HasDeadline (call_ctx ctx options)"
    using assms(1) by (auto simp: call_ctx_def Let_def Ctx_HasDeadline_def)
  with assms(2) show ?thesis by (simp add: deadline_of_def add_pos_nonneg)
qed

definition running :: "('n \<Rightarrow> gotime) \<Rightarrow> ('w, 'v, 'n) Client \<Rightarrow> bool" where
  "running \<tau> c \<longleftrightarrow> core_inv (client_core c) \<and> c_chain (client_core c) = [] \<and> 0 \<le> client_clock \<tau> c"

definition awaits :: "('n \<Rightarrow> gotime) \<Rightarrow> CallID \<Rightarrow> ('w, 'v, 'n) Client \<Rightarrow> bool" where
  "awaits \<tau> k c \<longleftrightarrow> running \<tau> c \<and> (\<exists>D. D \<noteq> 0 \<and> before_deadline D k c)"

lemma running_evolves: "evolves \<tau> c c' \<Longrightarrow> running \<tau> c \<Longrightarrow> running \<tau> c'"
  by (simp add: evolves_def running_def)

lemma awaits_evolves: "evolves \<tau> c c' \<Longrightarrow> awaits \<tau> k c \<Longrightarrow> awaits \<tau> k c'"
  using running_evolves evolves_deadline unfolding awaits_def by metis

lemma awaits_running: "awaits \<tau> k c \<Longrightarrow> running \<tau> c"
  by (simp add: awaits_def)

text \<open>A call with a deadline is made or refused; a call that is made has its deadline.\<close>

lemma Client_Call_starts:
  assumes "clock_advances net \<tau>" and "running \<tau> c" and "0 < Deadline options"
  shows "\<exists>r c'. Client_Call net requestID body ctx options c = Some (r, c') \<and> running \<tau> c'
    \<and> (\<forall>k. r = Inr k \<longrightarrow> awaits \<tau> k c')"
proof -
  obtain now s where k: "read_clock net (cl_session c) = (now, s)" by fastforce
  note now = read_clock_later [OF assms(1) k]
  obtain r core where call: "Core_Call requestID body ctx options now (s_core s) = (r, core)" by fastforce
  let ?d = "c\<lparr>cl_session := s\<lparr>s_core := core\<rparr>\<rparr>"
  have i: "core_inv core" and ch: "c_chain core = []"
    using Core_Call_result [OF call] core_inv_Call [OF call] assms(2) now
    by (auto simp: running_def call_result_def)
  have d: "running \<tau> ?d" using i ch assms(2) now by (simp add: running_def last_reading_def)
  show ?thesis
  proof (cases r)
    case (Inl err)
    with call k d show ?thesis by (simp add: Client_Call_def Session_Call_def)
  next
    case (Inr id)
    let ?D = "deadline_of (call_ctx ctx options) now"
    have "0 < ?D" using deadline_of_call [OF assms(3)] now assms(2) by (simp add: running_def)
    moreover have "before_deadline ?D id ?d"
      using Core_Call_deadline [OF call [unfolded Inr]] assms(2) now i
      by (auto simp: before_deadline_def running_def)
    ultimately have a: "awaits \<tau> id ?d" unfolding awaits_def using d by (intro conjI exI [of _ ?D]) auto
    obtain e where e: "Pump net ?d = Some e" by (rule Pump_returns [of ?d]) (use i in simp)
    with call k Inr have "Client_Call net requestID body ctx options c = Some (Inr id, e)"
      by (simp add: Client_Call_def Session_Call_def)
    with awaits_evolves [OF evolves_Pump [OF assms(1) e] a] Inr show ?thesis
      by (auto dest: awaits_running)
  qed
qed

subsection \<open>What a computation returns\<close>

text \<open>Total correctness of a computation: it returns from every client that satisfies \<open>P\<close>, with a value
  and a client related by \<open>Q\<close> or with a panic and a client that is still running.\<close>

definition returns ::
  "('n \<Rightarrow> gotime) \<Rightarrow> (('w, 'v, 'n) Client \<Rightarrow> bool) \<Rightarrow> ('a, 'w, 'v, 'n) action
    \<Rightarrow> ('a \<Rightarrow> ('w, 'v, 'n) Client \<Rightarrow> bool) \<Rightarrow> bool" where
  "returns \<tau> P act Q \<longleftrightarrow> (\<forall>c. P c \<longrightarrow> (\<exists>r c'. act c = Some (r, c')
     \<and> (case r of Returned x \<Rightarrow> Q x c' | Panicked _ \<Rightarrow> running \<tau> c')))"

named_theorems returns_intros "computations that return"

lemma returnsI:
  "(\<And>c. P c \<Longrightarrow> \<exists>r c'. act c = Some (r, c') \<and> (case r of Returned x \<Rightarrow> Q x c' | Panicked _ \<Rightarrow> running \<tau> c'))
    \<Longrightarrow> returns \<tau> P act Q"
  by (simp add: returns_def)

lemma returnsE:
  assumes "returns \<tau> P act Q" and "P c"
  obtains x c' where "act c = Some (Returned x, c')" and "Q x c'"
  | p c' where "act c = Some (Panicked p, c')" and "running \<tau> c'"
proof -
  obtain r c' where a: "act c = Some (r, c')" "case r of Returned x \<Rightarrow> Q x c' | Panicked _ \<Rightarrow> running \<tau> c'"
    using assms unfolding returns_def by blast
  show ?thesis by (cases r) (use a that in auto)
qed

lemma returns_weaken:
  assumes "returns \<tau> P act Q" and "\<And>c. P' c \<Longrightarrow> P c" and "\<And>x c. Q x c \<Longrightarrow> Q' x c"
  shows "returns \<tau> P' act Q'"
proof (rule returnsI)
  fix c assume "P' c"
  from returnsE [OF assms(1) assms(2) [OF this]]
  show "\<exists>r c'. act c = Some (r, c') \<and> (case r of Returned x \<Rightarrow> Q' x c' | Panicked _ \<Rightarrow> running \<tau> c')"
    by cases (simp_all add: assms(3))
qed

lemma returns_give [returns_intros]: "(\<And>c. P c \<Longrightarrow> Q x c) \<Longrightarrow> returns \<tau> P (give x) Q"
  by (simp add: returns_def give_def)

lemma returns_raise [returns_intros]: "(\<And>c. P c \<Longrightarrow> running \<tau> c) \<Longrightarrow> returns \<tau> P (raise p) Q"
  by (simp add: returns_def raise_def)

lemma returns_after [returns_intros]:
  assumes "returns \<tau> P act Q" and "\<And>x. returns \<tau> (Q x) (f x) S"
  shows "returns \<tau> P (after act f) S"
proof (rule returnsI)
  fix c assume "P c"
  with assms(1) show "\<exists>r c'. after act f c = Some (r, c')
    \<and> (case r of Returned x \<Rightarrow> S x c' | Panicked _ \<Rightarrow> running \<tau> c')"
  proof (rule returnsE)
    fix x c' assume "act c = Some (Returned x, c')" and "Q x c'"
    with assms(2) [of x] show ?thesis unfolding returns_def by (simp add: after_def)
  qed (simp add: after_def)
qed

lemma returns_convert [returns_intros]:
  "(\<And>c. P c \<Longrightarrow> running \<tau> c) \<Longrightarrow> returns \<tau> P (convert a) (\<lambda>_. P)"
  by (cases a) (auto intro: returns_give returns_raise)

lemma returns_if [returns_intros]:
  "(b \<Longrightarrow> returns \<tau> P s Q) \<Longrightarrow> (\<not> b \<Longrightarrow> returns \<tau> P t Q) \<Longrightarrow> returns \<tau> P (if b then s else t) Q"
  by simp

lemma returns_case_option [returns_intros]:
  "returns \<tau> P s Q \<Longrightarrow> (\<And>x. returns \<tau> P (t x) Q) \<Longrightarrow> returns \<tau> P (case v of None \<Rightarrow> s | Some x \<Rightarrow> t x) Q"
  by (cases v) simp_all

subsection \<open>The steps of a check return\<close>

lemma open_on_returns [returns_intros]:
  fixes \<tau> :: "'n \<Rightarrow> gotime" and net :: "('v, 'n) Net"
  assumes "clock_advances net \<tau>"
  shows "returns \<tau> (running \<tau>) (open_on net requestID body ctx) (awaits \<tau>)"
proof (rule returnsI)
  fix c :: "('w, 'v, 'n) Client" assume "running \<tau> c"
  moreover have "0 < Deadline DefaultCallOptions" by (simp add: DefaultCallOptions_def)
  ultimately obtain r c' where "Client_Call net requestID body ctx DefaultCallOptions c = Some (r, c')"
    "running \<tau> c'" "\<forall>k. r = Inr k \<longrightarrow> awaits \<tau> k c'"
    using Client_Call_starts [OF assms] by blast
  then show "\<exists>r c'. open_on net requestID body ctx c = Some (r, c')
    \<and> (case r of Returned k \<Rightarrow> awaits \<tau> k c' | Panicked _ \<Rightarrow> running \<tau> c')"
    by (cases r) (auto simp: open_on_def raise_def give_def)
qed

text \<open>A call of the client that returns and only evolves it.\<close>

lemma returns_op:
  assumes "\<And>c. P c \<Longrightarrow> running \<tau> c \<and> (\<exists>x c'. act c = Some (Returned x, c'))"
    and "\<And>c x c'. P c \<Longrightarrow> act c = Some (Returned x, c') \<Longrightarrow> evolves \<tau> c c'"
    and "\<And>c c'. P c \<Longrightarrow> evolves \<tau> c c' \<Longrightarrow> P c'"
  shows "returns \<tau> P act (\<lambda>_. P)"
proof (rule returnsI)
  fix c assume p: "P c"
  with assms(1) obtain x c' where "act c = Some (Returned x, c')" by blast
  with assms(2,3) p show "\<exists>r c'. act c = Some (r, c') \<and> (case r of Returned _ \<Rightarrow> P c' | Panicked _ \<Rightarrow> running \<tau> c')"
    by fastforce
qed

lemma pumped_returns:
  assumes "clock_advances net \<tau>" and "running \<tau> c"
    and "typed_step (client_core c) core" and "safe_step k (client_core c) core"
  shows "\<exists>d. Pump net (on_session (with_core (\<lambda>_. core)) c) = Some d \<and> evolves \<tau> c d"
proof -
  let ?c = "on_session (with_core (\<lambda>_. core)) c"
  have "evolves \<tau> c ?c" using evolves_core [OF assms(3,4)] .
  with assms(2) have "core_inv (client_core ?c)" by (simp add: evolves_def running_def)
  then obtain d where "Pump net ?c = Some d" by (rule Pump_returns)
  with evolves_after_core [OF assms(1,3,4)] show ?thesis by blast
qed

lemma close_on_returns [returns_intros]:
  fixes \<tau> :: "'n \<Rightarrow> gotime" and net :: "('v, 'n) Net"
  assumes "clock_advances net \<tau>"
  shows "returns \<tau> (awaits \<tau> k) (close_on net j) (\<lambda>_. awaits \<tau> k)"
proof (rule returns_op)
  fix c :: "('w, 'v, 'n) Client" assume a: "awaits \<tau> k c"
  obtain err core where s: "CloseSend j (client_core c) = (err, core)" by fastforce
  from pumped_returns [OF assms awaits_running [OF a] typed_CloseSend [OF s] safe_CloseSend [OF s]]
  obtain d where d: "Pump net (on_session (with_core (\<lambda>_. core)) c) = Some d" "evolves \<tau> c d" by blast
  have e: "close_on net j c = Some (Returned err, d)"
    using s d by (simp add: close_on_def Client_CloseSend_def)
  show "running \<tau> c \<and> (\<exists>x c'. close_on net j c = Some (Returned x, c'))"
    using e awaits_running [OF a] by simp
  show "evolves \<tau> c c'" if "close_on net j c = Some (Returned x, c')" for x c'
    using that e d by simp
qed (rule awaits_evolves)

lemma grant_on_returns [returns_intros]:
  fixes \<tau> :: "'n \<Rightarrow> gotime" and net :: "('v, 'n) Net"
  assumes "clock_advances net \<tau>"
  shows "returns \<tau> (awaits \<tau> k) (grant_on net j items) (\<lambda>_. awaits \<tau> k)"
proof (rule returns_op)
  fix c :: "('w, 'v, 'n) Client" assume a: "awaits \<tau> k c"
  obtain err core where s: "Core_Grant j items (client_core c) = (err, core)" by fastforce
  from pumped_returns [OF assms awaits_running [OF a] typed_Core_Grant [OF s] safe_Core_Grant [OF s]]
  obtain d where d: "Pump net (on_session (with_core (\<lambda>_. core)) c) = Some d" "evolves \<tau> c d" by blast
  have e: "grant_on net j items c = Some (Returned err, d)"
    using s d by (simp add: grant_on_def Client_Grant_def)
  show "running \<tau> c \<and> (\<exists>x c'. grant_on net j items c = Some (Returned x, c'))"
    using e awaits_running [OF a] by simp
  show "evolves \<tau> c c'" if "grant_on net j items c = Some (Returned x, c')" for x c'
    using that e d by simp
qed (rule awaits_evolves)

lemma cancel_on_returns [returns_intros]:
  fixes \<tau> :: "'n \<Rightarrow> gotime" and net :: "('v, 'n) Net"
  assumes "clock_advances net \<tau>"
  shows "returns \<tau> (awaits \<tau> k) (cancel_on net j) (\<lambda>_. awaits \<tau> k)"
proof (rule returns_op)
  fix c :: "('w, 'v, 'n) Client" assume a: "awaits \<tau> k c"
  let ?core = "Core_Cancel j (client_core c)"
  have t: "typed_step (client_core c) ?core"
    by (simp add: Core_Cancel_def typed_abandon typing.step_refl)
  from pumped_returns [OF assms awaits_running [OF a] t safe_Core_Cancel]
  obtain d where d: "Pump net (on_session (with_core (\<lambda>_. ?core)) c) = Some d" "evolves \<tau> c d" by blast
  have e: "cancel_on net j c = Some (Returned (), d)"
    using d by (simp add: cancel_on_def Client_Cancel_def on_session_def with_core_def)
  show "running \<tau> c \<and> (\<exists>x c'. cancel_on net j c = Some (Returned x, c'))"
    using e awaits_running [OF a] by simp
  show "evolves \<tau> c c'" if "cancel_on net j c = Some (Returned x, c')" for x c'
    using that e d by simp
qed (rule awaits_evolves)

lemma send_on_returns [returns_intros]:
  fixes \<tau> :: "'n \<Rightarrow> gotime" and net :: "('v, 'n) Net"
  assumes "clock_advances net \<tau>"
  shows "returns \<tau> (awaits \<tau> k) (send_on net k body) (\<lambda>_. awaits \<tau> k)"
proof (rule returns_op)
  fix c :: "('w, 'v, 'n) Client" assume a: "awaits \<tau> k c"
  then obtain D where "before_deadline D k c" "D \<noteq> 0" unfolding awaits_def by blast
  from Client_SendItem_returns [OF assms this] obtain err d where
    d: "Client_SendItem net k body c = Some (err, d)" by blast
  then show "running \<tau> c \<and> (\<exists>x c'. send_on net k body c = Some (Returned x, c'))"
    using awaits_running [OF a] by (simp add: send_on_def)
  show "evolves \<tau> c c'" if "send_on net k body c = Some (Returned x, c')" for x c'
    using that d evolves_SendItem [OF assms d] by (simp add: send_on_def)
qed (rule awaits_evolves)

lemma Next_awaits:
  fixes \<tau> :: "'n \<Rightarrow> gotime" and net :: "('v, 'n) Net" and c :: "('w, 'v, 'n) Client"
  assumes "clock_advances net \<tau>" and "awaits \<tau> k c"
  shows "\<exists>r c'. Next net k c = Some (r, c') \<and> awaits \<tau> k c'"
proof -
  obtain D where "before_deadline D k c" "D \<noteq> 0" using assms(2) unfolding awaits_def by blast
  from Next_returns [OF assms(1) this] obtain r c' where n: "Next net k c = Some (r, c')" by blast
  with awaits_evolves [OF evolves_Next [OF assms(1) n] assms(2)] show ?thesis by blast
qed

lemma next_on_returns [returns_intros]:
  fixes \<tau> :: "'n \<Rightarrow> gotime" and net :: "('v, 'n) Net"
  assumes "clock_advances net \<tau>"
  shows "returns \<tau> (awaits \<tau> k) (next_on net k) (\<lambda>_. awaits \<tau> k)"
proof (rule returnsI)
  fix c :: "('w, 'v, 'n) Client" assume "awaits \<tau> k c"
  with Next_awaits [OF assms] obtain r c' where "Next net k c = Some (r, c')" "awaits \<tau> k c'" by blast
  then show "\<exists>r c'. next_on net k c = Some (r, c') \<and> (case r of Returned x \<Rightarrow> awaits \<tau> k c' | Panicked _ \<Rightarrow> running \<tau> c')"
    by (cases r) (auto simp: next_on_def raise_def give_def dest: awaits_running)
qed

lemma collect_returns_then [returns_intros]:
  fixes \<tau> :: "'n \<Rightarrow> gotime" and net :: "('v, 'n) Net"
    and f :: "Outcome list \<Rightarrow> ('b, 'w, 'v, 'n) action"
  assumes "clock_advances net \<tau>" and "\<And>os. returns \<tau> (awaits \<tau> k) (f os) Q"
    and "\<And>err. returns \<tau> (awaits \<tau> k) (g err) Q"
  shows "returns \<tau> (awaits \<tau> k) (\<lambda>c. case Collect net k [] c of
       None \<Rightarrow> None
     | Some ((outcomes, Some err), c) \<Rightarrow> g err c
     | Some ((outcomes, None), c) \<Rightarrow> f outcomes c) Q"
proof (rule returnsI)
  fix c :: "('w, 'v, 'n) Client" assume a: "awaits \<tau> k c"
  then obtain D where "before_deadline D k c" "D \<noteq> 0" unfolding awaits_def by blast
  from Collect_returns [OF assms(1) this, of "[]"] obtain os e d where
    d: "Collect net k [] c = Some ((os, e), d)" by auto
  from awaits_evolves [OF evolves_Collect [OF assms(1) d] a] have "awaits \<tau> k d" .
  with assms(2) [of os] assms(3) [of "the e"] d show "\<exists>r c'. (case Collect net k [] c of
       None \<Rightarrow> None
     | Some ((outcomes, Some err), c) \<Rightarrow> g err c
     | Some ((outcomes, None), c) \<Rightarrow> f outcomes c) = Some (r, c')
     \<and> (case r of Returned x \<Rightarrow> Q x c' | Panicked _ \<Rightarrow> running \<tau> c')"
    unfolding returns_def by (cases e) simp_all
qed

lemma invoke_on_returns [returns_intros]:
  fixes \<tau> :: "'n \<Rightarrow> gotime" and net :: "('v, 'n) Net"
  assumes "clock_advances net \<tau>"
  shows "returns \<tau> (running \<tau>) (invoke_on net requestID body) (\<lambda>_. running \<tau>)"
proof (rule returnsI)
  fix c :: "('w, 'v, 'n) Client" assume "running \<tau> c"
  moreover have "0 < Deadline DefaultCallOptions" by (simp add: DefaultCallOptions_def)
  ultimately obtain r d where call: "Client_Call net requestID body None DefaultCallOptions c = Some (r, d)"
    "running \<tau> d" "\<forall>k. r = Inr k \<longrightarrow> awaits \<tau> k d"
    using Client_Call_starts [OF assms] by blast
  show "\<exists>r c'. invoke_on net requestID body c = Some (r, c')
    \<and> (case r of Returned _ \<Rightarrow> running \<tau> c' | Panicked _ \<Rightarrow> running \<tau> c')"
  proof (cases r)
    case (Inl err)
    with call show ?thesis by (simp add: invoke_on_def Invoke_def InvokeWith_def raise_def)
  next
    case (Inr k)
    with call Next_awaits [OF assms, of k d] obtain x e where
      e: "Next net k d = Some (x, e)" "awaits \<tau> k e" by auto
    with call Inr awaits_running [OF e(2)] show ?thesis
      by (cases x) (simp_all add: invoke_on_def Invoke_def InvokeWith_def raise_def give_def)
  qed
qed

text \<open>The loop without calls, until \<open>quietUntil\<close>.\<close>

lemma stay_quiet_returns:
  fixes \<tau> :: "'n \<Rightarrow> gotime" and net :: "('v, 'n) Net" and c :: "('w, 'v, 'n) Client"
  assumes "clock_advances net \<tau>" and "running \<tau> c"
  shows "\<exists>c'. stay_quiet net T c = Some c' \<and> evolves \<tau> c c'"
  using assms(2)
proof (induction "nat (T - client_clock \<tau> c)" arbitrary: c rule: less_induct)
  case less
  obtain now d where k: "client_now net c = (now, d)" by fastforce
  note n = evolves_client_now [OF assms(1) k]
  show ?case
  proof (cases "Before now T")
    case False
    with k n show ?thesis by (subst stay_quiet.simps) simp
  next
    case True
    obtain r e where w: "client_wait net (d\<lparr>cl_policy := DefaultWaitPolicy\<rparr>) = (r, e)" by fastforce
    let ?e = "e\<lparr>cl_policy := cl_policy d\<rparr>"
    have de: "evolves \<tau> d ?e" using evolves_client_wait [OF assms(1) w] by (simp add: evolves_def)
    have ce: "evolves \<tau> c ?e" using n de by (blast intro: evolving.step_trans)
    with less.prems have re: "running \<tau> ?e" by (blast intro: running_evolves)
    then have "core_inv (client_core ?e)" by (simp add: running_def)
    then obtain f where f: "Pump net ?e = Some f" by (rule Pump_returns)
    note ef = evolves_Pump [OF assms(1) f]
    have step: "stay_quiet net T c = stay_quiet net T f"
      using True k w f by (subst stay_quiet.simps) simp
    have "client_clock \<tau> c < now" "now \<le> client_clock \<tau> f"
      using n de ef by (simp_all add: evolves_def)
    then have "nat (T - client_clock \<tau> f) < nat (T - client_clock \<tau> c)" using True by simp
    from less.hyps [OF this running_evolves [OF ef re]] show ?thesis
      unfolding step using evolving.step_trans [OF evolving.step_trans [OF ce ef]] by blast
  qed
qed

lemma quiet_on_returns [returns_intros]:
  fixes \<tau> :: "'n \<Rightarrow> gotime" and net :: "('v, 'n) Net"
  assumes "clock_advances net \<tau>"
  shows "returns \<tau> (awaits \<tau> k) (quiet_on net) (\<lambda>_. awaits \<tau> k)"
proof (rule returns_op)
  fix c :: "('w, 'v, 'n) Client" assume a: "awaits \<tau> k c"
  obtain now d where n: "client_now net c = (now, d)" by fastforce
  note cd = evolves_client_now [OF assms n]
  from stay_quiet_returns [OF assms running_evolves [OF _ awaits_running [OF a]]] cd
  obtain e where e: "stay_quiet net (Time_Add now (150 * Millisecond)) d = Some e" "evolves \<tau> d e" by blast
  have q: "quiet_on net c = Some (Returned (), e)" using n e by (simp add: quiet_on_def)
  show "running \<tau> c \<and> (\<exists>x c'. quiet_on net c = Some (Returned x, c'))"
    using q awaits_running [OF a] by simp
  show "evolves \<tau> c c'" if "quiet_on net c = Some (Returned x, c')" for x c'
    using that q cd e(2) by (auto intro: evolving.step_trans)
qed (rule awaits_evolves)

subsection \<open>The checks return\<close>

lemma returns_expectStatus [returns_intros]:
  "(\<And>c. P c \<Longrightarrow> running \<tau> c) \<Longrightarrow> (\<And>x c. P c \<Longrightarrow> Q x c) \<Longrightarrow> returns \<tau> P (expectStatus code out) Q"
  by (auto simp: expectStatus_def Let_def split: option.splits intro!: returns_give returns_raise)

lemma returns_case_sum:
  "(\<And>x. returns \<tau> P (s x) Q) \<Longrightarrow> (\<And>x. returns \<tau> P (t x) Q) \<Longrightarrow> returns \<tau> P (case v of Inl x \<Rightarrow> s x | Inr x \<Rightarrow> t x) Q"
  by (cases v) simp_all

lemma returns_if_state [returns_intros]:
  "returns \<tau> P s Q \<Longrightarrow> returns \<tau> P t Q \<Longrightarrow> returns \<tau> P (\<lambda>c. if b c then s c else t c) Q"
  by (simp add: returns_def)

lemma returns_count_outcomes [returns_intros]:
  "(\<And>c. P c \<Longrightarrow> running \<tau> c) \<Longrightarrow> returns \<tau> P (count_outcomes seen outs) (\<lambda>_. running \<tau>)"
  by (induction seen outs rule: count_outcomes.induct)
    (auto split: OutcomeKind.split intro!: returns_after [OF returns_convert] returns_give)

lemma sayUppercases_returns:
  "clock_advances net \<tau> \<Longrightarrow> returns \<tau> (running \<tau>) (sayUppercases net) (\<lambda>_. running \<tau>)"
  unfolding sayUppercases_def by (rule returns_intros | simp)+

lemma sayRejectsEmpty_returns:
  "clock_advances net \<tau> \<Longrightarrow> returns \<tau> (running \<tau>) (sayRejectsEmpty net) (\<lambda>_. running \<tau>)"
  unfolding sayRejectsEmpty_def by (rule returns_intros | simp)+

lemma countStreams_returns:
  "clock_advances net \<tau> \<Longrightarrow> returns \<tau> (running \<tau>) (countStreams net) (\<lambda>_. running \<tau>)"
  unfolding countStreams_def by (rule returns_intros | simp add: awaits_running)+

lemma countRejectsLarge_returns:
  "clock_advances net \<tau> \<Longrightarrow> returns \<tau> (running \<tau>) (countRejectsLarge net) (\<lambda>_. running \<tau>)"
  unfolding countRejectsLarge_def by (rule returns_intros | simp add: awaits_running)+

lemma send_chunks_returns [returns_intros]:
  "clock_advances net \<tau> \<Longrightarrow> returns \<tau> (awaits \<tau> k) (send_chunks net k szs) (\<lambda>_. awaits \<tau> k)"
  by (induction szs) (auto intro!: returns_give returns_after [OF send_on_returns] returns_case_option)

lemma uploadSummarises_returns:
  "clock_advances net \<tau> \<Longrightarrow> returns \<tau> (running \<tau>) (uploadSummarises net) (\<lambda>_. running \<tau>)"
  unfolding uploadSummarises_def by (rule returns_intros | simp add: awaits_running)+

lemma uploadRejectsEmptyChunk_returns:
  "clock_advances net \<tau> \<Longrightarrow> returns \<tau> (running \<tau>) (uploadRejectsEmptyChunk net) (\<lambda>_. running \<tau>)"
  unfolding uploadRejectsEmptyChunk_def by (rule returns_intros | simp add: awaits_running)+

lemma chat_lines_returns [returns_intros]:
  assumes "clock_advances net \<tau>"
  shows "returns \<tau> (awaits \<tau> k) (chat_lines upper net k lines) (\<lambda>_. awaits \<tau> k)"
proof (induction lines)
  case Nil
  show ?case by (simp add: returns_give)
next
  case (Cons line lines)
  show ?case unfolding chat_lines.simps
    by (rule returns_intros assms Cons.IH | simp add: awaits_running)+
qed

lemma chatEchoes_returns:
  "clock_advances net \<tau> \<Longrightarrow> returns \<tau> (running \<tau>) (chatEchoes upper net) (\<lambda>_. running \<tau>)"
  unfolding chatEchoes_def by (rule returns_intros | simp add: awaits_running)+

lemma nextTick_returns [returns_intros]:
  "clock_advances net \<tau> \<Longrightarrow> returns \<tau> (awaits \<tau> k) (nextTick net k) (\<lambda>_. awaits \<tau> k)"
  unfolding nextTick_def by (rule returns_intros | simp add: awaits_running)+

lemma next_ticks_returns [returns_intros]:
  assumes "clock_advances net \<tau>"
  shows "returns \<tau> (awaits \<tau> k) (next_ticks net k n) (\<lambda>_. awaits \<tau> k)"
proof (induction n)
  case 0
  show ?case by (simp add: returns_give)
next
  case (Suc n)
  show ?case unfolding next_ticks.simps by (rule returns_intros assms Suc.IH | simp add: awaits_running)+
qed

lemma ticksFollowCredit_returns:
  "clock_advances net \<tau> \<Longrightarrow> returns \<tau> (running \<tau>) (ticksFollowCredit net) (\<lambda>_. running \<tau>)"
  unfolding ticksFollowCredit_def by (rule returns_intros | simp add: awaits_running)+

lemma missingIsUnimplemented_returns:
  "clock_advances net \<tau> \<Longrightarrow> returns \<tau> (running \<tau>) (missingIsUnimplemented net) (\<lambda>_. running \<tau>)"
  unfolding missingIsUnimplemented_def by (rule returns_intros | simp)+

lemma reflectionLists_returns:
  "clock_advances net \<tau> \<Longrightarrow> returns \<tau> (running \<tau>) (reflectionLists unmarshal net) (\<lambda>_. running \<tau>)"
  unfolding reflectionLists_def Let_def by (rule returns_intros returns_case_sum | simp)+

lemma ticksExpire_returns:
  fixes \<tau> :: "'n \<Rightarrow> gotime" and net :: "('v, 'n) Net"
  assumes "clock_advances net \<tau>"
  shows "returns \<tau> (running \<tau>) (ticksExpire net) (\<lambda>_. running \<tau>)"
proof (rule returnsI)
  fix c :: "('w, 'v, 'n) Client"
  assume "running \<tau> c"
  moreover have "0 < Deadline (Within (200 * Millisecond))" by (simp add: Within_def)
  ultimately obtain r d where call: "Client_Call net TicksRequestID EncodeTicksRequest
      (Some (WithInitialCredit 1)) (Within (200 * Millisecond)) c = Some (r, d)"
    "running \<tau> d" "\<forall>k. r = Inr k \<longrightarrow> awaits \<tau> k d"
    using Client_Call_starts [OF assms] by blast
  show "\<exists>r c'. ticksExpire net c = Some (r, c')
    \<and> (case r of Returned _ \<Rightarrow> running \<tau> c' | Panicked _ \<Rightarrow> running \<tau> c')"
  proof (cases r)
    case (Inl err)
    with call show ?thesis by (simp add: ticksExpire_def give_def)
  next
    case (Inr k)
    have ret: "returns \<tau> (awaits \<tau> k) (after (nextTick net k)
        (\<lambda>_. after (next_on net k) (expectStatus CodeDeadlineExceeded))) (\<lambda>_. running \<tau>)"
      by (rule returns_intros assms | simp only: awaits_running)+
    from call Inr have "awaits \<tau> k d" by simp
    from returnsE [OF ret this] call Inr show ?thesis by cases (simp_all add: ticksExpire_def)
  qed
qed

subsection \<open>The run\<close>

text \<open>Every check of \<open>Drive\<close> returns; a panic is the text of a failed check.\<close>

lemma checks_return:
  "clock_advances net \<tau> \<Longrightarrow>
    \<forall>x \<in> set (checks upper unmarshal net). returns \<tau> (running \<tau>) (snd x) (\<lambda>_. running \<tau>)"
  by (simp add: checks_def sayUppercases_returns sayRejectsEmpty_returns countStreams_returns
      countRejectsLarge_returns uploadSummarises_returns uploadRejectsEmptyChunk_returns chatEchoes_returns
      ticksFollowCredit_returns ticksExpire_returns missingIsUnimplemented_returns reflectionLists_returns)

text \<open>What the checks of a list give one after the other, each on the client that the one before left.\<close>

inductive ran :: "(string \<times> ('a, 'w, 'v, 'n) action) list \<Rightarrow> ('w, 'v, 'n) Client
    \<Rightarrow> 'a attempt list \<Rightarrow> ('w, 'v, 'n) Client \<Rightarrow> bool" where
  none: "ran [] c [] c"
| check: "body c = Some (r, d) \<Longrightarrow> ran cs d rs c' \<Longrightarrow> ran ((name, body) # cs) c (r # rs) c'"

fun problem_of :: "problem attempt \<Rightarrow> problem" where
  "problem_of (Returned problem) = problem"
| "problem_of (Panicked p) = Some (fmt_recovered p)"

lemma run_check_eq: "body c = Some (r, d) \<Longrightarrow> run_check body c = Some (problem_of r, d)"
  by (cases r) (simp_all add: run_check_def)

text \<open>The line that a check leaves in the log.\<close>

fun check_line :: "string \<Rightarrow> problem \<Rightarrow> string" where
  "check_line name None = ''ok   '' @ name"
| "check_line name (Some problem) = ''FAIL '' @ name @ '': '' @ problem"

lemma drive_checks_ran:
  "ran cs c rs c' \<Longrightarrow> drive_checks cs failures log c = Some
      ((failures + int (length (filter (\<lambda>r. problem_of r \<noteq> None) rs)),
        log @ map2 check_line (map fst cs) (map problem_of rs)), c')"
  by (induction arbitrary: failures log rule: ran.induct)
    (auto simp: run_check_eq split: option.split)

lemma checks_ran:
  "\<forall>x \<in> set cs. returns \<tau> (running \<tau>) (snd x) (\<lambda>_. running \<tau>) \<Longrightarrow> running \<tau> c
    \<Longrightarrow> \<exists>rs c'. ran cs c rs c' \<and> running \<tau> c'"
proof (induction cs arbitrary: c)
  case Nil
  then show ?case by (blast intro: ran.none)
next
  case (Cons check cs)
  obtain name body where check: "check = (name, body)" by fastforce
  from Cons.prems check have "returns \<tau> (running \<tau>) body (\<lambda>_. running \<tau>)" by simp
  from returnsE [OF this Cons.prems(2)] obtain r d where d: "body c = Some (r, d)" "running \<tau> d" by metis
  with Cons obtain rs c' where "ran cs d rs c'" "running \<tau> c'" by (metis list.set_intros(2))
  with d check show ?case by (blast intro: ran.check)
qed

definition check_names :: "string list" where
  "check_names =
    [''unary Echo.Say'', ''unary error Echo.Say empty'', ''server stream Echo.Count'',
     ''server stream error Echo.Count 101'', ''client stream Blob.Upload'',
     ''client stream error Blob.Upload empty chunk'', ''bidi Room.Chat'', ''credit Clock.Ticks'',
     ''deadline Clock.Ticks'', ''unimplemented Echo.Missing'', ''reflection FRpc.Reflect'']"

lemma checks_names: "map fst (checks upper unmarshal net) = check_names"
  by (simp add: checks_def check_names_def)

lemma Drive_lines:
  assumes "clock_advances net \<tau>" and "running \<tau> c"
  shows "\<exists>rs c'. ran (checks upper unmarshal net) c rs c' \<and> running \<tau> c'
    \<and> Drive upper unmarshal net c = Some ((int (length (filter (\<lambda>r. problem_of r \<noteq> None) rs)),
        map2 check_line check_names (map problem_of rs)), c')"
proof -
  obtain rs c' where r: "ran (checks upper unmarshal net) c rs c'" "running \<tau> c'"
    using checks_ran [OF checks_return [OF assms(1)] assms(2)] by blast
  with drive_checks_ran [OF r(1), of 0 "[]"] show ?thesis
    by (intro exI [of _ rs] exI [of _ c']) (simp add: Drive_def checks_names)
qed

text \<open>The sample client is running.\<close>

lemma sample_client_running: "running fst sample_client"
proof -
  have "c_chain (snd sample_call) = []"
    using Core_Call_result [OF sample_call_eq sample_core_inv] by (simp add: call_result_def)
  then show ?thesis
    using sample_client_waits(1)
    by (simp add: running_def before_deadline_def last_reading_def sample_client_def sample_session_def
        sample_link_def)
qed

end
