(* ===== verification/Interop.thy ===== *)
theory Interop
  imports CheckRuns DemoRuns ScenarioRun
begin

text \<open>
  The interoperability tool (\<open>cmd/frpc-interop/main.go\<close>) and the schema that the demo gives to the
  network (\<open>schema.go\<close>).  What a command does is its exit code and the lines it writes to the
  standard output and the standard error.  The schema type of the package \<open>fomoxa\<close> is a parameter,
  of which the sessions need the ids of the messages it declares; dialling, resolving, listening
  and the text of the errors that come from outside are parameters too.  \<open>serve\<close> runs until its
  standard input ends: what its server does in between are the steps of theory ServerLife.
\<close>

subsection \<open>The schema of the demo\<close>

record SchemaMessage =
  ms_ID :: u32
  ms_Fingerprint :: u64
  ms_Prefixes :: "u64 list"

definition NetSchema :: "(u64 \<Rightarrow> SchemaMessage list \<Rightarrow> string + u32 list) \<Rightarrow> u32 list attempt" where
  "NetSchema newSchema =
    (let messages = map (\<lambda>message. \<lparr>ms_ID = fm_ID message, ms_Fingerprint = fm_Fingerprint message,
           ms_Prefixes = fm_Prefixes message\<rparr>) FomoxaMessages in
     (case newSchema FomoxaSchemaFingerprint messages of
        Inl err \<Rightarrow> Panicked (PanicError (PlainError err))
      | Inr schema \<Rightarrow> Returned schema))"

text \<open>A schema of those messages declares their ids.\<close>

definition keeps_ids :: "(u64 \<Rightarrow> SchemaMessage list \<Rightarrow> string + u32 list) \<Rightarrow> bool" where
  "keeps_ids newSchema \<longleftrightarrow> (\<forall>fp messages schema.
    newSchema fp messages = Inr schema \<longrightarrow> set schema = ms_ID ` set messages)"

subsection \<open>The commands\<close>

datatype exit = Exited int "string list" "string list" | Crashed panic_value

definition zero_WaitPolicy :: WaitPolicy where
  "zero_WaitPolicy = \<lparr>IdleCap = 0, WorkPoll = 0\<rparr>"

definition tool_frames :: "(string \<Rightarrow> string) \<Rightarrow> bytes \<Rightarrow> exit option" where
  "tool_frames upper SchemaJSON =
    (case Frames upper SchemaJSON of
       None \<Rightarrow> None
     | Some (Panicked p) \<Rightarrow> Some (Crashed p)
     | Some (Returned lines) \<Rightarrow> Some (Exited 0 lines []))"

definition tool_serve ::
  "(u64 \<Rightarrow> SchemaMessage list \<Rightarrow> string + u32 list) \<Rightarrow> (string \<Rightarrow> string) \<Rightarrow> bytes \<Rightarrow> (string \<Rightarrow> string + 'a)
    \<Rightarrow> ('a \<Rightarrow> string + 'l) \<Rightarrow> ('l \<Rightarrow> string) \<Rightarrow> string \<Rightarrow> exit" where
  "tool_serve newSchema upper SchemaJSON resolve listen addr address =
    (case NetSchema newSchema of
       Panicked p \<Rightarrow> Crashed p
     | Returned schema \<Rightarrow>
         (case ResponderRegistry upper SchemaJSON True of
            Panicked p \<Rightarrow> Crashed p
          | Returned registry \<Rightarrow>
              (case (Bind resolve listen address schema registry zero_Config
                  :: BindError + 'l \<times> (demo_world, unit, unit) Server) of
                 Inl (BindRegistry err) \<Rightarrow> Exited 1 [] [RegistryError_Reason err]
               | Inl (BindNet err) \<Rightarrow> Exited 1 [] [err]
               | Inr (listener, server) \<Rightarrow> Exited 0 [''listening '' @ addr listener] [])))"

definition tool_drive ::
  "(string \<Rightarrow> string) \<Rightarrow> (bytes \<Rightarrow> string + string) \<Rightarrow> ('v, 'n) Net \<Rightarrow> (u64 \<Rightarrow> SchemaMessage list \<Rightarrow> string + u32 list)
    \<Rightarrow> (string \<Rightarrow> duration \<Rightarrow> string + 'n link) \<Rightarrow> ('v ConnectError \<Rightarrow> string) \<Rightarrow> string \<Rightarrow> exit option" where
  "tool_drive upper unmarshal net newSchema dial reason address =
    (case NetSchema newSchema of
       Panicked p \<Rightarrow> Some (Crashed p)
     | Returned schema \<Rightarrow>
         (case DriverRegistry of
            Panicked p \<Rightarrow> Some (Crashed p)
          | Returned registry \<Rightarrow>
              (case dial address (5 * Second) of
                 Inl err \<Rightarrow> Some (Exited 1 [] [err])
               | Inr transport \<Rightarrow>
                   (case Connect net transport schema registry (5 * Second) zero_Config zero_WaitPolicy zero_world of
                      None \<Rightarrow> None
                    | Some (Inl (err, _)) \<Rightarrow> Some (Exited 1 [] [reason err])
                    | Some (Inr (Some err, _)) \<Rightarrow> Some (Exited 1 [] [reason err])
                    | Some (Inr (None, client)) \<Rightarrow>
                        (case Drive upper unmarshal net client of
                           None \<Rightarrow> None
                         | Some ((failures, lines), client) \<Rightarrow>
                             if failures = 0 then Some (Exited 0 (lines @ [''all checks passed'']) [])
                             else Some (Exited 1 (lines @ [fmt_d (nat failures) @ '' checks failed'']) []))))))"

definition usage :: string where
  "usage = ''usage: frpc-interop serve <host:port> | drive <host:port> | frames''"

definition run_tool ::
  "(string \<Rightarrow> exit option) \<Rightarrow> (string \<Rightarrow> exit option) \<Rightarrow> exit option \<Rightarrow> string list \<Rightarrow> exit option" where
  "run_tool serve_at drive_at frames args =
    (if length args = 2 \<and> args ! 0 = ''serve'' then serve_at (args ! 1)
     else if length args = 2 \<and> args ! 0 = ''drive'' then drive_at (args ! 1)
     else if length args = 1 \<and> args ! 0 = ''frames'' then frames
     else Some (Exited 64 [] [usage]))"

subsection \<open>The registries of the demo are declared\<close>

lemma NetSchema_ids:
  assumes "keeps_ids newSchema" and "NetSchema newSchema = Returned schema"
  shows "set schema = fm_ID ` set FomoxaMessages"
proof -
  have "newSchema FomoxaSchemaFingerprint (map (\<lambda>message. \<lparr>ms_ID = fm_ID message,
      ms_Fingerprint = fm_Fingerprint message, ms_Prefixes = fm_Prefixes message\<rparr>) FomoxaMessages) = Inr schema"
    using assms(2) by (simp add: NetSchema_def Let_def split: sum.splits)
  with assms(1) have "set schema = ms_ID ` set (map (\<lambda>message. \<lparr>ms_ID = fm_ID message,
      ms_Fingerprint = fm_Fingerprint message, ms_Prefixes = fm_Prefixes message\<rparr>) FomoxaMessages)"
    unfolding keeps_ids_def by blast
  then show ?thesis by (simp add: image_image)
qed

lemma table_declares: "\<forall>m \<in> set ([Reflect, Idempotent Reflect, Missing] @ demo_Methods).
    set (MessageIDs m) \<subseteq> fm_ID ` set FomoxaMessages"
  by (simp add: demo_Methods_def method_defs Idempotent_def MessageIDs_def Let_def demo_ids
      FomoxaMessages_def)

lemma demo_declared:
  assumes "keeps_ids newSchema" and "NetSchema newSchema = Returned schema"
  shows "\<exists>r. DriverRegistry = Returned r \<and> RequireDeclared r schema = None"
    and "\<exists>r. ResponderRegistry upper json reflection = Returned r \<and> RequireDeclared r schema = None"
proof -
  have ids: "RequireDeclared r schema = None" if "set (map e_Method (rg_entries r))
      \<subseteq> set ([Reflect, Idempotent Reflect, Missing] @ demo_Methods)" for r :: "demo_world Registry"
    using that table_declares unfolding RequireDeclared_def RequireDeclaredIn_None_iff Methods_def
      NetSchema_ids [OF assms] by blast
  obtain r where r: "DriverRegistry = Returned r"
    "map e_Method (rg_entries r) = [Reflect, Say, Count, Upload, Chat, Ticks, Missing]"
    using DriverRegistry_builds by (elim exE conjE)
  have "RequireDeclared r schema = None" by (rule ids) (simp add: r(2) demo_Methods_def)
  with r(1) show "\<exists>r. DriverRegistry = Returned r \<and> RequireDeclared r schema = None"
    by (intro exI conjI)
  obtain q where q: "ResponderRegistry upper json reflection = Returned q"
    "map e_Method (rg_entries q) = demo_Methods @ (if reflection then [Idempotent Reflect] else [])"
    using ResponderRegistry_builds [of upper json reflection] by (elim exE conjE)
  have "RequireDeclared q schema = None" by (rule ids) (auto simp: q(2))
  with q(1) show "\<exists>r. ResponderRegistry upper json reflection = Returned r \<and> RequireDeclared r schema = None"
    by (intro exI conjI)
qed

subsection \<open>Connecting\<close>

lemma evolves_connect:
  fixes \<tau> :: "'n \<Rightarrow> gotime" and net :: "('v, 'n) Net" and c :: "('w, 'v, 'n) Client"
  assumes "clock_advances net \<tau>" and "connect_loop net giveUp c = Some (None, c')"
  shows "evolves \<tau> c c'"
proof -
  have "clock_advances net \<tau> \<longrightarrow> fst x = None \<longrightarrow> evolves \<tau> c (snd x)" if "connect_loop net giveUp c = Some x" for x
    using that
  proof (rule connect_loop.raw_induct [rotated])
    fix f :: "('v, 'n) Net \<Rightarrow> gotime \<Rightarrow> ('w, 'v, 'n) Client
      \<Rightarrow> ('v ConnectError option \<times> ('w, 'v, 'n) Client) option"
    fix net giveUp c x
    assume IH: "\<And>net giveUp c x. f net giveUp c = Some x
        \<Longrightarrow> clock_advances net \<tau> \<longrightarrow> fst x = None \<longrightarrow> evolves \<tau> c (snd x)"
      and eq: "(case Pump net c of
       None \<Rightarrow> None
     | Some client \<Rightarrow>
         if Session_Ready (cl_session client) then Some (None, client)
         else (case Refusal (cl_session client) of
           Some verdict \<Rightarrow> Some (Some (ConnectError ConnectRefused (Some verdict)
             (''rpcnet: the handshake failed: '' @ net_Verdict net verdict)), Client_Close net client)
         | None \<Rightarrow>
             if Session_Closed net (cl_session client) then
               Some (Some (ConnectError ConnectClosed None ''rpcnet: the server closed the session''),
                 Client_Close net client)
             else (case read_clock net (cl_session client) of (now, s) \<Rightarrow>
               let client = client\<lparr>cl_session := s\<rparr> in
               if \<not> Before now giveUp then
                 Some (Some (ConnectError ConnectTimedOut None ''rpcnet: no handshake before the timeout''),
                   Client_Close net client)
               else (case client_wait net client of
                   (Inl err, client) \<Rightarrow> Some (Some (ConnectWait err), Client_Close net client)
                 | (Inr _, client) \<Rightarrow> f net giveUp client)))) = Some x"
    show "clock_advances net \<tau> \<longrightarrow> fst x = None \<longrightarrow> evolves \<tau> c (snd x)"
    proof (intro impI)
      assume t: "clock_advances net \<tau>" and ok: "fst x = None"
      obtain d where d: "Pump net c = Some d" using eq by (cases "Pump net c") simp_all
      note pump = evolves_Pump [OF t d]
      show "evolves \<tau> c (snd x)"
      proof (cases "Session_Ready (cl_session d)")
        case True
        with eq d have "x = (None, d)" by simp
        with pump show ?thesis by simp
      next
        case False
        obtain now s where k: "read_clock net (cl_session d) = (now, s)" by fastforce
        obtain r e where w: "client_wait net (d\<lparr>cl_session := s\<rparr>) = (r, e)" by fastforce
        have "evolves \<tau> d (d\<lparr>cl_session := s\<rparr>)"
          using evolves_client_now [OF t, of d now] k by (simp add: client_now_def)
        note on = evolving.step_trans [OF pump evolving.step_trans [OF this evolves_client_wait [OF t w]]]
        have "f net giveUp e = Some x"
          using eq ok d False k w by (auto simp: Let_def split: option.splits if_splits sum.splits)
        from evolving.step_trans [OF on] IH [OF this] t ok show ?thesis by blast
      qed
    qed
  qed
  with assms show ?thesis by fastforce
qed

lemma connect_cases:
  obtains (session) err link where "r = Inl (err, link)"
    | (failed) err client where "r = Inr (Some err, client)"
    | (connected) client where "r = Inr (None, client)"
  by (metis not_None_eq prod.exhaust sum.exhaust)

text \<open>\<open>Connect\<close> returns, and the client it gives runs.\<close>

lemma Connect_returns:
  assumes "clock_advances net \<tau>" and "0 \<le> \<tau> (snd (snd (net_New net True transport)))"
  shows "\<exists>r. Connect net transport schema registry timeout config policy w = Some r
    \<and> (case r of Inr (None, client) \<Rightarrow> running \<tau> client | _ \<Rightarrow> True)"
proof -
  obtain x link where Pair: "NewSession net transport schema registry RoleClient config w = (x, link)"
    by (rule prod.exhaust)
  show ?thesis
  proof (cases x)
    case (Inl err)
    with Pair show ?thesis by (cases link) (simp add: Connect_def)
  next
    case (Inr s)
    have c: "s_core s = NewCore registry RoleClient config w"
      using Pair Inr by (auto simp: NewSession_def split: option.splits prod.splits)
    have start: "0 \<le> last_reading \<tau> s"
      using Pair Inr assms(2) by (auto simp: NewSession_def last_reading_def split: option.splits prod.splits)
    obtain now u where k: "read_clock net s = (now, u)" by fastforce
    have clock: "0 \<le> last_reading \<tau> u" using start read_clock_later [OF assms(1) k] by simp
    let ?c = "\<lparr>cl_session = u, cl_policy = policy_normalized policy, cl_backlog = []\<rparr>"
    have "s_core u = NewCore registry RoleClient config w" using read_clock_later [OF assms(1) k] c by simp
    then have i: "core_inv (client_core ?c)" "c_chain (client_core ?c) = []"
      by (simp_all add: core_inv_new) (simp add: NewCore_def Let_def)
    obtain err d where l: "connect_loop net (Time_Add now timeout) ?c = Some (err, d)"
      using connect_loop_returns [OF assms(1) i(1)] by blast
    have c: "running \<tau> ?c" using i clock by (simp add: running_def last_reading_def)
    have "running \<tau> d" if "err = None"
      using evolves_connect [OF assms(1)] l that by (intro running_evolves [OF _ c]) simp
    with Pair Inr k l show ?thesis by (cases err) (simp_all add: Connect_def)
  qed
qed

text \<open>What \<open>drive\<close> does for a server that can be dialled.\<close>

definition verdict :: "problem attempt list \<Rightarrow> exit" where
  "verdict rs =
    (let failures = length (filter (\<lambda>r. problem_of r \<noteq> None) rs);
         lines = map2 check_line check_names (map problem_of rs) in
     if failures = 0 then Exited 0 (lines @ [''all checks passed'']) []
     else Exited 1 (lines @ [fmt_d failures @ '' checks failed'']) [])"

lemma tool_drive_client:
  assumes "NetSchema newSchema = Returned schema" and "DriverRegistry = Returned registry"
    and "dial address (5 * Second) = Inr transport"
    and "Connect net transport schema registry (5 * Second) zero_Config zero_WaitPolicy zero_world
      = Some (Inr (None, client))"
    and "Drive upper unmarshal net client = Some ((int n, ls), c')"
  shows "tool_drive upper unmarshal net newSchema dial reason address
    = Some (if n = 0 then Exited 0 (ls @ [''all checks passed'']) []
        else Exited 1 (ls @ [fmt_d n @ '' checks failed'']) [])"
  by (simp only: tool_drive_def assms attempt.case sum.case option.case prod.case of_nat_eq_0_iff nat_int
      if_distrib [of Some])

lemma tool_drive_ends:
  assumes "clock_advances net \<tau>" and "DriverRegistry = Returned registry"
    and "\<And>transport. dial address (5 * Second) = Inr transport
      \<Longrightarrow> 0 \<le> \<tau> (snd (snd (net_New net True transport)))"
    and "NetSchema newSchema = Returned schema"
  shows "case dial address (5 * Second) of
      Inl err \<Rightarrow> tool_drive upper unmarshal net newSchema dial reason address = Some (Exited 1 [] [err])
    | Inr transport \<Rightarrow> (\<exists>r. Connect net transport schema registry (5 * Second) zero_Config zero_WaitPolicy zero_world = Some r
        \<and> (case r of
            Inr (None, client) \<Rightarrow> \<exists>rs c'. ran (checks upper unmarshal net) client rs c'
              \<and> tool_drive upper unmarshal net newSchema dial reason address = Some (verdict rs)
          | Inr (Some err, _) \<Rightarrow> tool_drive upper unmarshal net newSchema dial reason address = Some (Exited 1 [] [reason err])
          | Inl (err, _) \<Rightarrow> tool_drive upper unmarshal net newSchema dial reason address = Some (Exited 1 [] [reason err])))"
proof (cases "dial address (5 * Second)")
  case (Inl err)
  then show ?thesis by (simp only: tool_drive_def assms(2,4) attempt.case sum.case)
next
  case (Inr transport)
  obtain r where r: "Connect net transport schema registry (5 * Second) zero_Config zero_WaitPolicy zero_world = Some r"
    "case r of Inr (None, client) \<Rightarrow> running \<tau> client | _ \<Rightarrow> True"
    using Connect_returns [OF assms(1) assms(3) [OF Inr], of schema registry "5 * Second" zero_Config zero_WaitPolicy
        zero_world] by (elim exE conjE)
  note drive = tool_drive_def assms(2,4) Inr r(1)
  show ?thesis
  proof (cases r rule: connect_cases)
    case (session err link)
    then show ?thesis by (simp only: drive attempt.case sum.case option.case prod.case option.inject simp_thms)
  next
    case (failed err client)
    then show ?thesis by (simp only: drive attempt.case sum.case option.case prod.case option.inject simp_thms)
  next
    case (connected client)
    note c = this
    with r(2) have "running \<tau> client" by simp
    from Drive_lines [OF assms(1) this, of upper unmarshal]
    obtain rs c' where "ran (checks upper unmarshal net) client rs c'"
      "Drive upper unmarshal net client = Some ((int (length (filter (\<lambda>r. problem_of r \<noteq> None) rs)),
        map2 check_line check_names (map problem_of rs)), c')" by (elim exE conjE)
    note rs = this(1) and tool_drive_client [OF assms(4,2) _ r(1) [unfolded c] this(2), of dial address reason, OF Inr]
    then have "tool_drive upper unmarshal net newSchema dial reason address = Some (verdict rs)"
      by (simp only: verdict_def Let_def)
    with rs have "\<exists>rs c'. ran (checks upper unmarshal net) client rs c'
        \<and> tool_drive upper unmarshal net newSchema dial reason address = Some (verdict rs)" by (intro exI conjI)
    with r(1) show ?thesis by (simp only: Inr c sum.case option.case prod.case option.inject ex_simps simp_thms)
  qed
qed

lemma tool_serve_ends:
  assumes "keeps_ids newSchema" and "NetSchema newSchema = Returned schema"
  shows "tool_serve newSchema upper json resolve listen addr address =
    (case resolve address of Inl err \<Rightarrow> Exited 1 [] [err]
     | Inr resolved \<Rightarrow> (case listen resolved of Inl err \<Rightarrow> Exited 1 [] [err]
        | Inr listener \<Rightarrow> Exited 0 [''listening '' @ addr listener] []))"
proof -
  obtain r where r: "ResponderRegistry upper json True = Returned r" "RequireDeclared r schema = None"
    using demo_declared(2) [OF assms, of upper json True] by (elim exE conjE)
  show ?thesis
    by (simp only: tool_serve_def assms(2) r attempt.case Bind_def option.case)
      (simp split: sum.split)
qed

text \<open>A library that makes a schema of every table, for the witnesses.\<close>

definition sample_newSchema :: "u64 \<Rightarrow> SchemaMessage list \<Rightarrow> string + u32 list" where
  "sample_newSchema fp messages = Inr (map ms_ID messages)"

lemma sample_newSchema_ok: "keeps_ids sample_newSchema" "\<exists>schema. NetSchema sample_newSchema = Returned schema"
  by (auto simp: keeps_ids_def sample_newSchema_def NetSchema_def Let_def)

end
