(* ===== verification/Spec2Isabelle.thy ===== *)
theory Spec2Isabelle
  imports Prelude Wire BodyCodec Status Ctx CallIds Outbox Mailbox Identity Handler Registry Keys
    Interceptor Retry Compression Core CoreOps CoreInv CoreSafe CoreRuns CoreLife CoreService CoreIdle CoreTypes CoreLinks
    CoreCall StreamCall UploadCall Examples Details Transport Session SessionRuns Client ClientRuns ServerLife NetExamples
    Runtime FieldCodec Codecs CodecAgree Handshake Demo DemoService DemoRuns Scenario ScenarioRun
    Checks CheckRuns Interop
begin

text \<open>
  A verification library for frpc-go, an RPC protocol in Go: its core (\<open>src/*.go\<close>, package \<open>frpc\<close>), the
  driver of the core over sockets (\<open>src/rpcnet\<close>), and the demo with its generated code
  (\<open>src/examples/demo\<close>).

  The program.  A session connects two cores over one ordered transport.  A core makes calls
  (its \<open>pending\<close> table), serves calls of its peer (its \<open>inflight\<close> table), queues the frames it has
  to send in an outbox, one queue per call, and collects the outcomes of its own calls for the
  application.  It has no clock, no goroutine and no I/O: the session (\<open>src/rpcnet\<close>) hands it
  received frames (\<open>OnMessage\<close>) and the time (\<open>Tick\<close>), and drains its outbox into the connection
  (\<open>Drain\<close>).  Handlers are state machines that the core polls; interceptors see every call.

  The theories, in the order of the code's dependencies:

  Prelude -- Go's words, bytes, strings and times, \<open>encoding/binary\<close>, \<open>unicode/utf8\<close>, the verbs of \<open>fmt\<close>,
  maps keyed by 32-bit ids (\<open>gomap\<close>), and the collections of facts.
  Wire -- \<open>wire.go\<close>: headers, \<open>Encode\<close>, \<open>Decode\<close>.
  BodyCodec -- \<open>model.go\<close>: \<open>BodyReader\<close> and \<open>BodyWriter\<close>; the locale \<open>field_codec\<close> is the contract of a
  field that a prefix-bounded reader consumes, and each kind of field interprets it.
  Status -- \<open>status.go\<close>.  Ctx, Keys -- \<open>ctx.go\<close>, with SHA-256 for the keys.
  CallIds -- \<open>call.go\<close>: the allocator of ids of a parity.
  Outbox -- \<open>outbox.go\<close>: the queues, the rounds of turns, credits and the drain; the locale
  \<open>drain_rule\<close> is the proof rule for what a drain keeps, whatever the sink does.
  Identity -- \<open>identity.go\<close>; the locale \<open>permission_index\<close> is the contract of a searchable list.
  Handler -- \<open>handler.go\<close> and the guarded calls at the end of \<open>core.go\<close>: progress, panics, the
  package's own handlers.
  Registry -- \<open>descriptor.go\<close>, \<open>reflection.go\<close>: methods, the builder's checks; the locale
  \<open>method_table\<close> is what the core asks of a registry.
  Interceptor -- \<open>interceptor.go\<close>: call contexts, chains, authorization.
  Retry -- \<open>retry.go\<close>.  Compression -- \<open>compression.go\<close>.
  Core, CoreOps -- \<open>core.go\<close>: the state and the shared steps, then every operation.
  CoreInv, CoreSafe -- the invariant \<open>core_inv\<close> and the relation \<open>safe_step\<close> (a step on behalf of one
  call), with one lemma per function of the core.
  CoreRuns, CoreLife -- steps for many calls (\<open>conserves\<close>, lifted to loops by the locale
  \<open>preorder_steps\<close>), \<open>Call\<close>, ticks, the end of a session, and \<open>reaches\<close>, the runs of a core.
  CoreService -- calls of the peer are answered, credit, cancellation, deadlines, panics.
  CoreIdle -- sequences of inputs (\<open>take_input\<close>), and the tick of a core with nothing to do.
  CoreTypes -- outcomes fit the shapes of methods (\<open>typed_step\<close>, a preorder lifted in the same way).
  CoreLinks -- interceptors are left as often as they are entered: gauges, the preorder \<open>level\<close>, and
  \<open>gauged_run\<close>, the runs of a core whose sinks and added links respect a gauge.
  CoreCall -- a unary call from end to end.  StreamCall, UploadCall -- the streams between two cores:
  \<open>yields\<close> and \<open>consumes\<close> are what a handler gives or takes over a world, \<open>sends\<close> what a caller hands
  to its core, \<open>receives\<close> what a core does with the frames of a drain; from them the items that the
  application is given.  Examples -- a small service on which the witnesses run.
  Mailbox -- the specification of the outbox and the simulation; Details -- further facts of single
  components.
  Transport -- \<open>rpcnet/transport.go\<close>, \<open>wait_unix.go\<close>: the backlog and the stream of bytes.
  Session -- \<open>rpcnet/session.go\<close>: a core, its connection and its transport; SessionRuns -- the runs of a
  session and how long it waits.  Client -- \<open>rpcnet/client.go\<close> and the connection loop of
  \<open>server.go\<close>; ClientRuns -- these loops end.  ServerLife -- the rest of \<open>server.go\<close>: the goroutines of a
  server as interleaved steps (\<open>server_step\<close>), what the steps bring about (\<open>produced\<close>) and the histories
  that collect it (\<open>makes\<close>, \<open>history\<close>; \<open>alone\<close> for one connection by itself), defined without the
  observer, the invariant \<open>life_inv\<close>, the log of the observer (\<open>logged\<close>), and the measure \<open>steps_left\<close> of
  a stopped server.  NetExamples -- a small network for the
  witnesses.
  Runtime -- \<open>generated/runtime.go\<close>: reader, writer, limits.  FieldCodec -- the pattern of a generated
  codec; the locale \<open>wire_field\<close> is the contract of a kind of field and \<open>message_codec\<close> that of a message.
  Codecs -- the nineteen generated codecs, each an interpretation.  CodecAgree -- they agree with the
  codecs of the package itself.  Handshake -- \<open>generated/handshake.go\<close>.
  Demo -- \<open>proto.go\<close>, DemoService -- what its registries and handlers do, DemoRuns -- its count and its
  upload between two cores.  Scenario -- \<open>Frames\<close> of
  \<open>scenario.go\<close>; ScenarioRun -- its evaluation, frame by frame, in the kernel.  Checks -- the checks of
  \<open>Drive\<close>, computations on a client that may panic; CheckRuns -- a rule for each step of a check (\<open>returns\<close>,
  total correctness) and the run of them all.  Interop -- \<open>schema.go\<close> and \<open>cmd/frpc-interop\<close>.

  How the model reads the code.  A struct is a record with prefixed field names, an enumeration a
  datatype, except that kinds and call ids are words because the code computes with them.
  Ids, credit and lengths on the wire are words; counts, ceilings and times are integers (none
  comes near 64 bits, except in \<open>BackoffFor\<close>, whose product wraps around in the model).  An instant
  is nanoseconds from the zero \<open>time.Time\<close>.  A pointer shared through a map is a record read from,
  changed and put back at its key.  Interfaces are records of functions over a world \<open>'w\<close> that
  all handlers, factories and interceptors share; the world is a field of the core, and they
  do not call back into the core.  An error result is a sum or an option; a panic of a handler
  is the value \<open>Panicked\<close>.  A field of the source may be split into a definition per loop body or
  per branch; the names say which function they belong to.

  Loops.  Allocation is bounded by 2^31 - 1 rounds, the number of ids of a parity, and the proof
  shows that these reach every id.  A turn of the scheduler is bounded by its queue; a drain is a
  partial function with \<open>None\<close> for non-termination, proved to return for a positive quantum,
  which \<open>normalized\<close> guarantees.  The loop of \<open>pollOne\<close> is bounded by the room in the outbox.
  The inflating loop is a partial function over an inflater that is a parameter.  The loops of the
  client and of a connection are partial functions too; they are proved to end under
  \<open>clock_advances\<close>, that each reading of the clock is later than the one before, for calls with a
  deadline and servers that are told to stop.

  What is outside.  The system calls of the transport (\<open>Sys\<close>), the connection of the third-party
  package \<open>fomoxa\<close> and the clock (\<open>Net\<close>) are records of functions over a state \<open>'n\<close> of the network.
  \<open>honest_socket\<close> is what \<open>write(2)\<close> documents; \<open>orderly\<close> says that a connection reports no \<open>Ready\<close> after
  its end.  The case mapping of non-ASCII text is the parameter \<open>upper\<close> of the demo, and
  \<open>encoding/json\<close> the parameter \<open>unmarshal\<close> of its checks.  \<open>keeps_ids\<close> says that a schema made of a table of
  messages declares their ids.

  The properties below are numbered.  C1-C7 are the core over a run: every call completed once,
  the invariant, a unary call end to end, isolation, requests answered, deadlines, the end of the
  session.  C8-C13 are credit, cancellation, panics, interceptors and the two kinds of stream end to
  end; C14 the order of a drain; C15-C17 types, the specification of the outbox and its fairness;
  C18-C21 transport and session; C22-C25 client and server; C26-C32 the demo, the generated code and
  the tool; C33-C34 the formats; C35-C38 ids, registry and authorization; C39-C40 retries and
  compression.  The end-to-end properties C3, C12, C13, C30 and C31 are about cores without
  interceptors and compressor (\<open>bare\<close>); C11, C37 and C40 are about those.

  Concurrency.  A core and a session belong to one goroutine, so a run of them is a sequence of
  operations.  The goroutines of a server share the flag \<open>stopped\<close>, the wait group, the observer and
  the world of the handlers; each access to the flag and the wait group is a step of its own, and
  one round of a connection (tick, report, wait) is one step.  Interleavings within a round, of
  observers or handlers that are not synchronised, are outside the model.

  Not modelled: the net package (dialling, resolving, listening), which is a parameter wherever the
  code calls it; the connection and the schema type of \<open>fomoxa\<close>, which are not in the repository; the
  accessors that return a field (\<open>Addr\<close>, \<open>Kind\<close>, \<open>LastError\<close>, \<open>RemoteAddr\<close>, \<open>Session\<close>); the wait of the tool
  for its standard input and for two seconds after \<open>Stop\<close>.  The deflate algorithm of the standard
  library is a parameter, a writer and a reader; \<open>lossless\<close> says that the reader gives back what was
  written.
\<close>

section \<open>The core over a run\<close>

text \<open>C1 (invariant). Every call is completed exactly once.  In any run of a core from its creation, over
  all of its operations in any order and with any handlers, interceptors, frames and clocks,
  the calls that \<open>Call\<close> has started are, counted with repetitions of reused ids, the calls of
  the completing outcomes reported so far together with the calls still pending.\<close>

theorem calls_completed_once:
  assumes "reaches (NewCore registry role config w) calls taken c"
  shows "mset calls = mset (terminals (taken @ c_outcomes c)) + mset_set (fset (fmdom (c_pending c)))"
  using reaches_accounted [OF assms accounted_new] by (simp add: accounted_def pending_calls_def)

theorem calls_completed_once_witness:
  "mset [0] = mset (terminals (c_outcomes (OnSessionEnd (snd sample_call))))
    + mset_set (fset (fmdom (c_pending (OnSessionEnd (snd sample_call)))))"
  using calls_completed_once [OF reaches.session_end [OF sample_reaches]] by simp

text \<open>C2 (invariant). In every core that a run reaches, the pending calls have ids of the core's own
  parity and the calls it serves have ids of the other, both tables are within the ceiling of
  the configuration, and the outbox is well-formed: its total is the number of queued frames,
  the turns are exactly the calls with frames, and each queue holds only frames of its call.\<close>

theorem core_well_formed:
  assumes "reaches (NewCore registry role config w) calls taken c"
  shows "(\<forall>k. k |\<in>| fmdom (c_pending c) \<longrightarrow> Role_Allocates (Core_Role c) k)
    \<and> (\<forall>k. k |\<in>| fmdom (c_inflight c) \<longrightarrow> \<not> Role_Allocates (Core_Role c) k)
    \<and> int (map_len (c_pending c)) \<le> MaxPending (c_config c)
    \<and> int (map_len (c_inflight c)) \<le> MaxPending (c_config c)
    \<and> Outbox_Len (c_outbox c) = int (\<Sum>k \<in> UNIV. length (queue (c_outbox c) k))
    \<and> set (ob_turns (c_outbox c)) = {k. queue (c_outbox c) k \<noteq> []}
    \<and> (\<forall>k. \<forall>f \<in> set (queue (c_outbox c) k). ReadCallID (og_Payload f) = k)"
  using reaches_accounted [OF assms accounted_new]
  by (simp add: accounted_def core_inv_def outbox_inv_def queued_def Outbox_Len_def tagged_def frame_of_def)

theorem core_well_formed_witness:
  "Role_Allocates (Core_Role (snd sample_call)) 0"
  using core_well_formed [OF sample_reaches] sample_call_pending by simp

text \<open>C3 (functional). A unary call from end to end.  Between two cores without interceptors and
  compressors, a call that \<open>Call\<close> accepts queues one request frame; the serving core, given
  that frame, runs the factory of the method on the same body and queues one response frame
  with the handler's reply; the calling core, given that frame at any time, reports the reply
  as the outcome of the call, which is then no longer pending.\<close>

theorem unary_call_completes:
  assumes "bare cl" "registry_ok (c_registry cl)" "MethodFor requestID (c_registry cl) = Some m"
      "m_Shape m = ShapeUnary" "core_inv cl"
    and "Core_Call requestID body ctx options t0 cl = (Inr k, cl')"
    and "bare sv" "registry_ok (c_registry sv)" "\<not> Role_Allocates (Core_Role sv) k"
      "k |\<notin>| fmdom (c_inflight sv)" "int (map_len (c_inflight sv)) < MaxPending (c_config sv)"
      "HasRoom k (c_outbox sv)"
      "EntryFor requestID (c_registry sv) = Some e" "e_Factory e = Some factory" "e_Method e = m"
    and "ctx_ok (call_ctx ctx options)" "length (Ctx_Encode (call_ctx ctx options)) < 2 ^ 32"
      "int (length (Ctx_Encode (call_ctx ctx options))) \<le> MaxCtxLen (c_config sv)"
      "MaxCtxLen (c_config sv) < 2 ^ 63"
    and "factory m body (c_world sv) = (Returned (Some h, None), w1)"
      "safePoll h t1 w1 = (Respond reply, w2)"
  shows "\<exists>request response sv' cl''.
    c_outbox cl' = Outbox_append k request (c_outbox cl)
    \<and> OnMessage (og_MessageID request) (og_Payload request) t1 sv = (True, sv')
    \<and> c_outbox sv' = Outbox_append k response (c_outbox sv) \<and> k |\<notin>| fmdom (c_inflight sv')
    \<and> OnMessage (og_MessageID response) (og_Payload response) t2 cl' = (True, cl'')
    \<and> c_outcomes cl'' = c_outcomes cl
        @ [\<lparr>o_Kind = OutcomeResponse, o_Call = k, o_Body = reply, o_Status = None\<rparr>]
    \<and> k |\<notin>| fmdom (c_pending cl'')"
  using assms by (rule unary_call)

theorem unary_call_completes_witness:
  "\<exists>(request :: Outgoing) sv' (response :: Outgoing) cl''.
    OnMessage (og_MessageID request) (og_Payload request) 2000 (sample_core RoleServer) = (True, sv')
    \<and> OnMessage (og_MessageID response) (og_Payload response) 3000 (snd sample_call) = (True, cl'')
    \<and> c_outcomes cl'' = [\<lparr>o_Kind = OutcomeResponse, o_Call = 0, o_Body = [7], o_Status = None\<rparr>]"
proof -
  obtain h w1 where f: "echo_factory echo [7] empty_world = (Returned (Some h, None), w1)"
    and "\<exists>w2. safePoll h 2000 w1 = (Respond [7], w2)"
    using echo_polls [of echo "[7]" empty_world] by blast
  then obtain w2 where p: "safePoll h 2000 w1 = (Respond [7], w2)" by blast
  let ?e = "\<lparr>e_Method = echo, e_Factory = Some echo_factory\<rparr>"
  have "\<exists>request response sv' cl''.
    c_outbox (snd sample_call) = Outbox_append 0 request (c_outbox (sample_core RoleClient))
    \<and> OnMessage (og_MessageID request) (og_Payload request) 2000 (sample_core RoleServer) = (True, sv')
    \<and> c_outbox sv' = Outbox_append 0 response (c_outbox (sample_core RoleServer))
    \<and> 0 |\<notin>| fmdom (c_inflight sv')
    \<and> OnMessage (og_MessageID response) (og_Payload response) 3000 (snd sample_call) = (True, cl'')
    \<and> c_outcomes cl'' = c_outcomes (sample_core RoleClient)
        @ [\<lparr>o_Kind = OutcomeResponse, o_Call = 0, o_Body = [7], o_Status = None\<rparr>]
    \<and> 0 |\<notin>| fmdom (c_pending cl'')"
    by (rule unary_call_completes [where m = echo and e = ?e and factory = echo_factory and h = h
          and ?w1.0 = w1 and ?w2.0 = w2, OF _ _ _ _ sample_core_inv sample_call_eq])
      (use f p in \<open>simp_all add: sample_facts sample_registry_ok sample_ctx [simplified]\<close>)
  then show ?thesis
    by (elim exE conjE) (intro exI conjI, assumption+, simp)
qed

text \<open>C4 (safety). Isolation of calls.  A received frame, whatever its bytes, touches at most the call
  whose id stands in its header: of every other call, the pending record, the running record,
  the queued frames and the waiting credit are as they were, and so are the settings.\<close>

theorem frame_isolated:
  assumes "OnMessage messageID payload now c = (mine, c')"
  shows "(\<forall>k. k \<noteq> ReadCallID payload \<longrightarrow>
      fmlookup (c_pending c') k = fmlookup (c_pending c) k
      \<and> fmlookup (c_inflight c') k = fmlookup (c_inflight c) k
      \<and> queue (c_outbox c') k = queue (c_outbox c) k
      \<and> fmlookup (ob_credits (c_outbox c')) k = fmlookup (ob_credits (c_outbox c)) k)
    \<and> c_config c' = c_config c \<and> c_registry c' = c_registry c \<and> c_ids c' = c_ids c"
  using safe_OnMessage [OF assms] by (auto simp: safe_step_def untouched_def same_static_def)

theorem frame_isolated_witness:
  "fmlookup (c_pending (snd (OnMessage 11 [2, 9, 0, 0, 0] 5 (snd sample_call)))) 0
    = fmlookup (c_pending (snd sample_call)) 0"
  using frame_isolated [of 11 "[2, 9, 0, 0, 0]" 5 "snd sample_call"
      "fst (OnMessage 11 [2, 9, 0, 0, 0] 5 (snd sample_call))"
      "snd (OnMessage 11 [2, 9, 0, 0, 0] 5 (snd sample_call))"]
  by (simp add: ReadCallID_def Uint32_def)

text \<open>C5 (liveness). No request is dropped.  When a well-formed REQUEST of the peer reaches a ready core,
  then after it, and after every further sequence of frames, of this or any other call, and of
  ticks, the call is running, or the last frame of its queue is the one that answers it: a
  RESPONSE, an END or an ERROR.\<close>

theorem requests_stay_served:
  assumes "Decode payload (MaxCtxLen (c_config c)) = Inr q" and "hdr_Kind (p_Header q) = KindRequest"
    and "c_ready c" and "\<not> IsPlain messageID (c_registry c)" and "core_inv c"
    and "k = hdr_Call (p_Header q)" and "\<not> Role_Allocates (Core_Role c) k"
  shows "fst (OnMessage messageID payload now c)
    \<and> (let d = fold take_input inputs (snd (OnMessage messageID payload now c)) in
        k |\<in>| fmdom (c_inflight d) \<or> (queue (c_outbox d) k \<noteq> []
        \<and> KindBits (og_Payload (last (queue (c_outbox d) k)) ! 0) \<in> {KindResponse, KindError, KindEnd}))"
proof -
  obtain mine c' where o: "OnMessage messageID payload now c = (mine, c')" by fastforce
  from OnMessage_request_served [OF assms(1-4) o] assms(6) have s: "mine" "served k c'" by simp_all
  from safe_OnMessage [OF o] have "core_inv c'" "\<not> Role_Allocates (Core_Role c') k"
    using assms(5,7) by (simp_all add: safe_step_def same_static_def Core_Role_def)
  from inputs_keep_served [OF this s(2), of inputs] s(1) o show ?thesis
    by (simp add: served_def answer_frame_def Let_def)
qed

theorem requests_stay_served_witness:
  "fst (OnMessage 99 [0, 6, 0, 0, 0] 5 (sample_core RoleServer))"
  using requests_stay_served [of "[0, 6, 0, 0, 0]" "sample_core RoleServer"
      "\<lparr>p_Header = plain_header KindRequest 6, p_Ctx = [], p_Body = []\<rparr>" 99 6 5 "[Clock 7, Frame 99 [0, 6, 0, 0, 0] 8]"]
  by (simp add: sample_facts Decode_def KindBits_def ReadCallID_def Uint32_def plain_header_def
      IsPlain_def Let_def sample_core_inv Role_Allocates_def CallID_Even_def)

section \<open>Deadlines and the end of the session\<close>

text \<open>C6 (functional). A tick meets every deadline.  It completes exactly the pending calls whose deadline
  has come, in the order of their ids, each with DEADLINE_EXCEEDED, and leaves the other pending
  calls as they are; and after it no pending call has a deadline at or before that time, and no
  running call has a limit or an idle limit that has run out by then.\<close>

theorem tick_meets_deadlines:
  "c_outcomes (Tick now c) = c_outcomes c
      @ map (\<lambda>k. failed k DeadlineExceeded) (filter (overdue now c) (sortedKeys (c_pending c)))
    \<and> c_pending (Tick now c) = fmfilter (\<lambda>k. \<not> overdue now c k) (c_pending c)
    \<and> (case fmlookup (c_pending (Tick now c)) k of None \<Rightarrow> True
       | Some r \<Rightarrow> w_deadline r = 0 \<or> now < w_deadline r)
    \<and> (case fmlookup (c_inflight (Tick now c)) k of None \<Rightarrow> True
       | Some r \<Rightarrow> nextExpiry r = 0 \<or> now < nextExpiry r)"
  using Tick_pending [of now c] Tick_not_overdue [of now c k] Tick_not_expired [of now c k]
  by (auto simp: overdue_def expired_def split: option.splits)

text \<open>C7 (functional). The end of a session completes every pending call once, in the order of the ids,
  with UNAVAILABLE, drops every running call and every frame and credit, and leaves the core
  finished and not ready.\<close>

theorem session_end_settles_all:
  assumes "\<not> c_finished c"
  shows "c_outcomes (OnSessionEnd c) = c_outcomes c
      @ map (\<lambda>k. failed k Unavailable) (sortedKeys (c_pending c))
    \<and> c_pending (OnSessionEnd c) = fmempty \<and> c_inflight (OnSessionEnd c) = fmempty
    \<and> Outbox_Empty (c_outbox (OnSessionEnd c)) \<and> c_finished (OnSessionEnd c)
    \<and> \<not> c_ready (OnSessionEnd c)"
  using OnSessionEnd_effect [OF assms] by blast

theorem session_end_settles_all_witness:
  "c_outcomes (OnSessionEnd (snd sample_call)) = [failed 0 Unavailable]"
  using session_end_settles_all [of "snd sample_call"]
  by (simp add: sample_call_facts sortedKeys_def sorted_list_of_fset.rep_eq)

section \<open>Streams, cancellation and errors\<close>

text \<open>C8 (bounds). A limited stream pays for what it sends.  For a running call with an established
  allowance, one call of \<open>pollOne\<close> that leaves it running has queued exactly as many frames as
  its credit has fallen by, so it never sends more items than it was granted.\<close>

theorem stream_within_credit:
  assumes "fmlookup (c_inflight c) k = Some r" and "r_established r"
    and "fmlookup (c_inflight (pollOne k now c)) k = Some r'"
  shows "length (queue (c_outbox (pollOne k now c)) k) + unat (r_credit r')
    = length (queue (c_outbox c) k) + unat (r_credit r)"
  using paid_pollOne [of k c now] assms by (simp add: paid_def)

theorem stream_within_credit_witness:
  "length (queue (c_outbox (pollOne 6 5 sample_items)) 6) = 2"
proof -
  obtain r' where r': "fmlookup (c_inflight (pollOne 6 5 sample_items)) 6 = Some r'" "r_credit r' = 0"
    using sample_items_credit by blast
  from stream_within_credit [OF sample_items_facts(1) _ r'(1)] r'(2) show ?thesis
    by (simp add: sample_items_facts sample_running_def)
qed

text \<open>C9 (functional). Cancelling a pending call completes it with CANCELLED, empties its queue and drops
  the credit that waits for it; the calls being served and what waits for other calls are not
  affected.  If its REQUEST was still waiting in the queue then nothing more is queued, and the
  next drain of a well-formed core, whatever the sink, hands over no frame with the id of the
  call, so the peer never hears of it; otherwise a CANCEL frame is queued and is the only frame
  with that id that the drain may hand over.\<close>

theorem cancel_effect:
  assumes "k |\<in>| fmdom (c_pending c)"
  shows "c_outcomes (Core_Cancel k c) = c_outcomes c @ [failed k Cancelled]
    \<and> c_pending (Core_Cancel k c) = fmdrop k (c_pending c)
    \<and> queue (c_outbox (Core_Cancel k c)) k =
      (if RequestStillQueued k (c_outbox c) then []
       else [\<lparr>og_MessageID = rg_voidID (c_registry c), og_Payload = Encode (plain_header KindCancel k) [] []\<rparr>])
    \<and> fmlookup (ob_credits (c_outbox (Core_Cancel k c))) k = None
    \<and> c_inflight (Core_Cancel k c) = c_inflight c
    \<and> (\<forall>j. j \<noteq> k \<longrightarrow> queue (c_outbox (Core_Cancel k c)) j = queue (c_outbox c) j
        \<and> fmlookup (ob_credits (c_outbox (Core_Cancel k c))) j = fmlookup (ob_credits (c_outbox c)) j)
    \<and> (\<forall>accept c' log. core_inv c \<and> Core_Drain (log_sink accept) (Core_Cancel k c) [] = Some (c', log) \<longrightarrow>
        filter (\<lambda>f. ReadCallID (og_Payload f) = k) log @ queue (c_outbox c') k
          = (if RequestStillQueued k (c_outbox c) then []
             else [\<lparr>og_MessageID = rg_voidID (c_registry c),
               og_Payload = Encode (plain_header KindCancel k) [] []\<rparr>]))"
  using Core_Cancel_rest [OF assms] Core_Cancel_drained [OF assms] unfolding Core_Cancel_effect [OF assms]
  by (intro conjI allI impI refl) blast+

theorem cancel_effect_witness:
  "c_outcomes (Core_Cancel 0 (snd sample_call)) = [failed 0 Cancelled]"
  using cancel_effect [of 0 "snd sample_call"] by (simp add: sample_call_facts)

text \<open>C10 (error). A handler that panics when it is polled fails its own call only.  Exactly that call
  leaves the table of running calls, and its queue holds one ERROR frame, and no credit waits
  for it; the pending calls, the outcomes, every other running call and what is queued and
  granted for every other call are as they were.  The status of the frame is INTERNAL, unless the
  value of the panic is a status or an error that is one, which the code keeps where the README
  says that any panic becomes INTERNAL.\<close>

theorem handler_panic_contained:
  assumes "fmlookup (c_inflight c) k = Some r" and "HasRoom k (c_outbox c)"
    and "\<not> (CalleeStreams (r_shape r) \<and> starved r)"
    and "h_Poll (r_handler r) now (c_world c) = (Panicked p, w)"
  shows "k |\<notin>| fmdom (c_inflight (poll_loop k now c))
    \<and> queue (c_outbox (poll_loop k now c)) k
      = [bodyFrame k KindError (rg_errorID (c_registry c)) (Status_Encode (recovered p)) c]
    \<and> fmlookup (ob_credits (c_outbox (poll_loop k now c))) k = None
    \<and> c_inflight (poll_loop k now c) = fmdrop k (c_inflight c)
    \<and> c_pending (poll_loop k now c) = c_pending c
    \<and> c_outcomes (poll_loop k now c) = c_outcomes c
    \<and> (\<forall>j. j \<noteq> k \<longrightarrow> queue (c_outbox (poll_loop k now c)) j = queue (c_outbox c) j
        \<and> fmlookup (ob_credits (c_outbox (poll_loop k now c))) j = fmlookup (ob_credits (c_outbox c)) j)"
  using poll_loop_panic [OF assms] safe_poll_loop [of k c now]
  by (simp add: safe_step_def untouched_def)

theorem handler_panic_contained_witness:
  "6 |\<notin>| fmdom (c_inflight (poll_loop 6 5 (sample_panic (PanicError (StatusError Cancelled)))))"
  using handler_panic_contained [of "sample_panic (PanicError (StatusError Cancelled))" 6
      "(sample_running 2)\<lparr>r_handler := PollFunc (\<lambda>_ w. (Panicked (PanicError (StatusError Cancelled)), w))\<rparr>"
      5 "PanicError (StatusError Cancelled)"]
  by (simp add: sample_panic_def sample_stream_facts put_inflight_def PollFunc_def sample_running_def
      starved_def)

text \<open>C11 (safety). An interceptor that a call has entered is left.  Let a gauge be a function of the
  world that the hooks of the link at position \<open>p\<close> raise by one when they let a call in, as \<open>Outgoing\<close>
  or as \<open>Inbound\<close>, and lower by one in \<open>Outbound\<close>, and that no other link, no handler or factory
  and no sink moves.  Over any run of a core, its operations in any order, with links added at any
  time, the gauge has risen by the number of the calls, pending or running, that have entered the
  link and are still open; so the link has been left as often as it was entered by all others,
  the refused, failed and cancelled ones included, and at the end of the session by all.\<close>

theorem interceptors_are_left:
  assumes "gauged_run p gauge (NewCore registry role config w) c" and "unmoved_registry gauge registry"
  shows "gauge (c_world c) = gauge w
      + int (card {k. \<exists>r. fmlookup (c_pending c) k = Some r \<and> p < w_entered r})
      + int (card {k. \<exists>r. fmlookup (c_inflight c) k = Some r \<and> p < r_entered r})
    \<and> (\<not> c_finished c \<longrightarrow> gauge (c_world (OnSessionEnd c)) = gauge w)"
  using gauge_follows [OF assms] gauge_returns [OF assms] by blast

theorem interceptors_are_left_witness:
  "c_world (snd counting_call) = 1 \<and> c_world (OnSessionEnd (snd counting_call)) = 0"
  using interceptors_are_left [OF counting_run counting_unmoved] counting_call_eval by simp

section \<open>Streams between two cores\<close>

text \<open>C12 (functional). A server stream from end to end.  The two cores are well-formed, have no
  interceptors and no compressor (\<open>bare\<close>), and agree on the method and on the void message, which is
  no plain message.  A call of a streaming method is accepted by the caller's core; its ctx can be
  encoded and is within the serving core's ceiling; its id, of the caller's parity, is new to the
  serving core, which has room for another call and for the items; and the ctx gives either no
  initial credit or more of it than there are items.  Then receiving the REQUEST and draining the
  server hands over frames which, received in their order at any times, give the caller the items
  that the handler yields, in order, and the end.\<close>

theorem stream_completes:
  assumes cl: "bare cl" "registry_ok (c_registry cl)" "MethodFor requestID (c_registry cl) = Some m"
      "m_Shape m = ShapeServerStream" "core_inv cl" "\<not> IsPlain (rg_voidID (c_registry cl)) (c_registry cl)"
    and call: "Core_Call requestID body ctx options t0 cl = (Inr k, cl')"
    and sv: "bare sv" "registry_ok (c_registry sv)" "\<not> Role_Allocates (Core_Role sv) k"
      "k |\<notin>| fmdom (c_inflight sv)" "int (map_len (c_inflight sv)) < MaxPending (c_config sv)"
      "room_for (length items) k (c_outbox sv)"
      "EntryFor requestID (c_registry sv) = Some e" "e_Factory e = Some factory" "e_Method e = m"
      "rg_voidID (c_registry sv) = rg_voidID (c_registry cl)" "core_inv sv" "queue (c_outbox sv) k = []"
    and ctx: "ctx_ok (call_ctx ctx options)" "length (Ctx_Encode (call_ctx ctx options)) < 2 ^ 32"
      "int (length (Ctx_Encode (call_ctx ctx options))) \<le> MaxCtxLen (c_config sv)"
      "MaxCtxLen (c_config sv) < 2 ^ 63"
      "InitialCredit (call_ctx ctx options) = 0 \<or> length items < unat (InitialCredit (call_ctx ctx options))"
    and handler: "factory m body (c_world sv) = (Returned (Some h, None), w1)" "yields h t1 w1 items w2"
  shows "\<exists>request sv' sv'' log.
    c_outbox cl' = Outbox_append k request (c_outbox cl)
    \<and> OnMessage (og_MessageID request) (og_Payload request) t1 sv = (True, sv') \<and> k |\<notin>| fmdom (c_inflight sv')
    \<and> Core_Drain (log_sink (\<lambda>_ _. True)) sv' [] = Some (sv'', log)
    \<and> (\<forall>ts. length ts = Suc (length items) \<longrightarrow>
        (let cl'' = receives (zip (filter (frame_of k) log) ts) cl'
         in c_outcomes cl'' = c_outcomes cl @ map (item_outcome k) items @ [end_outcome k]
           \<and> k |\<notin>| fmdom (c_pending cl'')))"
  using assms by (rule stream_call)

theorem stream_completes_witness:
  "\<exists>(request :: Outgoing) sv' sv'' log (cl :: unit world Core) cl''.
    OnMessage (og_MessageID request) (og_Payload request) 2000 (sample_core RoleServer) = (True, sv')
    \<and> Core_Drain (log_sink (\<lambda>_ _. True)) sv' [] = Some (sv'', log)
    \<and> cl'' = receives (zip (filter (frame_of 0) log) [3000, 3000, 4000, 4000]) cl
    \<and> c_outcomes cl'' = [item_outcome 0 [1], item_outcome 0 [2], item_outcome 0 [3], end_outcome 0]"
proof -
  obtain h w1 w2 where f: "count_factory count [] empty_world = (Returned (Some h, None), w1)"
    "yields h 2000 w1 [[1], [2], [3]] w2"
    using count_factory_yields [of count "[]" empty_world 2000] by blast
  obtain cl where call: "Core_Call 3 [] None (Within (2 * Second)) 1000 (sample_core RoleClient) = (Inr 0, cl)"
    using sample_count_call by blast
  let ?e = "\<lparr>e_Method = count, e_Factory = Some count_factory\<rparr>"
  have "\<exists>request sv' sv'' log. c_outbox cl = Outbox_append 0 request (c_outbox (sample_core RoleClient))
    \<and> OnMessage (og_MessageID request) (og_Payload request) 2000 (sample_core RoleServer) = (True, sv')
    \<and> 0 |\<notin>| fmdom (c_inflight sv')
    \<and> Core_Drain (log_sink (\<lambda>_ _. True)) sv' [] = Some (sv'', log)
    \<and> (\<forall>ts. length ts = Suc (length [[1], [2], [3 :: u8]]) \<longrightarrow>
        (let cl'' = receives (zip (filter (frame_of 0) log) ts) cl
         in c_outcomes cl'' = c_outcomes (sample_core RoleClient) @ map (item_outcome 0) [[1], [2], [3]] @ [end_outcome 0]
           \<and> 0 |\<notin>| fmdom (c_pending cl'')))"
    by (rule stream_completes [where m = count and e = ?e and factory = count_factory and h = h
          and ?w1.0 = w1 and ?w2.0 = w2, OF _ _ _ _ sample_core_inv _ call])
      (use f in \<open>simp_all add: sample_facts sample_count_facts sample_stream_room sample_registry_ok sample_core_inv sample_ctx [simplified] sample_count_facts [simplified]\<close>)
  then obtain request :: Outgoing and sv' sv'' log where
    q: "OnMessage (og_MessageID request) (og_Payload request) 2000 (sample_core RoleServer) = (True, sv')"
      "Core_Drain (log_sink (\<lambda>_ _. True)) sv' [] = Some (sv'', log)"
    and ts: "\<forall>ts. length ts = Suc (length [[1], [2], [3 :: u8]]) \<longrightarrow>
        (let cl'' = receives (zip (filter (frame_of 0) log) ts) cl
         in c_outcomes cl'' = c_outcomes (sample_core RoleClient) @ map (item_outcome 0) [[1], [2], [3]] @ [end_outcome 0]
           \<and> 0 |\<notin>| fmdom (c_pending cl''))"
    by blast
  have "c_outcomes (receives (zip (filter (frame_of 0) log) [3000, 3000, 4000, 4000]) cl)
      = [item_outcome 0 [1], item_outcome 0 [2], item_outcome 0 [3], end_outcome 0]"
    using ts [rule_format, of "[3000, 3000, 4000, 4000]"] by (simp add: Let_def)
  with q show ?thesis by (intro exI conjI) (assumption | rule refl)+
qed

text \<open>C13 (functional). A caller's stream from end to end.  The two cores are well-formed, have no
  interceptors and no compressor (\<open>bare\<close>), and agree on the method and on the void message, which is
  no plain message.  The call's ctx can be encoded and is within the serving core's ceiling; its id,
  of the caller's parity, is new to the serving core, which has room for another call and a frame.
  The handler grants no credit (\<open>h_Grant\<close> is absent), is pending when it is first polled, and then
  takes the bodies one by one and answers at the end of the stream (\<open>consumes\<close>).  If the items and
  the end are accepted by the caller's core, then what its drain hands over makes that handler
  take the bodies in order, and its response, drained and received, completes the call.\<close>

theorem upload_completes:
  assumes cl: "bare cl" "registry_ok (c_registry cl)" "MethodFor requestID (c_registry cl) = Some m"
      "m_Shape m = ShapeClientStream" "core_inv cl" "queue (c_outbox cl) k = []"
    and call: "Core_Call requestID body ctx options now cl = (Inr k, cl1)" "sends k bodies cl1 = Some cl2"
    and sv: "bare sv" "registry_ok (c_registry sv)" "\<not> Role_Allocates (Core_Role sv) k"
      "k |\<notin>| fmdom (c_inflight sv)" "int (map_len (c_inflight sv)) < MaxPending (c_config sv)"
      "EntryFor requestID (c_registry sv) = Some e" "e_Factory e = Some factory" "e_Method e = m"
      "HasRoom k (c_outbox sv)" "\<not> IsPlain (rg_voidID (c_registry sv)) (c_registry sv)"
      "rg_voidID (c_registry sv) = rg_voidID (c_registry cl)" "core_inv sv" "queue (c_outbox sv) k = []"
    and ctx: "ctx_ok (call_ctx ctx options)" "length (Ctx_Encode (call_ctx ctx options)) < 2 ^ 32"
      "int (length (Ctx_Encode (call_ctx ctx options))) \<le> MaxCtxLen (c_config sv)"
      "MaxCtxLen (c_config sv) < 2 ^ 63"
    and handler: "factory m body (c_world sv) = (Returned (Some h, None), w1)" "h_Grant h = None"
      "safePoll h t0 w1 = (Pending, w2)" "consumes h w2 (zip bodies ts) t1 reply w3" "length ts = length bodies"
  shows "\<exists>cl3 log sv' sv'' log'. Core_Drain (log_sink (\<lambda>_ _. True)) cl2 [] = Some (cl3, log)
    \<and> receives (zip (filter (frame_of k) log) (t0 # ts @ [t1])) sv = sv'
    \<and> Core_Drain (log_sink (\<lambda>_ _. True)) sv' [] = Some (sv'', log') \<and> k |\<notin>| fmdom (c_inflight sv'')
    \<and> (let cl4 = receives (zip (filter (frame_of k) log') [t2]) cl3
       in c_outcomes cl4 = c_outcomes cl
          @ [\<lparr>o_Kind = OutcomeResponse, o_Call = k, o_Body = reply, o_Status = None\<rparr>]
         \<and> k |\<notin>| fmdom (c_pending cl4))"
  using assms by (rule upload_call)

theorem upload_completes_witness:
  "\<exists>(cl2 :: bool world Core) cl3 log sv'' log'. Core_Drain (log_sink (\<lambda>_ _. True)) cl2 [] = Some (cl3, log)
    \<and> Core_Drain (log_sink (\<lambda>_ _. True))
        (receives (zip (filter (frame_of 0) log) [4, 5, 6, 7]) (upload_core RoleServer)) [] = Some (sv'', log')
    \<and> c_outcomes (receives (zip (filter (frame_of 0) log') [8]) cl3)
      = [\<lparr>o_Kind = OutcomeResponse, o_Call = 0, o_Body = [9], o_Status = None\<rparr>]"
proof -
  obtain cl1 cl2 where call: "Core_Call 5 [] None (Within (2 * Second)) 1000 (upload_core RoleClient) = (Inr 0, cl1)"
    "sends 0 [[1], [2]] cl1 = Some cl2" using upload_started by blast
  let ?e = "\<lparr>e_Method = upload, e_Factory = Some (\<lambda>_ _ w. (Returned (Some upload_handler, None), w))\<rparr>"
  have "\<exists>cl3 log sv' sv'' log'. Core_Drain (log_sink (\<lambda>_ _. True)) cl2 [] = Some (cl3, log)
    \<and> receives (zip (filter (frame_of 0) log) (4 # [5, 6] @ [7])) (upload_core RoleServer) = sv'
    \<and> Core_Drain (log_sink (\<lambda>_ _. True)) sv' [] = Some (sv'', log') \<and> 0 |\<notin>| fmdom (c_inflight sv'')
    \<and> (let cl4 = receives (zip (filter (frame_of 0) log') [8]) cl3
       in c_outcomes cl4 = c_outcomes (upload_core RoleClient)
          @ [\<lparr>o_Kind = OutcomeResponse, o_Call = 0, o_Body = [9], o_Status = None\<rparr>]
         \<and> 0 |\<notin>| fmdom (c_pending cl4))"
    by (rule upload_completes [where m = upload and e = ?e and factory = "\<lambda>_ _ w. (Returned (Some upload_handler, None), w)"
          and h = upload_handler and ?w1.0 = "flag False" and ?w2.0 = "flag False" and ?w3.0 = "flag True",
          OF _ _ _ _ upload_core_inv _ call])
      (simp_all add: upload_registry_ok upload_core_inv upload_handler_consumes sample_ctx [simplified] IsPlain_def
        Role_Allocates_def CallID_Even_def)
  then obtain cl3 log sv'' log' where "Core_Drain (log_sink (\<lambda>_ _. True)) cl2 [] = Some (cl3, log)"
    "Core_Drain (log_sink (\<lambda>_ _. True))
        (receives (zip (filter (frame_of 0) log) [4, 5, 6, 7]) (upload_core RoleServer)) [] = Some (sv'', log')"
    "c_outcomes (receives (zip (filter (frame_of 0) log') [8]) cl3)
      = [\<lparr>o_Kind = OutcomeResponse, o_Call = 0, o_Body = [9], o_Status = None\<rparr>]"
    by (auto simp: Let_def)
  then show ?thesis by (intro exI conjI)
qed

section \<open>The outbox\<close>

text \<open>C14 (safety). Order: whatever the sink accepts or rejects, the frames of a call that a drain hands
  over, followed by those it leaves queued, are the call's queue as it was, in order: no frame
  is lost, repeated or overtaken by another of its call.\<close>

theorem drain_keeps_order:
  assumes "Outbox_Drain (log_sink accept) b [] = Some (b', log)" and "tagged b"
  shows "filter (frame_of k) log @ queue b' k = queue b k"
  using assms by (rule Drain_handed_over)

theorem drain_keeps_order_witness:
  "\<exists>b' log. Outbox_Drain (log_sink (\<lambda>_ _. True)) (c_outbox (snd sample_call)) [] = Some (b', log)
    \<and> filter (frame_of 0) log @ queue b' 0 = queue (c_outbox (snd sample_call)) 0"
proof -
  have i: "core_inv (snd sample_call)" using reaches_accounted [OF sample_reaches accounted_new]
    by (simp add: accounted_def)
  then have "outbox_inv (c_outbox (snd sample_call))" "0 < ob_quantum (c_outbox (snd sample_call))"
    by (auto simp: core_inv_def config_ok_def outbox_limits_def)
  from Drain_returns [OF this, of "log_sink (\<lambda>_ _. True)" "[]"] obtain b' log where
    d: "Outbox_Drain (log_sink (\<lambda>_ _. True)) (c_outbox (snd sample_call)) [] = Some (b', log)" by metis
  have "tagged (c_outbox (snd sample_call))" using i by (simp add: core_inv_def)
  from d drain_keeps_order [OF d this] show ?thesis by blast
qed

section \<open>Types and specifications\<close>

text \<open>C15 (type). Outcomes are typed by methods.  In every core that a run reaches, each outcome that a
  received frame adds belongs to a pending call of a method of the registry and fits the shape
  of that method: a response only for a method that answers once, items and an end only for one
  that streams, and a status exactly with a failure.\<close>

theorem outcomes_typed:
  assumes "reaches (NewCore registry role config w) calls taken c"
    and "OnMessage messageID payload now c = (mine, c')"
  shows "\<exists>new. c_outcomes c' = c_outcomes c @ new \<and> (\<forall>x \<in> set new. \<exists>r requestID m.
    fmlookup (c_pending c) (o_Call x) = Some r \<and> MethodFor requestID (c_registry c) = Some m
    \<and> w_requestID r = m_RequestID m \<and> w_shape r = m_Shape m \<and> outcome_fits (m_Shape m) x)"
  using typed_OnMessage [OF assms(2)] reaches_calls_typed [OF assms(1) calls_typed_new]
  by (fastforce simp: typed_step_def reports_typed_def calls_typed_def call_typed_def)

theorem outcomes_typed_witness:
  "\<exists>new. c_outcomes (snd (OnMessage 2 [1, 0, 0, 0, 0, 9] 5 (snd sample_call))) = new
    \<and> (\<forall>x \<in> set new. \<exists>m :: Method. outcome_fits (m_Shape m) x)"
  using outcomes_typed [OF sample_reaches, of 2 "[1, 0, 0, 0, 0, 9]" 5
      "fst (OnMessage 2 [1, 0, 0, 0, 0, 9] 5 (snd sample_call))"
      "snd (OnMessage 2 [1, 0, 0, 0, 0, 9] 5 (snd sample_call))"]
  by (force simp: sample_call_facts)

text \<open>C16 (refinement). The outbox implements the mailbox.  Under the abstraction that forgets turns,
  totals and quantum, pushing, discarding, clearing and granting are the operations of the
  specification, credit saturating at the largest 32-bit number; and a drain is a run of its
  deliveries: whatever frames the sink accepts, the drain returns, and what it handed over is,
  each in turn, the oldest frame of some call or the credit of a call whose REQUEST does not
  wait, ending in the mailbox of the outbox that is left.\<close>

theorem outbox_refines_mailbox:
  assumes "outbox_inv b" and "0 < ob_quantum b"
  shows "fst (Push k f b) = fst (offer k f (abs_outbox b))
    \<and> abs_outbox (snd (Push k f b)) = snd (offer k f (abs_outbox b))
    \<and> abs_outbox (PushTerminal k f b) = post k f (abs_outbox b)
    \<and> abs_outbox (Discard k b) = forget k (abs_outbox b)
    \<and> abs_outbox (Clear b) = forget_all (abs_outbox b)
    \<and> abs_outbox (Outbox_Grant k m n b) = add_credit k m (unat n) (abs_outbox b)
    \<and> (\<exists>b' log. Outbox_Drain (log_sink accept) b [] = Some (b', log)
        \<and> delivers (abs_outbox b) log (abs_outbox b'))"
proof -
  have "\<exists>b' log. Outbox_Drain (log_sink accept) b [] = Some (b', log)
      \<and> delivers (abs_outbox b) log (abs_outbox b')"
    using Drain_returns [OF assms, of "log_sink accept" "[]"] Drain_delivers by metis
  then show ?thesis using abs_Push [OF assms(1), of k f]
    by (simp add: abs_PushTerminal abs_Discard abs_Clear abs_Grant prod_eq_iff)
qed

theorem outbox_refines_mailbox_witness:
  "abs_outbox (Outbox_Grant 2 12 5 (NewOutbox 4 16 1024)) = add_credit 2 12 5 (abs_outbox (NewOutbox 4 16 1024))
    \<and> (\<exists>b' log. Outbox_Drain (log_sink (\<lambda>_ log. length log < 3)) (NewOutbox 4 16 1024) [] = Some (b', log)
        \<and> delivers (abs_outbox (NewOutbox 4 16 1024)) log (abs_outbox b'))"
proof -
  have "0 < ob_quantum (NewOutbox 4 16 1024)" by (simp add: NewOutbox_def)
  from outbox_refines_mailbox [OF outbox_inv_new this, where k = 2 and m = 12 and n = 5] show ?thesis by simp
qed

text \<open>C17 (bounds). Turns are fair: a turn hands over the oldest frames of its call only, all but the
  last of them weigh less than the quantum, a call that keeps frames although the sink rejected
  none has sent its quantum, and it takes its next turn after all the others.\<close>

theorem turns_are_fair:
  assumes "drain_turn (log_sink accept) k turns b log = (rejected, b', log')"
  shows "\<exists>sent. log' = log @ sent \<and> queue b k = sent @ queue b' k
    \<and> (\<forall>j. j \<noteq> k \<longrightarrow> queue b' j = queue b j)
    \<and> (sent \<noteq> [] \<longrightarrow> weight (butlast sent) < ob_quantum b)
    \<and> (\<not> rejected \<longrightarrow> queue b' k \<noteq> [] \<longrightarrow> ob_quantum b \<le> weight sent)
    \<and> ob_turns b' = (if queue b' k \<noteq> [] then turns @ [k] else turns)"
  using assms by (rule drain_turn_fair)

theorem turns_are_fair_witness:
  "\<exists>rejected b' log' sent. drain_turn (log_sink (\<lambda>_ _. True)) 2 []
      (Outbox_append 2 \<lparr>og_MessageID = 1, og_Payload = [0]\<rparr> (NewOutbox 4 16 1024)) [] = (rejected, b', log')
    \<and> log' = sent \<and> [\<lparr>og_MessageID = 1, og_Payload = [0]\<rparr>] = sent @ queue b' 2"
proof -
  obtain rejected b' log' where d: "drain_turn (log_sink (\<lambda>_ _. True)) 2 []
      (Outbox_append 2 \<lparr>og_MessageID = 1, og_Payload = [0]\<rparr> (NewOutbox 4 16 1024)) [] = (rejected, b', log')"
    by (metis prod_cases3)
  from turns_are_fair [OF d] obtain sent where "log' = [] @ sent"
    "queue (Outbox_append 2 \<lparr>og_MessageID = 1, og_Payload = [0]\<rparr> (NewOutbox 4 16 1024)) 2 = sent @ queue b' 2"
    by (elim exE conjE)
  with d show ?thesis by (intro exI [of _ rejected] exI [of _ b'] exI [of _ log'] exI [of _ sent]) (simp add: queue_simps)
qed

section \<open>Sessions over sockets\<close>

text \<open>C18 (safety). The transport keeps the stream whole.  Over any run of sends on a socket that takes
  a part of what it is given at a time, and for as long as the transport has not failed, the
  bytes on the wire followed by the backlog are the accepted frames, whole and in the order in
  which they were sent.\<close>

theorem transport_keeps_order:
  assumes "honest_socket sys wire" and "send_all sys frames NewSocketTransport n = (taken, t', n')"
    and "\<not> t_closed t'"
  shows "wire n' @ t_backlog t' = wire n @ concat taken \<and> subseq taken frames"
  using send_all_sent [OF assms] send_all_subseq [OF assms(2)]
  by (simp add: sent_bytes_def NewSocketTransport_def)

theorem transport_keeps_order_witness:
  "\<exists>t' n'. send_all sample_sys [[1, 2, 3, 4, 5, 6]] NewSocketTransport (0, []) = ([[1, 2, 3, 4, 5, 6]], t', n')
    \<and> snd n' @ t_backlog t' = [1, 2, 3, 4, 5, 6]"
proof -
  have s: "send_all sample_sys [[1, 2, 3, 4, 5, 6]] NewSocketTransport (0, [])
      = ([[1, 2, 3, 4, 5, 6]], NewSocketTransport\<lparr>t_backlog := [5, 6]\<rparr>, (0, [1, 2, 3, 4]))"
    by (simp add: Transport_Send_def send_frame_def transport_write_def sample_sys_def NewSocketTransport_def)
  from transport_keeps_order [OF sample_honest s] s show ?thesis by (simp add: NewSocketTransport_def)
qed

text \<open>C19 (safety). A session answers for every call.  Whatever its connection reports between, as long
  as it does not report \<open>Ready\<close> after the end, closing the session completes the calls that are
  left, so that the outcomes taken over its life complete each call that was started once.\<close>

theorem session_completes_calls:
  assumes "NewSession net link schema registry role config w = (Inr s0, link')"
    and "session_reaches net s0 calls taken s"
  shows "mset calls = mset (terminals (taken @ fst (Session_TakeOutcomes (Session_Close net s))))"
proof -
  have "s_core s0 = NewCore registry role config w"
    using assms(1) by (auto simp: NewSession_def split: option.splits prod.splits)
  with session_reaches_ok [OF assms(2)] have "session_ok calls taken (s_core s)" by (simp add: session_ok_new)
  then show ?thesis by (rule Session_Close_completes)
qed

theorem session_completes_calls_witness:
  "mset [0] = mset (terminals (fst (Session_TakeOutcomes (Session_Close sample_net
    (sample_session\<lparr>s_core := snd sample_call\<rparr>)))))"
  using session_completes_calls [OF sample_NewSession sample_session_reaches] by simp

text \<open>C20 (bounds). A wait ends with the next deadline.  \<open>NextDeadline\<close> is the earliest of the deadlines of
  the pending calls and of the expiries of the running ones, and absent exactly if there is none;
  the timeout that a session gives to \<open>poll\<close> is never longer than the time to it, rounded up to a
  millisecond, so a tick expires a call in time; and it is not zero while that deadline is to come.\<close>

theorem wait_meets_deadline:
  "NextDeadline c = (let ds = {w_deadline r | k r. fmlookup (c_pending c) k = Some r \<and> w_deadline r \<noteq> 0}
      \<union> {nextExpiry r | k r. fmlookup (c_inflight c) k = Some r \<and> nextExpiry r \<noteq> 0}
    in if ds = {} then (0, False) else (Min ds, True))
  \<and> (NextDeadline c = (d, True) \<longrightarrow>
    poll_millis (wt_Timeout (Plan policy c congested now)) * Millisecond \<le> max (d - now) Millisecond
    \<and> (now < d \<longrightarrow> 0 < poll_millis (wt_Timeout (Plan policy c congested now))))"
proof (intro conjI impI)
  assume d: "NextDeadline c = (d, True)"
  show "poll_millis (wt_Timeout (Plan policy c congested now)) * Millisecond \<le> max (d - now) Millisecond"
    "now < d \<Longrightarrow> 0 < poll_millis (wt_Timeout (Plan policy c congested now))"
    using Plan_poll [OF d] Plan_timeout(5) [of c now policy congested] d poll_millis_bound by auto
qed (use NextDeadline_eq [of c] in \<open>simp add: deadlines_def Let_def\<close>)

theorem wait_meets_deadline_witness:
  "poll_millis (wt_Timeout (Plan DefaultWaitPolicy (snd sample_call) False 1999001000)) * 1000000 \<le> 2000000"
  using wait_meets_deadline [of "snd sample_call" 2000001000 DefaultWaitPolicy False 1999001000] sample_call_deadline
  by simp

text \<open>C21 (safety). A wait misses nothing.  If a core has no runnable work, the next deadline is to come, no
  handler grants credit of its own accord and no queue has been full for too long, then a tick
  polls no handler, completes and expires no call and queues no frame: it changes nothing but the
  note since when a queue is full.\<close>

theorem wait_misses_nothing:
  assumes "core_inv c" and "\<not> HasRunnableWork c" and "\<And>d. NextDeadline c = (d, True) \<Longrightarrow> now < d"
    and "\<And>k r. fmlookup (c_inflight c) k = Some r \<Longrightarrow>
      (CreditID (c_registry c) \<noteq> None \<longrightarrow> \<not> CallerStreams (r_shape r) \<or> r_inboundClosed r \<or> h_Grant (r_handler r) = None)
      \<and> (FullFor k (c_outbox c) \<longrightarrow> r_fullSince r = 0 \<or> Time_Sub now (r_fullSince r) < QueueFullLimit (c_config c))"
  shows "Tick now c = c\<lparr>c_inflight := fmmap_keys (\<lambda>k r.
    if HasRoom k (c_outbox c) then r\<lparr>r_fullSince := 0\<rparr>
    else if FullFor k (c_outbox c) \<and> r_fullSince r = 0 then r\<lparr>r_fullSince := now\<rparr> else r) (c_inflight c)\<rparr>"
  using Tick_idle [OF assms] by (simp add: note_full_def [abs_def])

theorem wait_misses_nothing_witness:
  "c_outcomes (Tick 5 sample_starved) = c_outcomes sample_starved
    \<and> c_world (Tick 5 sample_starved) = c_world sample_starved
    \<and> c_outbox (Tick 5 sample_starved) = c_outbox sample_starved"
proof -
  have 1: "\<not> HasRunnableWork sample_starved"
    by (simp add: HasRunnableWork_def list_ex_iff sample_starved_lookup sample_running_def starved_def CalleeStreams_def)
  have "deadlines sample_starved = {}"
    by (auto simp: deadlines_def sample_starved_lookup sample_running_def nextExpiry_def earlier_def Let_def
        split: if_splits)
  then have 2: "NextDeadline sample_starved = (0, False)" by (simp add: NextDeadline_eq)
  have 3: "Tick 5 sample_starved = sample_starved\<lparr>c_inflight := fmmap_keys (\<lambda>k r.
    if HasRoom k (c_outbox sample_starved) then r\<lparr>r_fullSince := 0\<rparr>
    else if FullFor k (c_outbox sample_starved) \<and> r_fullSince r = 0 then r\<lparr>r_fullSince := 5\<rparr> else r)
    (c_inflight sample_starved)\<rparr>"
    by (rule wait_misses_nothing [OF sample_starved_inv 1])
      (auto simp: 2 sample_starved_lookup sample_running_def split: if_splits)
  show ?thesis unfolding 3 by simp
qed

section \<open>Clients and servers\<close>

text \<open>C22 (liveness). A blocking client gets its answer.  For a call with a deadline that is pending or
  has an outcome waiting, and a clock that advances, \<open>Next\<close> returns: with an outcome of that
  call, or with an error of the wait itself, never with the error that there is none.\<close>

theorem next_outcome_returns:
  assumes "clock_advances net \<tau>" and "before_deadline D k c" and "D \<noteq> 0" and "answered_in k c"
  shows "\<exists>r c'. Next net k c = Some (r, c')
    \<and> (case r of Inr x \<Rightarrow> o_Call x = k | Inl e \<Rightarrow> \<exists>errno. e = ErrWait errno)"
  using Next_returns [OF assms(1-3)] assms(4) by (fastforce split: sum.splits)

theorem next_outcome_returns_witness:
  "\<exists>r c'. Next sample_net 0 sample_client = Some (r, c')"
  using next_outcome_returns [OF sample_clock sample_client_waits(1) _ sample_client_waits(2)] by auto

text \<open>C23 (termination). A server leaves no connection open.  Under a clock that advances, and if the
  server has been told to stop by some time \<open>T\<close>, the loop of a connection ends, whatever the peer does
  and whatever \<open>Configuring\<close> sets up, as long as it keeps the invariant of the core.  The rounds of
  the connection, taken by themselves, bring about \<open>made\<close>: after each tick, and after the close, the
  outcomes and plain messages that the session then holds.  What an observer that logs has seen
  of the connection is its opening, exactly these in their order, and its closing; no outcome or
  message is left in the session.\<close>

theorem connection_ends:
  assumes "clock_advances net \<tau>" and "\<And>link. T \<le> \<tau> (snd link) \<Longrightarrow> sv_stopped server link"
    and "sv_observer server = log_observer" and "configure_ok server"
    and "NewSession net link (sv_schema server) (sv_registry server) RoleServer (sv_config server) w
      = (Inr s, link')"
  shows "\<exists>s' made log'. serve net server k link w log = Some (Inr s', log')
    \<and> log' = log @ (k, Opened) # map (Pair k) made @ [(k, Closed)]
    \<and> alone net server k (ServeStart (Some link), w, log) made (ServeReturned (Some s'), get_world s', log')
    \<and> c_finished (s_core s') \<and> c_outcomes (s_core s') = [] \<and> s_plain s' = []"
  using assms by (rule serve_made)

theorem connection_ends_witness:
  "\<exists>s' made. serve sample_net sample_server 7 sample_link empty_world []
    = Some (Inr s', (7, Opened) # map (Pair 7) made @ [(7, Closed)])"
  using connection_ends [OF sample_clock, of 100 sample_server sample_link empty_world _ _ 7 "[]"]
    sample_accepts
  by (auto simp: sample_server_def configure_ok_def)

text \<open>C24 (safety). The book-keeping of a server, for every interleaving of its goroutines.  Connections have
  different ids, the wait group counts the goroutines that have not ended, and the observer has
  seen of each connection what its place allows: nothing before it is opened, then its
  opening, its outcomes and messages, and its closing last.  Once \<open>Run\<close> has returned and \<open>Wait\<close>
  returns, nothing changes and nothing is reported any more.\<close>

theorem server_observed:
  assumes "(server_step net server)\<^sup>*\<^sup>* (Start w []) s" and "configure_ok server"
    and "sv_observer server = log_observer" and "length (sr_conns s) < 2 ^ 64"
  shows "distinct (map fst (sr_conns s))
    \<and> sr_connections s = int (length (filter (\<lambda>(_, p). \<not> is_done p) (sr_conns s)))
    \<and> (\<forall>(k, p) \<in> set (sr_conns s). seen_at p (seen_of (unat k) (sr_observed s)))
    \<and> (sr_run s = RunReturned \<and> Wait_returns s \<longrightarrow> (\<forall>s'. (server_step net server)\<^sup>*\<^sup>* s s' \<longrightarrow>
        sr_conns s' = sr_conns s \<and> sr_observed s' = sr_observed s))"
proof -
  have i: "life_inv s" using life_inv_reaches [OF assms(1) life_inv_Start assms(2)] .
  have "logged (sr_conns s) (sr_observed s)" by (rule logged_reaches [OF assms])
  then have "\<forall>(k, p) \<in> set (sr_conns s). seen_at p (seen_of (unat k) (sr_observed s))"
    by (auto simp: logged_def)
  moreover have "distinct (map fst (sr_conns s))"
    using i distinct_conn_ids [OF assms(4)] by (simp add: life_inv_def)
  moreover have "sr_connections s = int (length (filter (\<lambda>(_, p). \<not> is_done p) (sr_conns s)))"
    using i by (simp add: life_inv_def open_conns_length)
  ultimately show ?thesis using all_done_steps [OF _ i] by blast
qed

theorem server_observed_witness:
  "sr_connections sample_overtaken = 1 \<and> seen_of 1 (sr_observed sample_overtaken) = [Opened]"
proof -
  have "configure_ok sample_server" "sv_observer sample_server = log_observer"
    "length (sr_conns sample_overtaken) < 2 ^ 64"
    by (simp_all add: sample_server_def configure_ok_def sample_overtaken_def)
  from server_observed [OF rtranclp_trans [OF sample_stopped_reached sample_overtaken_reached] this]
  show ?thesis by (simp add: sample_overtaken_def seen_of_def)
qed

text \<open>C25 (termination). A stopped server comes to its end.  Once the flag is set, at most \<open>steps_left\<close> more
  steps are possible, whatever connections and peers do.  A run that can go no further, with
  fewer than 2^64 connections, has left \<open>Run\<close>, has closed the listener, does not block \<open>Wait\<close>, and
  every connection that was opened has been closed, its core finished and empty.  What the ticks
  and closes of all connections brought about in the whole run (\<open>made\<close>, then \<open>later\<close>), each outcome
  and message with its connection, is what the observer was told between the openings and
  closings, in the same order.\<close>

theorem stopped_server_ends:
  assumes "history net server (Start w []) made s" and "configure_ok server"
    and "sv_observer server = log_observer" and "sr_stopped s"
  shows "(\<forall>n s'. (server_step net server ^^ n) s s' \<longrightarrow> n \<le> steps_left s)
    \<and> (\<forall>later s'. history net server s later s' \<and> (\<nexists>s''. server_step net server s' s'')
        \<and> length (sr_conns s') < 2 ^ 64 \<longrightarrow>
      sr_run s' = RunReturned \<and> \<not> sr_listening s' \<and> Wait_returns s'
      \<and> (\<forall>x \<in> set (sr_conns s'). cleared (sr_observed s') x)
      \<and> filter (\<lambda>x. snd x \<noteq> Opened \<and> snd x \<noteq> Closed) (sr_observed s') = made @ later)"
proof (rule conjI; intro allI impI)
  fix n s' assume "(server_step net server ^^ n) s s'"
  from stopped_steps [OF this assms(4)] show "n \<le> steps_left s" by simp
next
  fix later s' assume e: "history net server s later s' \<and> (\<nexists>s''. server_step net server s' s'')
      \<and> length (sr_conns s') < 2 ^ 64"
  note run = history_trans [OF conjunct1 [OF e] assms(1)]
  have "sr_stopped s'"
    using history_reaches [OF conjunct1 [OF e]] assms(4) stopped_steps by (metis rtranclp_imp_relpowp)
  with e stopped_run [OF history_reaches [OF run] assms(2,3)] history_seen [OF run assms(3)]
  show "sr_run s' = RunReturned \<and> \<not> sr_listening s' \<and> Wait_returns s'
      \<and> (\<forall>x \<in> set (sr_conns s'). cleared (sr_observed s') x)
      \<and> filter (\<lambda>x. snd x \<noteq> Opened \<and> snd x \<noteq> Closed) (sr_observed s') = made @ later"
    by (simp add: noted_in_def Start_def)
qed

theorem stopped_server_ends_witness:
  "{n. \<exists>s'. (server_step sample_net sample_server ^^ n) sample_overtaken s'} \<subseteq> {..4}"
proof -
  obtain made where "history sample_net sample_server (Start empty_world []) made sample_overtaken"
    using reached_history [OF rtranclp_trans [OF sample_stopped_reached sample_overtaken_reached]] .
  moreover have "configure_ok sample_server" "sv_observer sample_server = log_observer" "sr_stopped sample_overtaken"
    "steps_left sample_overtaken = 4"
    by (simp_all add: sample_server_def configure_ok_def sample_overtaken_def sample_stopped_def steps_left_def)
  ultimately show ?thesis using stopped_server_ends by fastforce
qed

section \<open>The demo and its generated code\<close>

text \<open>C26 (termination). The checks of the demo end.  Whatever the server answers, and even if it never
  does, \<open>Drive\<close> returns under a clock that advances: each of its eleven checks has run to its end on
  the client that the one before left; there is one line of the log for each, in their order, a
  panic inside a check being the text of a failed one, and the result is the number of checks
  that failed.\<close>

theorem drive_returns:
  assumes "clock_advances net \<tau>" and "running \<tau> c"
  shows "\<exists>rs c'. ran (checks upper unmarshal net) c rs c' \<and> running \<tau> c'
    \<and> Drive upper unmarshal net c = Some ((int (length (filter (\<lambda>r. problem_of r \<noteq> None) rs)),
        map2 check_line check_names (map problem_of rs)), c')"
  using assms by (rule Drive_lines)

theorem drive_returns_witness:
  "\<exists>rs c'. Drive (\<lambda>s. s) (\<lambda>_. Inl ''no document'') sample_net sample_client = Some
      ((int (length (filter (\<lambda>r. problem_of r \<noteq> None) rs)),
        map2 check_line check_names (map problem_of rs)), c')"
  using drive_returns [OF sample_clock sample_client_running] by blast

text \<open>C27 (equivalence). The two codecs of the ctx block agree.  The package's own writer and the
  generated one produce the same bytes, and on every input, malformed ones included, the
  package's reader and the generated one yield the same fields and fail together.\<close>

theorem ctx_codecs_agree:
  "wr_buf (FRpcCtx_Encode m NewWriter) = Ctx_Encode (ctx_of m)
    \<and> (case FRpcCtx_Decode (NewReader b) zero_FRpcCtx of (err, _, m) \<Rightarrow>
         fst (DecodeCtx b) = ctx_of m \<and> (snd (DecodeCtx b) = None \<longleftrightarrow> err = None))"
  by (intro conjI Ctx_Encode_generated agree_DecodeCtx)

text \<open>C28 (roundtrip). Reflection is read by generated clients: the answer that the package writes for a
  list of methods decodes, in the generated codec, to those methods and the schema.\<close>

theorem reflection_is_read:
  assumes "length ms < 2 ^ 32" and "\<forall>m \<in> set ms. string_ok (m_Name m)" and "length schema < 2 ^ 32"
  shows "\<exists>r. FRpcReflectResponse_Decode (NewReader (EncodeReflectResponse ms schema)) m0
    = (None, r, \<lparr>FRpcReflectResponse_Methods = map info_of ms, FRpcReflectResponse_SchemaJson = schema\<rparr>)"
  using reflection_read_back [of ms schema m0] assms by (simp add: fits_u32_def list_all_iff)

theorem reflection_is_read_witness:
  "\<exists>r. FRpcReflectResponse_Decode (NewReader (EncodeReflectResponse [echo] [123, 125])) zero_FRpcReflectResponse
    = (None, r, \<lparr>FRpcReflectResponse_Methods = [info_of echo], FRpcReflectResponse_SchemaJson = [123, 125]\<rparr>)"
proof -
  have "string_ok (m_Name echo)"
    by (simp add: echo_def Unary_def zero_Method_def string_ok_def fits_u32_def bytes_of_string_def valid_string_def
        utf8_valid_ascii)
  then show ?thesis using reflection_is_read [of "[echo]" "[123, 125]" zero_FRpcReflectResponse] by simp
qed

text \<open>C29 (functional). The handshake refuses exactly conflicts.  Under another schema fingerprint, a table
  is accepted as outdated iff each of its entries for a message of this schema accords with it:
  it has the fingerprint here, or declares no fields, or is for a message without fields here,
  or declares no more fields than are here and has the fingerprint of that many first fields.
  It is rejected iff an entry declares between one and all the fields here under a fingerprint
  that is not theirs.  In all other cases, where some entry declares more fields than a message
  here that has fields, and none is in conflict, more has to be known of the peer.\<close>

theorem handshake_refuses_conflicts:
  assumes "fp \<noteq> FomoxaSchemaFingerprint"
  shows "(FomoxaHandshakeCompare fp peers = FomoxaOutdated \<longleftrightarrow>
      (\<forall>p \<in> set peers. \<forall>m \<in> set FomoxaMessages. fm_ID m = pm_ID p \<longrightarrow>
        pm_Fingerprint p = fm_Fingerprint m \<or> pm_FieldCount p = 0 \<or> fm_Prefixes m = []
        \<or> (unat (pm_FieldCount p) \<le> length (fm_Prefixes m)
            \<and> fm_Prefixes m ! (unat (pm_FieldCount p) - 1) = pm_Fingerprint p)))
    \<and> (FomoxaHandshakeCompare fp peers = FomoxaReject \<longleftrightarrow>
      (\<exists>p \<in> set peers. \<exists>m \<in> set FomoxaMessages. fm_ID m = pm_ID p
        \<and> pm_Fingerprint p \<noteq> fm_Fingerprint m
        \<and> 0 < unat (pm_FieldCount p) \<and> unat (pm_FieldCount p) \<le> length (fm_Prefixes m)
        \<and> fm_Prefixes m ! (unat (pm_FieldCount p) - 1) \<noteq> pm_Fingerprint p))
    \<and> FomoxaHandshakeCompare fp peers \<in> {FomoxaOutdated, FomoxaReject, FomoxaNeedMore}"
proof -
  have e: "FomoxaHandshakeCompare fp peers = compare_messages peers False"
    using assms by (simp add: FomoxaHandshakeCompare_def)
  have "compare_messages peers False \<in> {FomoxaOutdated, FomoxaReject, FomoxaNeedMore}"
    using compare_not_current by (cases "compare_messages peers False") auto
  then show ?thesis unfolding e conflicts_def [symmetric] accords_def [symmetric]
    by (simp add: compare_iff check_result_iff accords_iff)
qed

theorem handshake_refuses_conflicts_witness:
  "FomoxaHandshakeCompare 1 [\<lparr>pm_ID = ChatHeardRpcMessageID, pm_FieldCount = 1, pm_Fingerprint = 2\<rparr>] = FomoxaReject"
  using handshake_refuses_conflicts [of 1 "[\<lparr>pm_ID = ChatHeardRpcMessageID, pm_FieldCount = 1, pm_Fingerprint = 2\<rparr>]"]
  by (simp add: FomoxaSchemaFingerprint_def FomoxaMessages_def conflicts_def message_ids fingerprints prefixes)

text \<open>C30 (functional). \<open>Echo.Count\<close> counts.  Between the cores of the demo, a call of a count that a queue
  holds gives the application the items 1 to that count, in order, and the end.\<close>

theorem count_delivers:
  assumes "DriverRegistry = Returned ours" and "ResponderRegistry upper schema reflection = Returned theirs"
    and "n \<le> 63"
    and "length ts = Suc (unat n)"
  shows "\<exists>cl request sv sv' log.
    Core_Call CountRequestID (EncodeCount n) None WithoutDeadline now (demo_core RoleClient ours) = (Inr 0, cl)
    \<and> queue (c_outbox cl) 0 = [request]
    \<and> OnMessage (og_MessageID request) (og_Payload request) t0 (demo_core RoleServer theirs) = (True, sv)
    \<and> Core_Drain (log_sink (\<lambda>_ _. True)) sv [] = Some (sv', log)
    \<and> c_outcomes (receives (zip (filter (frame_of 0) log) ts) cl)
      = map (\<lambda>i. item_outcome 0 (EncodeCountItem (word_of_nat i))) [1..<Suc (unat n)] @ [end_outcome 0]"
  using assms(3-) by (rule demo_count [OF driver_okI [OF assms(1)] responder_okI [OF assms(2)]])

theorem count_delivers_witness:
  "\<exists>ours (cl :: demo_world Core) log. DriverRegistry = Returned ours
    \<and> c_outcomes (receives (zip (filter (frame_of 0) log) [7, 8, 9]) cl)
      = [item_outcome 0 (EncodeCountItem 1), item_outcome 0 (EncodeCountItem 2), end_outcome 0]"
proof -
  obtain ours theirs where "DriverRegistry = Returned ours"
    "ResponderRegistry (\<lambda>s. s) [] True = Returned theirs"
    using DriverRegistry_ok ResponderRegistry_ok by blast
  moreover have "(2 :: u32) \<le> 63" "length [7, 8, 9 :: gotime] = Suc (unat (2 :: u32))" by simp_all
  moreover have "map (\<lambda>i. item_outcome 0 (EncodeCountItem (word_of_nat i))) [1..<Suc (unat (2 :: u32))]
      = [item_outcome 0 (EncodeCountItem 1), item_outcome 0 (EncodeCountItem 2)]"
    by (simp add: upt_rec)
  ultimately show ?thesis using count_delivers [of ours "\<lambda>s. s" "[]" True theirs 2 "[7, 8, 9]" 5 6] by auto
qed

text \<open>C31 (functional). \<open>Blob.Upload\<close> summarises.  Between the cores of the demo, an upload of chunks of
  positive sizes that a queue holds is answered with their number and their sum as a 32-bit
  number.\<close>

theorem upload_summarised:
  assumes "DriverRegistry = Returned ours" and "ResponderRegistry upper schema reflection = Returned theirs"
    and "\<forall>c \<in> set chunks. c \<noteq> 0" and "length chunks \<le> 62" and "length ts = length chunks"
    and "int (length (EncodeUploadOpen name)) \<le> MaxBodyCeiling"
  shows "\<exists>cl1 cl2 cl3 log sv log'.
    Core_Call UploadOpenID (EncodeUploadOpen name) None WithoutDeadline now (demo_core RoleClient ours) = (Inr 0, cl1)
    \<and> sends 0 (map EncodeChunk chunks) cl1 = Some cl2
    \<and> Core_Drain (log_sink (\<lambda>_ _. True)) cl2 [] = Some (cl3, log)
    \<and> Core_Drain (log_sink (\<lambda>_ _. True))
        (receives (zip (filter (frame_of 0) log) (t0 # ts @ [t1])) (demo_core RoleServer theirs)) [] = Some (sv, log')
    \<and> c_outcomes (receives (zip (filter (frame_of 0) log') [t2]) cl3)
      = [\<lparr>o_Kind = OutcomeResponse, o_Call = 0, o_Body = EncodeDone (fmt_d (length chunks) @ '' chunks, ''
          @ fmt_d (unat (sum_list chunks)) @ '' bytes''), o_Status = None\<rparr>]"
  using assms(3-) by (rule demo_upload [OF driver_okI [OF assms(1)] responder_okI [OF assms(2)]])

theorem upload_summarised_witness:
  "\<exists>(cl :: demo_world Core) log. c_outcomes (receives (zip (filter (frame_of 0) log) [8]) cl)
    = [\<lparr>o_Kind = OutcomeResponse, o_Call = 0, o_Body = EncodeDone ''2 chunks, 5120 bytes'', o_Status = None\<rparr>]"
proof -
  obtain ours theirs where r: "DriverRegistry = Returned ours"
    "ResponderRegistry (\<lambda>s. s) [] True = Returned theirs"
    using DriverRegistry_ok ResponderRegistry_ok by blast
  have name: "int (length (EncodeUploadOpen ''raw'')) \<le> MaxBodyCeiling"
    by (simp add: EncodeUploadOpen_def encode_def Writer_Bytes_def UploadOpen_Encode_def NewWriter_def
        WriteString_def WriteU32_def append_bytes_def bytes_of_string_def MaxBodyCeiling_def HeaderLen_def)
  have "fmt_d 2 = ''2''" "fmt_d 5120 = ''5120''" "unat (sum_list [4096, 1024 :: u32]) = 5120"
    by (simp_all add: fmt_d.simps digit_def)
  then have summary: "fmt_d (length [4096, 1024 :: u32]) @ '' chunks, '' @ fmt_d (unat (sum_list [4096, 1024 :: u32]))
      @ '' bytes'' = ''2 chunks, 5120 bytes''" by (simp add: numeral_2_eq_2)
  have chunks: "\<forall>c \<in> set [4096, 1024 :: u32]. c \<noteq> 0" "length [4096, 1024 :: u32] \<le> 62"
    "length [5, 6 :: gotime] = length [4096, 1024 :: u32]" by simp_all
  from upload_summarised [OF r chunks name, of 3 4 7 8] show ?thesis unfolding summary by (elim exE conjE) (intro exI)
qed

text \<open>C32 (error). The tool's exit codes.  The registries of the demo use only messages that its schema
  declares, so both commands get as far as the network; \<open>drive\<close> ends whatever the server does, with 1
  and the error if it cannot dial or connect, and else with 0 exactly if every check passed,
  after one line for each; \<open>serve\<close> ends with 1 exactly if it cannot listen; \<open>frames\<close> prints the
  recorded conversation; and a command line of another length is answered with the usage and 64.\<close>

theorem tool_exits:
  assumes "clock_advances net \<tau>" and "keeps_ids newSchema" and "NetSchema newSchema = Returned schema"
    and "\<And>transport. dial address (5 * Second) = Inr transport
      \<Longrightarrow> 0 \<le> \<tau> (snd (snd (net_New net True transport)))"
  shows "\<exists>registry. DriverRegistry = Returned registry \<and> RequireDeclared registry schema = None
    \<and> (let serve_at = \<lambda>a. Some (tool_serve newSchema upper json resolve listen addr a);
           drive_at = tool_drive upper unmarshal net newSchema dial reason;
           tool = run_tool serve_at drive_at (tool_frames upper json) in
      (case dial address (5 * Second) of
         Inl err \<Rightarrow> tool [''drive'', address] = Some (Exited 1 [] [err])
       | Inr transport \<Rightarrow> (\<exists>r. Connect net transport schema registry (5 * Second) zero_Config
             zero_WaitPolicy zero_world = Some r
           \<and> (case r of
               Inr (None, client) \<Rightarrow> \<exists>rs c'. ran (checks upper unmarshal net) client rs c'
                 \<and> tool [''drive'', address] = Some (verdict rs)
             | Inr (Some err, _) \<Rightarrow> tool [''drive'', address] = Some (Exited 1 [] [reason err])
             | Inl (err, _) \<Rightarrow> tool [''drive'', address] = Some (Exited 1 [] [reason err]))))
      \<and> tool [''serve'', address] = Some (case resolve address of
           Inl err \<Rightarrow> Exited 1 [] [err]
         | Inr resolved \<Rightarrow> (case listen resolved of Inl err \<Rightarrow> Exited 1 [] [err]
             | Inr listener \<Rightarrow> Exited 0 [''listening '' @ addr listener] []))
      \<and> tool [''frames''] = Some (Exited 0 recorded_frames [])
      \<and> (\<forall>args. length args \<notin> {1, 2} \<longrightarrow> tool args = Some (Exited 64 [] [usage])))"
proof -
  obtain registry where r: "DriverRegistry = Returned registry" "RequireDeclared registry schema = None"
    using demo_declared(1) [OF assms(2,3)] by (elim exE conjE)
  have drive: "run_tool s d f [''drive'', address] = d address" and serve: "run_tool s d f [''serve'', address] = s address"
    and frames: "run_tool s d f [''frames''] = f" for s d f by (simp_all add: run_tool_def)
  have other: "\<forall>args. length args \<notin> {1, 2} \<longrightarrow> run_tool s d f args = Some (Exited 64 [] [usage])" for s d f
    by (simp add: run_tool_def)
  have printed: "tool_frames upper json = Some (Exited 0 recorded_frames [])"
    by (simp only: tool_frames_def Frames_recorded option.case attempt.case)
  show ?thesis unfolding Let_def drive serve frames printed
    by (intro exI [of _ registry] conjI r other refl tool_drive_ends [OF assms(1) r(1) assms(4,3)]
        arg_cong [of _ _ Some, OF tool_serve_ends [OF assms(2,3)]])
qed

theorem tool_exits_witness:
  "\<exists>code out err. run_tool (\<lambda>_. None) (tool_drive (\<lambda>s. s) (\<lambda>_. Inl ''no document'') sample_net sample_newSchema
      (\<lambda>_ _. Inr sample_link) (\<lambda>_. ''no session'')) None [''drive'', ''localhost:1''] = Some (Exited code out err)"
proof -
  obtain schema where "NetSchema sample_newSchema = Returned schema" using sample_newSchema_ok(2) by blast
  note exits = tool_exits [OF sample_clock sample_newSchema_ok(1) this, of "\<lambda>_ _. Inr sample_link" "''localhost:1''"
      "\<lambda>s. s" "[]" "\<lambda>_. Inl ''a''" "\<lambda>_. Inl ''b''" "\<lambda>_. ''c''" "\<lambda>_. Inl ''no document''" "\<lambda>_. ''no session''"]
  have "0 \<le> fst (snd (snd (net_New sample_net True transport)))"
    if "Inr sample_link = (Inr transport :: string + net_state link)" for transport
    using that by (auto simp: sample_net_def sample_link_def)
  note exits = exits [OF this]
  have "\<exists>code out err. verdict rs = Exited code out err" for rs by (simp add: verdict_def Let_def)
  with exits show ?thesis
    apply (simp add: Let_def run_tool_def)
    apply (elim exE conjE)
    subgoal for registry r by (cases r rule: connect_cases) (auto simp: run_tool_def)
    done
qed

section \<open>Frames, blocks and statuses\<close>

text \<open>C33 (roundtrip). The frame format is read back exactly and is unambiguous.  A payload decodes to a
  frame if and only if it is the encoding of that frame, the header being one of the seven kinds
  with a ctx block only on a request, and the ctx fitting the ceiling, whatever bytes the body
  holds.\<close>

theorem frames_read_back:
  assumes "0 \<le> limit" and "limit < 2 ^ 63"
  shows "Decode payload limit = Inr q \<longleftrightarrow> header_ok (p_Header q) \<and> ctx_fits (p_Header q) (p_Ctx q) limit
    \<and> payload = Encode (p_Header q) (p_Ctx q) (p_Body q)"
  using assms by (rule Decode_iff)

theorem frames_read_back_witness:
  "Decode (Encode \<lparr>hdr_Kind = KindRequest, hdr_Call = 6, hdr_Compressed = True, hdr_HasCtx = True\<rparr>
      [1, 2, 3] [9, 9]) 4096
    = Inr \<lparr>p_Header = \<lparr>hdr_Kind = KindRequest, hdr_Call = 6, hdr_Compressed = True, hdr_HasCtx = True\<rparr>,
       p_Ctx = [1, 2, 3], p_Body = [9, 9]\<rparr>"
  by (subst frames_read_back) (simp_all add: header_ok_def ctx_fits_def)

text \<open>C34 (roundtrip). A ctx block is read across versions: a block that holds only the first \<open>n\<close> of the
  fields is read with the others at their zero values, and bytes that a newer peer appends
  after the last field are ignored.\<close>

theorem ctx_block_across_versions:
  assumes "ctx_ok c"
  shows "DecodeCtx (concat (take n (ctx_fields c)) @ (if 7 \<le> n then extra else []))
      = (\<lparr>DeadlineMs = (if 1 \<le> n then DeadlineMs c else 0),
          TraceID = (if 2 \<le> n then TraceID c else []), SpanID = (if 3 \<le> n then SpanID c else []),
          Token = (if 4 \<le> n then Token c else []), Tenant = (if 5 \<le> n then Tenant c else []),
          IdempotencyKey = (if 6 \<le> n then IdempotencyKey c else []),
          InitialCredit = (if 7 \<le> n then InitialCredit c else 0)\<rparr>, None)
    \<and> Ctx_Encode c = concat (ctx_fields c)"
  using DecodeCtx_block [OF assms, of n extra] Ctx_Encode_concat [of c]
  by (simp add: ctx_block_def ctx_upto_def)

theorem ctx_block_across_versions_witness:
  "DecodeCtx [5, 0, 0, 0] = (WithDeadlineMs 5, None)"
  using ctx_block_across_versions [of "WithDeadlineMs 5" 1 "[]"]
  by (simp add: WithDeadlineMs_def zero_Ctx_def ctx_ok_def fits_u32_def string_ok_def ctx_fields_def
      u32_field_def PutUint32_def)

section \<open>Call ids, registry and authorization\<close>

text \<open>C35 (safety). An allocated call id is of the allocator's parity and not in use, and allocation
  fails only if every one of the ids of that parity is in use.\<close>

theorem allocate_correct:
  assumes "allocator_ok a" and "Allocate inUse a = (r, a')"
  shows "case r of Some c \<Rightarrow> Role_Allocates (al_role a) c \<and> \<not> inUse c \<and> allocator_ok a'
    | None \<Rightarrow> \<forall>c. Role_Allocates (al_role a) c \<longrightarrow> inUse c"
  using Allocate_Some [of inUse a _ a'] Allocate_None_iff [of a inUse] assms by (cases r) auto

theorem allocate_correct_witness:
  "Role_Allocates RoleServer 3"
  using allocate_correct [of "NewCallIDAllocator RoleServer" "\<lambda>c. c = 1" "Some 3"
      "\<lparr>al_role = RoleServer, al_next = 5\<rparr>"]
  by (simp add: allocator_ok_new) (simp add: NewCallIDAllocator_def Allocate_def max_attempt_def
      allocate_loop.simps)

text \<open>C36 (equivalence). \<open>Build\<close> succeeds exactly if the methods, with the one of a reflection, are
  within the ceiling, no two share a request id, and no id of a method is a plain id or an id
  of a system model.\<close>

theorem build_succeeds_iff:
  "(\<exists>r. Build b = Inr r) \<longleftrightarrow> length (all_entries b) \<le> MaxMethods
     \<and> distinct (map (\<lambda>e. m_RequestID (e_Method e)) (all_entries b))
     \<and> (\<forall>e \<in> set (all_entries b). \<forall>i \<in> set (MessageIDs (e_Method e)).
          i \<notin> b_plainIDs b \<and> i \<noteq> b_voidID b \<and> i \<noteq> b_errorID b
          \<and> \<not> (b_hasCredit b \<and> i = b_creditID b))"
  unfolding Build_Inr_iff ids_free_def disjoint_iff entry_ids_def system_ids_iff request_id_def [abs_def]
  by blast

theorem build_succeeds_iff_witness:
  "\<exists>r. Build (Declare echo (NewRegistry 10 11) :: unit world RegistryBuilder) = Inr r"
  unfolding build_succeeds_iff
  by (simp add: Declare_def NewRegistry_def all_entries_def MaxMethods_def echo_def Unary_def zero_Method_def
      MessageIDs_def)

text \<open>C37 (safety). Authorization admits a call of an identified session only if the session holds the
  permission that the method requires, and the call runs with permissions that its session
  holds: with all of them if it acts for no other identity.  A call that comes to act for another
  identity does so because delegation is allowed and the verifier gave that identity, whose
  principal is not the session's, for the token of the call; if its permissions are in order, as
  \<open>NewIdentity\<close> leaves them, the call runs with exactly those that both hold, and the identity it
  acts for holds the required one too.\<close>

theorem authorization_sound:
  assumes "Authorization_Inbound a context = (None, context')"
    and "cc_Session context = Some session" and "identity_ok session" and "cc_OnBehalfOf context = None"
  shows "set (cc_Permissions context') \<subseteq> set (id_Permissions session)
    \<and> (m_Permission (cc_Method context) \<noteq> [] \<longrightarrow>
        m_Permission (cc_Method context) \<in> set (cc_Permissions context'))
    \<and> (cc_OnBehalfOf context' = None \<longrightarrow> cc_Permissions context' = id_Permissions session)
    \<and> (\<forall>presented. cc_OnBehalfOf context' = Some presented \<and> identity_ok presented \<longrightarrow>
        au_allowDelegation a \<and> id_Principal presented \<noteq> id_Principal session
        \<and> (\<exists>verifier. au_verifier a = Some verifier \<and> verifier (Token (cc_Ctx context)) = Some presented)
        \<and> set (cc_Permissions context') = set (id_Permissions session) \<inter> set (id_Permissions presented)
        \<and> (m_Permission (cc_Method context) \<noteq> [] \<longrightarrow>
            m_Permission (cc_Method context) \<in> set (id_Permissions presented)))"
proof -
  note delegates = Authorization_delegates [OF assms(1,2,4)]
  from Authorization_sound [OF assms(1-3)] show ?thesis
    using delegates by (auto simp: NarrowedBy_set)
qed

theorem authorization_sound_witness:
  "\<exists>context'. Authorization_Inbound
      (AllowingDelegation (Verifying (\<lambda>_. Some (NewIdentity ''bob'' [''read'', ''write''])) NewAuthorization))
      (newCallContext 6 (Requiring ''read'' echo) 0 (zero_Ctx\<lparr>Token := ''t''\<rparr>)
        (Some (NewIdentity ''ann'' [''admin'', ''read''])) SenderCallee) = (None, context')
    \<and> set (cc_Permissions context') = {''read''}"
proof -
  let ?ann = "NewIdentity ''ann'' [''admin'', ''read'']" and ?bob = "NewIdentity ''bob'' [''read'', ''write'']"
  let ?a = "AllowingDelegation (Verifying (\<lambda>_. Some ?bob) NewAuthorization)"
    and ?c = "newCallContext 6 (Requiring ''read'' echo) 0 (zero_Ctx\<lparr>Token := ''t''\<rparr>) (Some ?ann) SenderCallee"
  have "''read'' \<in> set (NarrowedBy ?ann ?bob)" by (simp add: NarrowedBy_set [OF identity_ok_new])
  moreover have "id_Principal ?ann = ''ann''" "id_Principal ?bob = ''bob''" by (simp_all add: NewIdentity_def)
  ultimately have "Authorization_Inbound ?a ?c
      = (None, ?c\<lparr>cc_Permissions := NarrowedBy ?ann ?bob, cc_OnBehalfOf := Some ?bob\<rparr>)"
    by (simp add: Authorization_Inbound_def newCallContext_def Requiring_def AllowingDelegation_def Verifying_def
        NewAuthorization_def require_permission_def Permits_sorted NarrowedBy_sorted [OF identity_ok_new])
  with authorization_sound [OF this _ identity_ok_new] identity_ok_new [of "''bob''" "[''read'', ''write'']"]
  show ?thesis by (simp add: newCallContext_def)
qed

text \<open>C38 (safety). An onward call made from within a call that has a deadline takes along the trace id,
  the span id and the tenant, but no credential, key or credit, and its budget, which is not
  zero, ends no later than that deadline.\<close>

theorem onward_call_bounded:
  assumes "OnwardCtx c now = Some ctx" and "cc_Deadline c \<noteq> 0"
  shows "Token ctx = [] \<and> IdempotencyKey ctx = [] \<and> InitialCredit ctx = 0 \<and> Tenant ctx = Tenant (cc_Ctx c)
    \<and> TraceID ctx = TraceID (cc_Ctx c) \<and> SpanID ctx = SpanID (cc_Ctx c)
    \<and> 0 < DeadlineMs ctx \<and> now + int (unat (DeadlineMs ctx)) * Millisecond \<le> cc_Deadline c"
proof -
  have o: "RemainingMs c now = (DeadlineMs ctx, True)" "DeadlineMs ctx \<noteq> 0"
    using assms by (auto simp: OnwardCtx_def RemainingMs_def CallContext_HasDeadline_def Let_def
        zero_Ctx_def split: if_splits)
  then have "now \<le> cc_Deadline c"
    by (auto simp: RemainingMs_def Let_def Time_Sub_def min_i64_def max_i64_def split: if_splits)
  from RemainingMs_bound [OF o(1) this] OnwardCtx_carries [OF assms(1)] o(2) show ?thesis
    by (simp add: word_neq_0_conv)
qed

theorem onward_call_bounded_witness:
  "1000000 + int (unat (DeadlineMs (the (OnwardCtx (sample_context\<lparr>cc_Deadline := 6000000\<rparr>) 1000000))))
    * 1000000 \<le> 6000000"
  using onward_call_bounded [of "sample_context\<lparr>cc_Deadline := 6000000\<rparr>" 1000000
      "the (OnwardCtx (sample_context\<lparr>cc_Deadline := 6000000\<rparr>) 1000000)"]
  by (simp add: OnwardCtx_def RemainingMs_def CallContext_HasDeadline_def Time_Sub_def min_i64_def
      max_i64_def Milliseconds_def zero_Ctx_def)

section \<open>Retries and compression\<close>

text \<open>C39 (equivalence). A retry is offered exactly for a unary call whose status the policy retries, for
  an unknown outcome only if the method says that repeating it is safe, while attempts are
  left, and if the backoff ends before the deadline.\<close>

theorem retry_offered_iff:
  "rd_Retry (fst (OnFailure policy status m now s)) \<longleftrightarrow>
    m_Shape m = ShapeUnary \<and> retryable_code policy (st_Code status)
    \<and> \<not> (st_Code status = CodeUnavailable \<and> m_RetrySafety m = RetryUnsafe)
    \<and> rs_attempt s < rp_MaxAttempts policy
    \<and> (rs_deadline s = 0 \<or> now + BackoffFor policy (rs_attempt s) < rs_deadline s)"
  using OnFailure_retry_iff [of policy status m now s] by (auto simp: SurvivesUnknownOutcome_def)

text \<open>C40 (roundtrip). Compression is transparent.  Between cores with the same compressor over a library
  that is lossless, the body of a RESPONSE, ITEM or ERROR frame is inflated to the body that
  was sent, unless it was compressed and expands past the receiver's ceiling, which fails the
  call; and a body is sent compressed only if that makes it shorter.\<close>

theorem compressed_bodies_return:
  assumes "lossless lib start read" and "deflates lib start read compressor"
    and "c_compressor c = Some compressor" and "c_compressor d = Some compressor"
    and "kind \<in> {KindResponse, KindItem, KindError}"
  shows "\<exists>header sent. Decode (og_Payload (bodyFrame k kind m body c)) limit
      = Inr \<lparr>p_Header = header, p_Ctx = [], p_Body = sent\<rparr>
    \<and> hdr_Kind header = kind \<and> hdr_Call header = k
    \<and> inflate header sent d = (if hdr_Compressed header \<and> int (length body) > MaxBodyLen (c_config d)
        then Inl (ResourceExhausted ''the body expands past the ceiling'') else Inr body)
    \<and> (if hdr_Compressed header then length sent < length body else sent = body)"
  using assms by (rule body_frame_received)

theorem compressed_bodies_return_witness:
  "\<exists>header sent. Decode (og_Payload (bodyFrame 0 KindItem 4 (replicate 2000 0)
        (SetCompressor (Some zeros_compressor) (sample_core RoleServer)))) 100
      = Inr \<lparr>p_Header = header, p_Ctx = [], p_Body = sent\<rparr>
    \<and> inflate header sent (SetCompressor (Some zeros_compressor) (sample_core RoleClient)) = Inr (replicate 2000 0)"
proof -
  have "c_compressor (SetCompressor (Some zeros_compressor) (sample_core role)) = Some zeros_compressor"
    "MaxBodyLen (c_config (SetCompressor (Some zeros_compressor) (sample_core role))) = MaxBodyCeiling" for role
    by (simp_all add: SetCompressor_def sample_count_facts)
  note c = this(1) and limit = this(2)
  from compressed_bodies_return [OF zeros_lossless zeros_deflates c c, of KindItem 0 4 "replicate 2000 0" RoleServer 100 RoleClient]
  show ?thesis by (auto simp: limit MaxBodyCeiling_def HeaderLen_def)
qed

end
